(* ===== verification/Sentel_Prelude.thy ===== *)
theory Sentel_Prelude
  imports Main "HOL-Library.Word" "HOL-Library.AList"
begin

text \<open>
  The vocabulary the components share. A Go function that returns a value and an
  \<^verbatim>\<open>error\<close>, and that may panic, is a function from the state it mutates to an
  \<open>outcome\<close> and the state it leaves behind; the state after an error or a panic is part
  of the result, since callers go on using it. \<open>seqM\<close> is the sequencing the code writes as
  \<^verbatim>\<open>if err != nil { return err }\<close>. Strings are byte sequences, as in Go.
\<close>

subsection \<open>Collections of facts\<close>

named_theorems go_simps \<open>equations that run the sequencing of outcomes\<close>

subsection \<open>Outcomes\<close>

datatype ('e, 'a) outcome = Ok (the_ok: 'a) | Err (the_err: 'e) | Panic

type_synonym ('s, 'e, 'a) go = "'s \<Rightarrow> ('e, 'a) outcome \<times> 's"

definition retM :: "'a \<Rightarrow> ('s, 'e, 'a) go" where
  "retM a s = (Ok a, s)"

definition errM :: "'e \<Rightarrow> ('s, 'e, 'a) go" where
  "errM e s = (Err e, s)"

definition panicM :: "('s, 'e, 'a) go" where
  "panicM s = (Panic, s)"

definition seqM :: "('s, 'e, 'a) go \<Rightarrow> ('a \<Rightarrow> ('s, 'e, 'b) go) \<Rightarrow> ('s, 'e, 'b) go" where
  "seqM m k s = (case m s of
       (Ok a, t) \<Rightarrow> k a t
     | (Err e, t) \<Rightarrow> (Err e, t)
     | (Panic, t) \<Rightarrow> (Panic, t))"

lemma run_simps [go_simps, simp]:
  "retM a s = (Ok a, s)" "errM e s = (Err e, s)" "panicM s = (Panic, s)"
  by (simp_all add: retM_def errM_def panicM_def)

lemma seqM_Ok [go_simps]: "m s = (Ok a, t) \<Longrightarrow> seqM m k s = k a t"
  by (simp add: seqM_def)

lemma seqM_Err [go_simps]: "m s = (Err e, t) \<Longrightarrow> seqM m k s = (Err e, t)"
  by (simp add: seqM_def)

lemma seqM_Panic [go_simps]: "m s = (Panic, t) \<Longrightarrow> seqM m k s = (Panic, t)"
  by (simp add: seqM_def)

lemma seqM_assoc: "seqM (seqM m k) l = seqM m (\<lambda>a. seqM (k a) l)"
  by (rule ext) (simp add: seqM_def split: prod.splits outcome.splits)

lemma seqM_eq_Ok:
  "seqM m k s = (Ok b, u) \<longleftrightarrow> (\<exists>a t. m s = (Ok a, t) \<and> k a t = (Ok b, u))"
  by (auto simp: seqM_def split: prod.splits outcome.splits)

subsection \<open>Bytes and strings\<close>

type_synonym byte = "8 word"
type_synonym bytes = "byte list"

definition string_of_bytes :: "bytes \<Rightarrow> string" where
  "string_of_bytes bs = map (\<lambda>b. char_of (unat b)) bs"

definition bytes_of_string :: "string \<Rightarrow> bytes" where
  "bytes_of_string s = map (\<lambda>c. word_of_nat (of_char c)) s"

lemma length_bytes_of_string [simp]: "length (bytes_of_string s) = length s"
  by (simp add: bytes_of_string_def)

lemma length_string_of_bytes [simp]: "length (string_of_bytes s) = length s"
  by (simp add: string_of_bytes_def)

lemma byte_char: "char_of (unat (word_of_nat (of_char c) :: byte)) = c"
  using nat_of_char_less_256 [of c] by (simp add: unat_of_nat)

lemma string_of_bytes_of_string [simp]: "string_of_bytes (bytes_of_string s) = s"
  by (simp add: string_of_bytes_def bytes_of_string_def byte_char comp_def)

subsection \<open>Slices\<close>

text \<open>
  A Go slice of bytes: the part of its backing array from the slice's first element to the
  end of its capacity, and its length. Indexing is checked against the length, slicing
  against the capacity.
\<close>

datatype slice = Slice (slice_arr: bytes) (slice_len: nat)

definition slice_view :: "slice \<Rightarrow> bytes" where
  "slice_view s = take (slice_len s) (slice_arr s)"

definition slice_of :: "bytes \<Rightarrow> slice" where
  "slice_of bs = Slice bs (length bs)"

definition slice_index :: "slice \<Rightarrow> int \<Rightarrow> byte option" where
  "slice_index s i = (if 0 \<le> i \<and> i < int (slice_len s) then Some (slice_arr s ! nat i) else None)"

definition slice_sub :: "slice \<Rightarrow> int \<Rightarrow> int \<Rightarrow> slice option" where
  "slice_sub s a b =
     (if 0 \<le> a \<and> a \<le> b \<and> b \<le> int (length (slice_arr s))
      then Some (Slice (drop (nat a) (slice_arr s)) (nat b - nat a)) else None)"

definition slice_set :: "slice \<Rightarrow> int \<Rightarrow> byte \<Rightarrow> slice option" where
  "slice_set s i b =
     (if 0 \<le> i \<and> i < int (slice_len s)
      then Some (Slice ((slice_arr s)[nat i := b]) (slice_len s)) else None)"

definition slice_wf :: "slice \<Rightarrow> bool" where
  "slice_wf s \<longleftrightarrow> slice_len s \<le> length (slice_arr s)"

lemma slice_of_simps [simp]:
  "slice_view (slice_of bs) = bs" "slice_len (slice_of bs) = length bs"
  "slice_arr (slice_of bs) = bs" "slice_wf (slice_of bs)"
  by (simp_all add: slice_of_def slice_view_def slice_wf_def)

lemma slice_view_of_arr [simp]: "slice_view (Slice bs (length bs)) = bs"
  by (simp add: slice_view_def)

lemma slice_index_Some: "0 \<le> i \<Longrightarrow> i < int (slice_len s) \<Longrightarrow> slice_index s i = Some (slice_arr s ! nat i)"
  by (simp add: slice_index_def)

lemma length_slice_view: "slice_wf s \<Longrightarrow> length (slice_view s) = slice_len s"
  by (simp add: slice_view_def slice_wf_def)

lemma slice_sub_view:
  "slice_wf s \<Longrightarrow> 0 \<le> a \<Longrightarrow> a \<le> b \<Longrightarrow> b \<le> int (slice_len s) \<Longrightarrow>
   map_option slice_view (slice_sub s a b) = Some (take (nat b - nat a) (drop (nat a) (slice_view s)))"
  by (auto simp: slice_sub_def slice_view_def slice_wf_def drop_take min_def nat_le_iff)

subsection \<open>Splitting strings\<close>

text \<open>\<^verbatim>\<open>strings.Split(s, sep)\<close> for a one-character separator: never the empty list.\<close>

fun split_on :: "'a \<Rightarrow> 'a list \<Rightarrow> 'a list list" where
  "split_on sep [] = [[]]"
| "split_on sep (c # cs) =
     (if c = sep then [] # split_on sep cs
      else case split_on sep cs of [] \<Rightarrow> [[c]] | w # ws \<Rightarrow> (c # w) # ws)"

fun join_with :: "'a \<Rightarrow> 'a list list \<Rightarrow> 'a list" where
  "join_with sep [] = []"
| "join_with sep [w] = w"
| "join_with sep (w # ws) = w @ sep # join_with sep ws"

lemma split_on_not_Nil [simp]: "split_on sep s \<noteq> []"
  by (induction s) (auto split: list.splits)

lemma split_on_no_sep: "w \<in> set (split_on sep s) \<Longrightarrow> sep \<notin> set w"
  by (induction s arbitrary: w) (auto split: if_splits list.splits)

lemma join_split: "join_with sep (split_on sep s) = s"
proof (induction s)
  case (Cons c cs)
  obtain w ws where *: "split_on sep cs = w # ws"
    by (cases "split_on sep cs") auto
  with Cons show ?case by (cases ws) auto
qed simp

lemma split_on_absent: "sep \<notin> set s \<Longrightarrow> split_on sep s = [s]"
  by (induction s) auto

lemma split_on_append: "sep \<notin> set w \<Longrightarrow> split_on sep (w @ sep # s) = w # split_on sep s"
  by (induction w) auto

lemma split_join:
  "ws \<noteq> [] \<Longrightarrow> (\<And>w. w \<in> set ws \<Longrightarrow> sep \<notin> set w) \<Longrightarrow> split_on sep (join_with sep ws) = ws"
  by (induction sep ws rule: join_with.induct) (auto simp: split_on_absent split_on_append)

lemma split_on_inj: "split_on sep s = split_on sep t \<Longrightarrow> s = t"
  by (metis join_split)

subsection \<open>Decimal numbers\<close>

text \<open>\<^verbatim>\<open>fmt.Sprintf("%d", n)\<close>, and \<^verbatim>\<open>strconv.ParseUint(s, 10, 64)\<close> for what it reads.\<close>

fun decimal :: "nat \<Rightarrow> string" where
  "decimal n = (if n < 10 then [char_of (48 + n)] else decimal (n div 10) @ [char_of (48 + n mod 10)])"

declare decimal.simps [simp del]

definition read_decimal :: "string \<Rightarrow> nat" where
  "read_decimal s = foldl (\<lambda>a c. a * 10 + (of_char c - 48)) 0 s"

lemma read_decimal: "read_decimal (decimal n) = n"
proof (induction n rule: decimal.induct)
  case (1 n)
  show ?case
  proof (cases "n < 10")
    case True
    then show ?thesis by (subst decimal.simps) (simp add: read_decimal_def)
  next
    case False
    have "of_char (char_of (48 + n mod 10) :: char) = (48 + n mod 10 :: nat)"
      by (simp add: take_bit_nat_eq_self)
    moreover from 1 [OF False] have "foldl (\<lambda>a c. a * 10 + (of_char c - 48)) 0 (decimal (n div 10)) = n div 10"
      by (simp add: read_decimal_def)
    ultimately show ?thesis
      using False by (subst decimal.simps) (simp add: read_decimal_def del: of_char_of)
  qed
qed

lemma decimal_inj: "decimal m = decimal n \<longleftrightarrow> m = n"
  by (metis read_decimal)

lemma decimal_nonempty [simp]: "decimal n \<noteq> []"
  by (subst decimal.simps) simp

definition is_digit :: "char \<Rightarrow> bool" where
  "is_digit c \<longleftrightarrow> 48 \<le> (of_char c :: nat) \<and> (of_char c :: nat) \<le> 57"

definition ParseUint :: "string \<Rightarrow> 64 word option" where
  "ParseUint s = (if s \<noteq> [] \<and> list_all is_digit s \<and> read_decimal s < 2 ^ 64 then Some (word_of_nat (read_decimal s)) else None)"

lemma decimal_digits: "list_all is_digit (decimal n)"
proof (induction n rule: decimal.induct)
  case (1 n)
  have "(of_char (char_of (48 + n mod 10) :: char) :: nat) = 48 + n mod 10"
    by (simp add: take_bit_nat_eq_self)
  then have "is_digit (char_of (48 + n mod 10))" by (auto simp: is_digit_def)
  then show ?case using 1 by (subst decimal.simps) auto
qed

lemma ParseUint_decimal [simp]: "ParseUint (decimal (unat w)) = Some w"
  using unsigned_less [of w] by (simp add: ParseUint_def decimal_digits read_decimal)

text \<open>\<^verbatim>\<open>strconv.Atoi\<close>: a sign and decimal digits, in the range of a word of 64 bits.\<close>

definition Atoi :: "string \<Rightarrow> int option" where
  "Atoi s = (let neg = (s \<noteq> [] \<and> hd s = CHR ''-''); digits = (if s \<noteq> [] \<and> hd s \<in> {CHR ''-'', CHR ''+''} then tl s else s) in
     if digits = [] \<or> \<not> list_all is_digit digits then None
     else (let n = int (read_decimal digits); v = (if neg then - n else n) in
       if - (2 ^ 63) \<le> v \<and> v < 2 ^ 63 then Some v else None))"

subsection \<open>Lists\<close>

lemma set_map_filter: "set (List.map_filter f xs) = {y. \<exists>x \<in> set xs. f x = Some y}"
  by (force simp: List.map_filter_def)

end
