(* ===== verification/Mqtt_Packet.thy ===== *)
theory Mqtt_Packet
  imports Sentel_Prelude
begin

text \<open>
  The MQTT packet of \<^verbatim>\<open>src/broker/mqtt/mqtt_packet.go\<close>: the fixed header with its
  variable-length remaining length, the decoder over a connection, and the typed reads and
  writes of the payload. A connection is the list of the chunks its successive reads
  deliver; \<^verbatim>\<open>io.CopyN\<close> reads through one buffer of at most 32768 bytes and hands
  every chunk to \<^verbatim>\<open>Write\<close>, which keeps only the last one.
\<close>

unbundle bit_operations_syntax

subsection \<open>Constants and state\<close>

definition PROTOCOL_NAME_V31 :: string where "PROTOCOL_NAME_V31 = ''MQIsdp''"
definition PROTOCOL_VERSION_V31 :: byte where "PROTOCOL_VERSION_V31 = 3"
definition PROTOCOL_NAME_V311 :: string where "PROTOCOL_NAME_V311 = ''MQTT''"
definition PROTOCOL_VERSION_V311 :: byte where "PROTOCOL_VERSION_V311 = 4"

abbreviation (input) INVALID :: byte where "INVALID \<equiv> 0x00"
abbreviation (input) CONNECT :: byte where "CONNECT \<equiv> 0x10"
abbreviation (input) CONNACK :: byte where "CONNACK \<equiv> 0x20"
abbreviation (input) PUBLISH :: byte where "PUBLISH \<equiv> 0x30"
abbreviation (input) PUBACK :: byte where "PUBACK \<equiv> 0x40"
abbreviation (input) PUBREC :: byte where "PUBREC \<equiv> 0x50"
abbreviation (input) PUBREL :: byte where "PUBREL \<equiv> 0x60"
abbreviation (input) PUBCOMP :: byte where "PUBCOMP \<equiv> 0x70"
abbreviation (input) SUBSCRIBE :: byte where "SUBSCRIBE \<equiv> 0x80"
abbreviation (input) SUBACK :: byte where "SUBACK \<equiv> 0x90"
abbreviation (input) UNSUBSCRIBE :: byte where "UNSUBSCRIBE \<equiv> 0xA0"
abbreviation (input) UNSUBACK :: byte where "UNSUBACK \<equiv> 0xB0"
abbreviation (input) PINGREQ :: byte where "PINGREQ \<equiv> 0xC0"
abbreviation (input) PINGRESP :: byte where "PINGRESP \<equiv> 0xD0"
abbreviation (input) DISCONNECT :: byte where "DISCONNECT \<equiv> 0xE0"

abbreviation (input) CONNACK_ACCEPTED :: byte where "CONNACK_ACCEPTED \<equiv> 0"
abbreviation (input) CONNACK_REFUSED_PROTOCOL_VERSION :: byte where "CONNACK_REFUSED_PROTOCOL_VERSION \<equiv> 1"
abbreviation (input) CONNACK_REFUSED_IDENTIFIER_REJECTED :: byte where "CONNACK_REFUSED_IDENTIFIER_REJECTED \<equiv> 2"
abbreviation (input) CONNACK_REFUSED_SERVER_UNAVAILABLE :: byte where "CONNACK_REFUSED_SERVER_UNAVAILABLE \<equiv> 3"
abbreviation (input) CONNACK_REFUSED_BAD_USERNAME_PASSWORD :: byte where "CONNACK_REFUSED_BAD_USERNAME_PASSWORD \<equiv> 4"
abbreviation (input) CONNACK_REFUSED_NOT_AUTHORIZED :: byte where "CONNACK_REFUSED_NOT_AUTHORIZED \<equiv> 5"

abbreviation (input) MQTT_MAX_PAYLOAD :: int where "MQTT_MAX_PAYLOAD \<equiv> 268435455"

datatype packet_error = ErrInvalidProtocol | ErrPayloadSize

record mqttPacket =
  p_command :: byte
  p_dup :: bool
  p_qos :: byte
  p_retain :: bool
  p_pid :: "16 word"
  p_pos :: int
  p_toprocess :: int
  p_length :: int
  p_remainingCount :: int
  p_remainingMult :: int
  p_remainingLength :: int
  p_payload :: slice
  p_buf :: slice

definition nameOfPacket :: "mqttPacket \<Rightarrow> string" where
  "nameOfPacket packet = (let c = p_command packet AND 0xF0 in
     if c = INVALID then ''Invalid''
     else if c = CONNECT then ''CONNECT''
     else if c = CONNACK then ''CONNACK''
     else if c = PUBLISH then ''PUBLISH''
     else if c = PUBACK then ''PUBACK''
     else if c = PUBREC then ''PUBREC''
     else if c = PUBREL then ''PUBREL''
     else if c = PUBCOMP then ''PUBCOMP''
     else if c = SUBSCRIBE then ''SUBSCRIBE''
     else if c = SUBACK then ''SUBACK''
     else if c = UNSUBSCRIBE then ''UNSUBSCRIBE''
     else if c = UNSUBACK then ''UNSUBACK''
     else if c = PINGREQ then ''PINGREQ''
     else if c = PINGRESP then ''PINGRESP''
     else if c = DISCONNECT then ''DISCONNECT''
     else ''Invalid'')"

definition newMqttPacket :: mqttPacket where
  "newMqttPacket = \<lparr>p_command = 0, p_dup = False, p_qos = 0, p_retain = False, p_pid = 0,
     p_pos = 0, p_toprocess = 0, p_length = 0, p_remainingCount = 0, p_remainingMult = 1,
     p_remainingLength = 0, p_payload = slice_of [], p_buf = slice_of []\<rparr>"

definition Clear :: "mqttPacket \<Rightarrow> mqttPacket" where
  "Clear p = p\<lparr>p_command := 0, p_dup := False, p_qos := 0, p_retain := False, p_pos := 0,
     p_length := 0, p_toprocess := 0, p_remainingCount := 0, p_remainingLength := 0,
     p_remainingMult := 1, p_payload := slice_of [], p_buf := slice_of []\<rparr>"

subsection \<open>Assembling a packet\<close>

function remaining_bytes :: "int \<Rightarrow> nat \<Rightarrow> bytes" where
  "remaining_bytes rl cnt =
     (if rl > 0 \<and> cnt < 5 then
        let b = rl mod 128; rl' = rl div 128 in
        word_of_int (if rl' > 0 then b OR 0x80 else b) # remaining_bytes rl' (Suc cnt)
      else [])"
  by pat_completeness auto
termination by (relation "measure (\<lambda>(rl, cnt). 5 - cnt)") auto

fun store_from :: "bytes \<Rightarrow> nat \<Rightarrow> bytes \<Rightarrow> bytes" where
  "store_from xs i [] = xs"
| "store_from xs i (b # bs) = store_from (xs[i := b]) (Suc i) bs"

definition header_byte :: "mqttPacket \<Rightarrow> byte" where
  "header_byte p = (let h0 = p_command p;
       h1 = (if p_dup p then h0 OR 8 else h0);
       h2 = (if p_qos p > 0 then h1 OR push_bit 1 (p_qos p) else h1) in
     if p_retain p then h2 OR 1 else h2)"

definition initializePacket :: "(mqttPacket, packet_error, unit) go" where
  "initializePacket p =
     (let rb = remaining_bytes (p_remainingLength p) 0;
          p1 = p\<lparr>p_remainingCount := int (length rb)\<rparr> in
      if length rb = 5 then (Err ErrPayloadSize, p1)
      else
        let len = p_remainingLength p + 1 + int (length rb);
            p2 = p1\<lparr>p_length := len\<rparr> in
        if len < 1 then (Panic, p2)
        else (Ok (), p2\<lparr>
          p_payload := slice_of (store_from ((replicate (nat len) 0)[0 := header_byte p]) 1 rb),
          p_pos := 1 + int (length rb)\<rparr>))"

subsection \<open>Reading from a connection\<close>

definition Write :: "mqttPacket \<Rightarrow> slice \<Rightarrow> mqttPacket" where
  "Write p buf = p\<lparr>p_buf := buf\<rparr>"

definition copy_buffer_size :: nat where "copy_buffer_size = 32768"

definition push_chunk :: "bytes \<Rightarrow> bytes list \<Rightarrow> bytes list" where
  "push_chunk c cs = (if c = [] then cs else c # cs)"

function copy_loop :: "nat \<Rightarrow> bytes \<Rightarrow> mqttPacket \<Rightarrow> bytes list \<Rightarrow> bool \<times> mqttPacket \<times> bytes list" where
  "copy_loop n arr p [] = (n = 0, p, [])"
| "copy_loop n arr p (c # cs) =
     (if n = 0 then (True, p, c # cs)
      else if arr = [] then (False, p, c # cs)
      else
        let k = min n (length arr); got = take k c; rest = drop k c;
            arr' = got @ drop (length got) arr;
            p' = (if got = [] then p else Write p (Slice arr' (length got))) in
        copy_loop (n - length got) arr' p' (push_chunk rest cs))"
  by pat_completeness auto
termination
  by (relation "measure (\<lambda>(n, arr, p, cs). length cs + length (concat cs))")
    (auto simp: push_chunk_def min_def diff_less_mono2 intro!: diff_less add_pos_pos)

definition CopyN :: "mqttPacket \<Rightarrow> bytes list \<Rightarrow> int \<Rightarrow> bool \<times> mqttPacket \<times> bytes list" where
  "CopyN p r n = copy_loop (nat n) (replicate (min copy_buffer_size (nat n)) 0) p r"

definition length_digit :: "mqttPacket \<Rightarrow> byte \<Rightarrow> mqttPacket" where
  "length_digit p b = p\<lparr>
     p_remainingLength := p_remainingLength p + uint (b AND 127) * p_remainingMult p,
     p_remainingMult := p_remainingMult p * 128\<rparr>"

function decode_length :: "mqttPacket \<Rightarrow> bytes list \<Rightarrow> (packet_error, unit) outcome \<times> mqttPacket \<times> bytes list" where
  "decode_length p r =
     (case CopyN p r 1 of (ok, p1, r1) \<Rightarrow>
        if \<not> ok then (Err ErrInvalidProtocol, p1, r1)
        else
          let p2 = p1\<lparr>p_remainingCount := p_remainingCount p - 1\<rparr> in
          if p_remainingCount p - 1 < -4 then (Err ErrInvalidProtocol, p2, r1)
          else case slice_index (p_buf p1) 0 of
            None \<Rightarrow> (Panic, p2, r1)
          | Some b \<Rightarrow>
              if b AND 128 = 0 then (Ok (), length_digit p2 b, r1)
              else decode_length (length_digit p2 b) r1)"
  by pat_completeness auto
termination
  by (relation "measure (\<lambda>(p, r). nat (p_remainingCount p + 5))")
    (auto simp: Let_def length_digit_def)

definition decode_command :: "mqttPacket \<Rightarrow> bytes list \<Rightarrow> (packet_error, unit) outcome \<times> mqttPacket \<times> bytes list" where
  "decode_command p r =
     (if p_command p = 0 then
        case CopyN p r 1 of (ok, p1, r1) \<Rightarrow>
          if \<not> ok then (Err ErrInvalidProtocol, p1, r1)
          else (case slice_index (p_buf p1) 0 of
                  None \<Rightarrow> (Panic, p1, r1)
                | Some b \<Rightarrow> (Ok (), p1\<lparr>p_command := b\<rparr>, r1))
      else (Ok (), p, r))"

definition decode_payload :: "mqttPacket \<Rightarrow> bytes list \<Rightarrow> (packet_error, unit) outcome \<times> mqttPacket \<times> bytes list" where
  "decode_payload p r =
     (let p1 = p\<lparr>p_remainingCount := p_remainingCount p * -1\<rparr>;
          p2 = (if p_remainingLength p1 > 0
                then p1\<lparr>p_toprocess := p_remainingLength p1, p_payload := slice_of []\<rparr> else p1) in
      if p_toprocess p2 > 0 then
        case CopyN p2 r (p_toprocess p2) of (ok, p3, r1) \<Rightarrow>
          if \<not> ok then (Err ErrInvalidProtocol, Clear p3, r1)
          else (Ok (), p3\<lparr>p_payload := p_buf p3, p_pos := 0\<rparr>, r1)
      else (Ok (), p2\<lparr>p_pos := 0\<rparr>, r))"

definition DecodeFromReader :: "mqttPacket \<Rightarrow> bytes list \<Rightarrow> (packet_error, unit) outcome \<times> mqttPacket \<times> bytes list" where
  "DecodeFromReader p r =
     (case decode_command p r of
        (Ok _, p1, r1) \<Rightarrow>
          (case (if p_remainingCount p1 \<le> 0 then decode_length p1 r1 else (Ok (), p1, r1)) of
             (Ok _, p2, r2) \<Rightarrow> decode_payload p2 r2
           | e \<Rightarrow> e)
      | e \<Rightarrow> e)"

subsection \<open>Typed reads and writes of the payload\<close>

definition readByte :: "(mqttPacket, packet_error, byte) go" where
  "readByte p =
     (if p_pos p + 1 > p_remainingLength p then (Err ErrInvalidProtocol, p)
      else case slice_index (p_payload p) (p_pos p) of
        None \<Rightarrow> (Panic, p)
      | Some b \<Rightarrow> (Ok b, p\<lparr>p_pos := p_pos p + 1\<rparr>))"

definition writeByte :: "byte \<Rightarrow> (mqttPacket, packet_error, unit) go" where
  "writeByte b p =
     (if p_pos p + 1 > p_length p then (Err ErrInvalidProtocol, p)
      else case slice_set (p_payload p) (p_pos p) b of
        None \<Rightarrow> (Panic, p)
      | Some s \<Rightarrow> (Ok (), p\<lparr>p_payload := s, p_pos := p_pos p + 1\<rparr>))"

definition readBytes :: "int \<Rightarrow> (mqttPacket, packet_error, bytes) go" where
  "readBytes count p =
     (if p_pos p + count > p_remainingLength p then (Err ErrInvalidProtocol, p)
      else case slice_sub (p_payload p) (p_pos p) (p_pos p + count) of
        None \<Rightarrow> (Panic, p)
      | Some s \<Rightarrow> (Ok (slice_view s), p\<lparr>p_pos := p_pos p + count\<rparr>))"

fun write_loop :: "bytes \<Rightarrow> (mqttPacket, packet_error, unit) go" where
  "write_loop [] p = (Ok (), p)"
| "write_loop (b # bs) p =
     (case slice_set (p_payload p) (p_pos p) b of
        None \<Rightarrow> (Panic, p)
      | Some s \<Rightarrow> write_loop bs (p\<lparr>p_payload := s, p_pos := p_pos p + 1\<rparr>))"

definition writeBytes :: "bytes \<Rightarrow> (mqttPacket, packet_error, unit) go" where
  "writeBytes bs p =
     (if p_pos p + int (length bs) > p_length p then (Err ErrInvalidProtocol, p)
      else write_loop bs p)"

definition readUint16 :: "(mqttPacket, packet_error, 16 word) go" where
  "readUint16 p =
     (if p_pos p + 2 > p_remainingLength p then (Err ErrInvalidProtocol, p)
      else case slice_index (p_payload p) (p_pos p) of
        None \<Rightarrow> (Panic, p)
      | Some m \<Rightarrow>
          let msb = ucast m :: 16 word; p1 = p\<lparr>p_pos := p_pos p + 1\<rparr> in
          (case slice_index (p_payload p1) (p_pos p1) of
             None \<Rightarrow> (Panic, p1)
           | Some lsb \<Rightarrow> (Ok (push_bit 8 msb + ucast lsb), p1\<lparr>p_pos := p_pos p1 + 1\<rparr>)))"

definition writeUint16 :: "16 word \<Rightarrow> (mqttPacket, packet_error, unit) go" where
  "writeUint16 data =
     (let msb = ucast (drop_bit 8 data AND 0xF); lsb = ucast (data AND 0xF) in
      seqM (writeByte msb) (\<lambda>_. writeByte lsb))"

definition readString :: "(mqttPacket, packet_error, string) go" where
  "readString = seqM readUint16 (\<lambda>len p.
     if p_pos p + uint len > p_remainingLength p then (Err ErrInvalidProtocol, p)
     else case slice_sub (p_payload p) (p_pos p) (p_pos p + uint len) of
       None \<Rightarrow> (Panic, p)
     | Some s \<Rightarrow> (Ok (string_of_bytes (slice_view s)), p\<lparr>p_pos := p_pos p + uint len\<rparr>))"

definition writeString :: "string \<Rightarrow> (mqttPacket, packet_error, unit) go" where
  "writeString data =
     seqM (writeUint16 (word_of_nat (length data))) (\<lambda>_. writeBytes (bytes_of_string data))"

subsection \<open>Vocabulary of the specification\<close>

text \<open>
  One turn of the length loop that reads the byte \<open>b\<close> into the buffer \<open>s\<close>, and what the loop
  leaves behind; a packet whose payload holds all of its remaining length (\<open>wf_packet\<close>), the
  part of it the typed reads have not consumed (\<open>unread\<close>); a packet under construction, as the
  bytes written so far and the zero bytes still to be written (\<open>assembling\<close>); and the two bytes
  \<open>writeUint16\<close> makes of a number (\<open>nibbles\<close>).
\<close>

definition filled :: "mqttPacket \<Rightarrow> bool" where
  "filled p \<longleftrightarrow> 0 < slice_len (p_buf p) \<and> slice_wf (p_buf p)"

definition turn :: "mqttPacket \<Rightarrow> slice \<Rightarrow> byte \<Rightarrow> mqttPacket" where
  "turn p s b = length_digit ((Write p s)\<lparr>p_remainingCount := p_remainingCount p - 1\<rparr>) b"

definition lengths_set :: "mqttPacket \<Rightarrow> int \<Rightarrow> int \<Rightarrow> int \<Rightarrow> slice \<Rightarrow> mqttPacket" where
  "lengths_set p rc rl m s = p\<lparr>p_remainingCount := rc, p_remainingLength := rl,
     p_remainingMult := m, p_buf := s\<rparr>"

definition length_inv :: "mqttPacket \<Rightarrow> bool" where
  "length_inv p \<longleftrightarrow> - 4 \<le> p_remainingCount p \<and> p_remainingCount p \<le> 0 \<and>
     p_remainingMult p = 128 ^ nat (- p_remainingCount p) \<and>
     0 \<le> p_remainingLength p \<and> p_remainingLength p < p_remainingMult p"

definition decoded :: "mqttPacket \<Rightarrow> byte \<Rightarrow> int \<Rightarrow> bytes \<Rightarrow> bool" where
  "decoded q hdr rl body \<longleftrightarrow> p_command q = hdr \<and> p_remainingLength q = rl \<and> p_pos q = 0 \<and>
     slice_view (p_payload q) = body \<and> slice_wf (p_payload q) \<and>
     slice_len (p_payload q) = length body"

definition wf_packet :: "mqttPacket \<Rightarrow> bool" where
  "wf_packet p \<longleftrightarrow> slice_wf (p_payload p) \<and> p_remainingLength p = int (slice_len (p_payload p)) \<and>
     0 \<le> p_pos p \<and> p_pos p \<le> p_remainingLength p"

definition unread :: "mqttPacket \<Rightarrow> bytes" where
  "unread p = drop (nat (p_pos p)) (slice_view (p_payload p))"

definition advance :: "mqttPacket \<Rightarrow> nat \<Rightarrow> mqttPacket" where
  "advance p n = p\<lparr>p_pos := p_pos p + int n\<rparr>"

definition assembling :: "mqttPacket \<Rightarrow> bytes \<Rightarrow> bytes \<Rightarrow> bool" where
  "assembling p pre zs \<longleftrightarrow> p_payload p = slice_of (pre @ zs) \<and> p_pos p = int (length pre) \<and>
     p_length p = int (length pre + length zs)"

definition nibbles :: "16 word \<Rightarrow> bytes" where
  "nibbles w = [ucast (drop_bit 8 w AND 0xF), ucast (w AND 0xF)]"

definition payload_packet :: "bytes \<Rightarrow> mqttPacket" where
  "payload_packet bs = newMqttPacket\<lparr>p_remainingLength := int (length bs), p_payload := slice_of bs\<rparr>"

definition written :: "mqttPacket \<Rightarrow> mqttPacket \<Rightarrow> bytes" where
  "written p q = take (nat (p_pos q - p_pos p)) (drop (nat (p_pos p)) (slice_view (p_payload q)))"

definition sample_packet :: mqttPacket where
  "sample_packet = newMqttPacket\<lparr>p_command := PUBLISH, p_qos := 1, p_remainingLength := 3\<rparr>"

subsection \<open>The remaining length\<close>

declare remaining_bytes.simps [simp del]
declare copy_loop.simps [simp del]
declare decode_length.simps [simp del]

lemma store_from_eq:
  "i + length bs \<le> length xs \<Longrightarrow>
   store_from xs i bs = take i xs @ bs @ drop (i + length bs) xs"
proof (induction xs i bs rule: store_from.induct)
  case (2 xs i b bs)
  then show ?case
    by (simp add: upd_conv_take_nth_drop take_Suc_conv_app_nth add.commute)
qed simp

lemma remaining_bytes_nonpos [simp]: "rl \<le> 0 \<Longrightarrow> remaining_bytes rl cnt = []"
  by (simp add: remaining_bytes.simps)

lemma remaining_bytes_full [simp]: "5 \<le> cnt \<Longrightarrow> remaining_bytes rl cnt = []"
  by (simp add: remaining_bytes.simps)

lemma low_bits: "0 \<le> b \<Longrightarrow> b < 128 \<Longrightarrow> b AND 127 = (b :: int)"
  using take_bit_eq_mask [of 7 b] by (simp add: take_bit_int_eq_self mask_eq_exp_minus_1)

lemma byte_low_bits:
  assumes "0 \<le> b" "b < 128"
  shows "uint ((word_of_int b :: byte) AND 127) = b"
    and "uint ((word_of_int (b OR 128) :: byte) AND 127) = b"
proof -
  show *: "uint ((word_of_int b :: byte) AND 127) = b"
    using assms low_bits by (simp add: unsigned_and_eq uint_word_of_int)
  have "(word_of_int (b OR 128) :: byte) AND 127 = word_of_int b AND 127"
    by (simp add: of_int_or_eq bit.conj_disj_distrib2)
  with * show "uint ((word_of_int (b OR 128) :: byte) AND 127) = b" by simp
qed

lemma byte_high_bit:
  "0 \<le> b \<Longrightarrow> b < 128 \<Longrightarrow> (word_of_int b :: byte) AND 128 = 0"
  "(word_of_int (b OR 128) :: byte) AND 128 \<noteq> 0"
proof -
  assume "0 \<le> b" "b < 128"
  then have "(word_of_int b :: byte) AND 128 = word_of_int (b AND 127) AND 128"
    by (simp add: low_bits)
  also have "\<dots> = word_of_int b AND (127 AND 128)"
    by (simp only: of_int_and_eq of_int_numeral and.assoc)
  finally show "(word_of_int b :: byte) AND 128 = 0" by simp
qed (simp add: of_int_or_eq bit.conj_disj_distrib2)

lemma length_remaining_bytes:
  "cnt \<le> 5 \<Longrightarrow> length (remaining_bytes rl cnt) \<le> 5 - cnt"
proof (induction rl cnt rule: remaining_bytes.induct)
  case (1 rl cnt)
  have "length (remaining_bytes (rl div 128) (Suc cnt)) \<le> 4 - cnt" if "0 < rl" "cnt < 5"
    using 1 that by auto
  then show ?case
    by (subst remaining_bytes.simps) (fastforce simp: Let_def)
qed

lemma remaining_bytes_short:
  "cnt \<le> 4 \<Longrightarrow> rl < 128 ^ k \<Longrightarrow> length (remaining_bytes rl cnt) \<le> k"
proof (induction k arbitrary: rl cnt)
  case (Suc k)
  have "rl div 128 < 128 ^ k" using Suc.prems(2) by (simp add: div_less_iff_less_mult)
  then have "length (remaining_bytes (rl div 128) (Suc cnt)) \<le> k"
    using Suc.IH [of "Suc cnt" "rl div 128"] Suc.prems(1) by (cases "cnt = 4") auto
  then show ?case by (subst remaining_bytes.simps) (simp add: Let_def)
qed (simp add: remaining_bytes.simps)

lemma remaining_bytes_long:
  "128 ^ k \<le> rl \<Longrightarrow> cnt + k < 5 \<Longrightarrow> k < length (remaining_bytes rl cnt)"
proof (induction k arbitrary: rl cnt)
  case (Suc k)
  have "128 ^ k \<le> rl div 128" using zdiv_mono1 [OF Suc.prems(1), of 128] by simp
  then have "k < length (remaining_bytes (rl div 128) (Suc cnt))"
    using Suc by simp
  moreover have "0 < rl" using Suc.prems(1) by (rule less_le_trans [rotated]) simp
  ultimately show ?case using Suc.prems(2) by (subst remaining_bytes.simps) (simp add: Let_def)
qed (simp add: remaining_bytes.simps Let_def)

lemma length_remaining_bytes_5_iff:
  "length (remaining_bytes rl 0) = 5 \<longleftrightarrow> MQTT_MAX_PAYLOAD < rl"
  using remaining_bytes_short [of 0 rl 4] remaining_bytes_long [of 4 rl 0]
    length_remaining_bytes [of 0 rl]
  by (cases "MQTT_MAX_PAYLOAD < rl") auto

subsection \<open>Copying from a connection\<close>

lemma copy_loop_0 [simp]: "copy_loop 0 arr p cs = (True, p, cs)"
  by (cases cs) (simp_all add: copy_loop.simps)

lemma CopyN_byte [simp]:
  "CopyN p ((b # bs) # cs) 1 = (True, Write p (slice_of [b]), push_chunk bs cs)"
  by (simp add: CopyN_def copy_buffer_size_def copy_loop.simps slice_of_def)

lemma CopyN_Nil [simp]: "0 < n \<Longrightarrow> CopyN p [] n = (False, p, [])"
  by (simp add: CopyN_def copy_loop.simps)

lemma CopyN_chunk:
  assumes "0 < n" "n \<le> int copy_buffer_size" "int (length body) = n"
  shows "CopyN p ((body @ t) # cs) n = (True, Write p (slice_of body), push_chunk t cs)"
proof -
  from assms have "body \<noteq> []" "nat n = length body" "length body \<le> copy_buffer_size" by auto
  then show ?thesis
    by (simp add: CopyN_def copy_loop.simps slice_of_def min_absorb2)
qed

lemma copy_loop_step:
  assumes "0 < n" "arr \<noteq> []"
  shows "copy_loop n arr p (c # cs) =
    (let got = take (min n (length arr)) c; arr' = got @ drop (length got) arr in
     copy_loop (n - length got) arr'
       (if got = [] then p else Write p (Slice arr' (length got)))
       (push_chunk (drop (min n (length arr)) c) cs))"
  using assms by (simp add: copy_loop.simps Let_def)

lemma Write_simps [simp]:
  "p_buf (Write p s) = s" "Write (Write p s) s' = Write p s'"
  "(Write p s)\<lparr>p_buf := s'\<rparr> = p\<lparr>p_buf := s'\<rparr>"
  "p_command (Write p s) = p_command p" "p_remainingCount (Write p s) = p_remainingCount p"
  "p_remainingLength (Write p s) = p_remainingLength p"
  "p_remainingMult (Write p s) = p_remainingMult p" "p_toprocess (Write p s) = p_toprocess p"
  "p_payload (Write p s) = p_payload p" "p_pos (Write p s) = p_pos p"
  by (simp_all add: Write_def)

lemma copy_loop_frame:
  "copy_loop n arr p cs = (ok, q, r) \<Longrightarrow> q = p \<or> (\<exists>s. q = Write p s)"
proof (induction n arr p cs arbitrary: q rule: copy_loop.induct)
  case (2 n arr p c cs)
  show ?case
  proof (cases "n = 0 \<or> arr = []")
    case True
    with 2(2) show ?thesis by (auto simp: copy_loop.simps split: if_splits)
  next
    case False
    with 2(2) have "copy_loop n arr p (c # cs) = (ok, q, r)" "0 < n" "arr \<noteq> []" by auto
    with 2(1) [OF _ _ refl refl refl refl refl] show ?thesis
      by (fastforce simp: copy_loop_step Let_def split: if_splits)
  qed
qed (simp add: copy_loop.simps)

text \<open>Whatever the chunks are, a successful copy leaves a non-empty buffer.\<close>

lemma copy_loop_filled:
  "copy_loop n arr p cs = (True, q, r) \<Longrightarrow> 0 < n \<or> filled p \<Longrightarrow> filled q"
proof (induction n arr p cs rule: copy_loop.induct)
  case (2 n arr p c cs)
  show ?case
  proof (cases "n = 0 \<or> arr = []")
    case True
    with 2(2,3) show ?thesis by (auto simp: copy_loop.simps split: if_splits)
  next
    case False
    define got where "got = take (min n (length arr)) c"
    define arr' where "arr' = got @ drop (length got) arr"
    define p' where "p' = (if got = [] then p else Write p (Slice arr' (length got)))"
    have "0 < n - length got \<or> filled p'"
      using False by (auto simp: p'_def filled_def slice_wf_def arr'_def)
    moreover have "copy_loop (n - length got) arr' p'
        (push_chunk (drop (min n (length arr)) c) cs) = (True, q, r)"
      using 2(2) False copy_loop_step [of n arr p c cs]
      unfolding got_def arr'_def p'_def Let_def by simp
    ultimately show ?thesis
      using 2(1) [OF _ _ refl got_def refl arr'_def p'_def] False by simp
  qed
qed (simp add: copy_loop.simps)

lemma CopyN_ok:
  assumes "CopyN p cs n = (True, q, r)" "0 < n"
  obtains s where "q = Write p s" "0 < slice_len s" "slice_wf s"
proof -
  have *: "filled q" using assms copy_loop_filled by (simp add: CopyN_def)
  from assms(1) have "q = p \<or> (\<exists>s. q = Write p s)"
    unfolding CopyN_def by (rule copy_loop_frame)
  then have "\<exists>s. q = Write p s"
  proof
    assume "q = p"
    then have "q = Write p (p_buf p)" by (simp add: Write_def)
    then show ?thesis ..
  qed
  with * that show thesis by (auto simp: filled_def)
qed

text \<open>
  The buffer is filled from its start by every read, and \<^const>\<open>Write\<close> keeps the last
  chunk only: of a payload that arrives in several chunks the last one is what is left.
\<close>

lemma copy_loop_chunks:
  assumes "ds \<noteq> []" "\<forall>d \<in> set ds. d \<noteq> []" "length (concat ds) \<le> length arr"
  shows "\<exists>s. copy_loop (length (concat ds)) arr p (ds @ cs) = (True, Write p s, cs) \<and>
             slice_view s = last ds \<and> slice_wf s \<and> length (slice_arr s) = length arr"
  using assms
proof (induction ds arbitrary: arr p)
  case (Cons d ds)
  let ?arr = "d @ drop (length d) arr"
  have step: "copy_loop (length (concat (d # ds))) arr p ((d # ds) @ cs) =
      copy_loop (length (concat ds)) ?arr (Write p (Slice ?arr (length d))) (ds @ cs)"
  proof -
    have "0 < length (concat (d # ds))" "arr \<noteq> []"
      and "min (length (concat (d # ds))) (length arr) = length (concat (d # ds))"
      using Cons.prems by auto
    then show ?thesis
      using Cons.prems copy_loop_step [of "length (concat (d # ds))" arr p d "ds @ cs"]
      by (simp add: Let_def push_chunk_def)
  qed
  show ?case
  proof (cases "ds = []")
    case True
    with Cons.prems show ?thesis
      unfolding step by (auto simp: slice_view_def slice_wf_def)
  next
    case False
    with Cons.prems have "length (concat ds) \<le> length ?arr" "\<forall>d \<in> set ds. d \<noteq> []" by auto
    from Cons.IH [OF False this(2,1), of "Write p (Slice ?arr (length d))"] Cons.prems False
    show ?thesis unfolding step by auto
  qed
qed simp

subsection \<open>Decoding the fixed header\<close>

lemma slice_index_byte [simp]: "slice_index (slice_of [b]) 0 = Some b"
  by (simp add: slice_index_def)

lemma push_chunk_simps [simp]:
  "push_chunk [] cs = cs" "c \<noteq> [] \<Longrightarrow> push_chunk c cs = c # cs"
  by (simp_all add: push_chunk_def)


lemma turn_simps [simp]:
  "p_remainingCount (turn p s b) = p_remainingCount p - 1"
  "p_remainingLength (turn p s b) = p_remainingLength p + uint (b AND 127) * p_remainingMult p"
  "p_remainingMult (turn p s b) = p_remainingMult p * 128"
  "p_command (turn p s b) = p_command p" "p_toprocess (turn p s b) = p_toprocess p"
  "p_payload (turn p s b) = p_payload p" "p_buf (turn p s b) = s"
  by (simp_all add: turn_def length_digit_def)

lemma lengths_set_turn [simp]:
  "lengths_set (turn p s b) rc rl m s' = lengths_set p rc rl m s'"
  by (cases p) (simp add: lengths_set_def turn_def length_digit_def Write_def)

lemma turn_lengths_set:
  "turn p s b = lengths_set p (p_remainingCount p - 1)
     (p_remainingLength p + uint (b AND 127) * p_remainingMult p) (p_remainingMult p * 128) s"
  by (cases p) (simp add: lengths_set_def turn_def length_digit_def Write_def)

lemma decode_length_byte:
  assumes "CopyN p r 1 = (True, Write p s, r1)" "slice_index s 0 = Some b"
  shows "decode_length p r =
    (if p_remainingCount p \<le> - 4
     then (Err ErrInvalidProtocol, (Write p s)\<lparr>p_remainingCount := p_remainingCount p - 1\<rparr>, r1)
     else if b AND 128 = 0 then (Ok (), turn p s b, r1) else decode_length (turn p s b) r1)"
  using assms by (subst decode_length.simps) (simp add: Let_def turn_def)

lemma decode_length_cases [case_names fail read]:
  assumes "\<And>p1 r1. CopyN p r 1 = (False, p1, r1) \<Longrightarrow>
      decode_length p r = (Err ErrInvalidProtocol, p1, r1) \<Longrightarrow> P"
    and "\<And>s r1 b. CopyN p r 1 = (True, Write p s, r1) \<Longrightarrow> slice_index s 0 = Some b \<Longrightarrow> P"
  shows P
proof -
  obtain ok p1 r1 where c: "CopyN p r 1 = (ok, p1, r1)" by (cases "CopyN p r 1")
  show P
  proof (cases ok)
    case True
    with c obtain s where "p1 = Write p s" "0 < slice_len s"
      using CopyN_ok [of p r 1 p1 r1] by auto
    with c True assms(2) [of s r1 "slice_arr s ! 0"] show P by (simp add: slice_index_def)
  next
    case False
    with c have "decode_length p r = (Err ErrInvalidProtocol, p1, r1)"
      by (subst decode_length.simps) simp
    with c False assms(1) show P by simp
  qed
qed

text \<open>An induction along the turns of the loop.\<close>

lemma decode_length_turns [case_names turn]:
  assumes "\<And>p r. (\<And>s r1 b. CopyN p r 1 = (True, Write p s, r1) \<Longrightarrow> slice_index s 0 = Some b \<Longrightarrow>
      - 4 < p_remainingCount p \<Longrightarrow> Q (turn p s b) r1) \<Longrightarrow> Q p r"
  shows "Q p r"
proof (induction "nat (p_remainingCount p + 5)" arbitrary: p r rule: less_induct)
  case less
  show ?case by (rule assms, rule less) simp
qed

lemma decode_length_safe: "fst (decode_length p r) \<noteq> Panic"
proof (induction p r rule: decode_length_turns)
  case (turn p r)
  show ?case
    by (rule decode_length_cases [of p r]) (auto simp: decode_length_byte turn)
qed

lemma sum_digits: "rl = 128 * x + y \<Longrightarrow> y * m + x * (m * 128) = rl * (m :: int)"
  by (simp add: algebra_simps)

lemma decode_length_remaining_bytes:
  assumes "0 < rl" "rl < 128 ^ (4 - cnt)" "p_remainingCount p = - int cnt"
  shows "\<exists>s. decode_length p ((remaining_bytes rl cnt @ t) # cs) =
    (Ok (), lengths_set p (p_remainingCount p - int (length (remaining_bytes rl cnt)))
        (p_remainingLength p + rl * p_remainingMult p)
        (p_remainingMult p * 128 ^ length (remaining_bytes rl cnt)) s,
     push_chunk t cs)"
  using assms
proof (induction rl cnt arbitrary: p rule: remaining_bytes.induct)
  case (1 rl cnt)
  let ?b = "rl mod 128" and ?rl = "rl div 128"
  from 1(2,3) have cnt: "cnt < 4" by (cases "cnt < 4") auto
  then have exp: "4 - cnt = Suc (4 - Suc cnt)" by simp
  have b: "0 \<le> ?b" "?b < 128" by simp_all
  show ?case
  proof (cases "?rl = 0")
    case True
    then have "remaining_bytes rl cnt = [word_of_int ?b]"
      using 1(2) cnt by (subst remaining_bytes.simps) simp
    moreover from True have "?b = rl" using 1(2) by (simp add: zdiv_eq_0_iff)
    ultimately show ?thesis
      using 1(4) cnt byte_low_bits(1) [OF b] byte_high_bit(1) [OF b]
      by (auto simp: decode_length_byte [OF CopyN_byte slice_index_byte] turn_lengths_set)
  next
    case False
    with 1(2) have pos: "0 < ?rl" by (simp add: pos_imp_zdiv_pos_iff zdiv_eq_0_iff)
    define c where "c = (word_of_int (?b OR 128) :: byte)"
    define rb where "rb = remaining_bytes ?rl (Suc cnt)"
    have rb: "remaining_bytes rl cnt = c # rb"
      using 1(2) cnt pos by (subst remaining_bytes.simps) (simp add: c_def rb_def Let_def)
    have "rb \<noteq> []" using pos cnt by (simp add: rb_def remaining_bytes.simps Let_def)
    define q where "q = turn p (slice_of [c]) c"
    have c: "uint (c AND 127) = ?b" "c AND 128 \<noteq> 0"
      using byte_low_bits(2) [OF b] byte_high_bit(2) [of ?b] by (simp_all add: c_def)
    have run: "decode_length p ((remaining_bytes rl cnt @ t) # cs) = decode_length q ((rb @ t) # cs)"
      using 1(4) cnt \<open>rb \<noteq> []\<close> c
      by (simp add: rb decode_length_byte [OF CopyN_byte slice_index_byte] q_def)
    have "?rl < 128 ^ (4 - Suc cnt)"
      using 1(3) unfolding exp by (simp add: div_less_iff_less_mult)
    moreover have "p_remainingCount q = - int (Suc cnt)"
      using 1(4) by (simp add: q_def)
    ultimately obtain s where s: "decode_length q ((rb @ t) # cs) =
      (Ok (), lengths_set q (p_remainingCount q - int (length rb))
        (p_remainingLength q + ?rl * p_remainingMult q)
        (p_remainingMult q * 128 ^ length rb) s, push_chunk t cs)"
      using 1(1) [OF _ refl refl pos, of q] 1(2) cnt by (auto simp: rb_def)
    have sum: "p_remainingLength q + ?rl * p_remainingMult q = p_remainingLength p + rl * p_remainingMult p"
      using sum_digits [of rl ?rl ?b] c by (simp add: q_def)
    show ?thesis unfolding run s sum by (auto simp: q_def rb diff_diff_eq mult.assoc intro!: exI [of _ s])
  qed
qed

text \<open>The decoder bounds the remaining length.\<close>

lemma uint_low_bits: "uint (b AND 127 :: byte) \<le> 127"
  by (simp add: unsigned_and_eq AND_upper2)

lemma length_inv_turn:
  assumes "length_inv p" "- 4 < p_remainingCount p"
  shows "length_inv (turn p s b)"
proof -
  let ?m = "p_remainingMult p" and ?d = "uint (b AND 127 :: byte)"
  have m: "0 < ?m" using assms by (auto simp: length_inv_def)
  have "?d * ?m \<le> 127 * ?m" "0 \<le> ?d * ?m"
    using uint_low_bits [of b] m by (auto simp: mult_right_mono)
  moreover have "p_remainingLength p < ?m" "0 \<le> p_remainingLength p"
    using assms by (auto simp: length_inv_def)
  ultimately have "p_remainingLength p + ?d * ?m < ?m * 128" "0 \<le> p_remainingLength p + ?d * ?m"
    by linarith+
  moreover have "nat (- (p_remainingCount p - 1)) = Suc (nat (- p_remainingCount p))"
    using assms unfolding length_inv_def by linarith
  ultimately show ?thesis using assms unfolding length_inv_def by simp
qed

lemma decode_length_bounds:
  "decode_length p r = (Ok (), q, r') \<Longrightarrow> length_inv p \<Longrightarrow> length_inv q"
proof (induction p r rule: decode_length_turns)
  case (turn p r)
  show ?case
  proof (cases rule: decode_length_cases [of p r])
    case (read s r1 b)
    with turn show ?thesis
      by (auto simp: decode_length_byte length_inv_turn split: if_splits)
  qed (use turn in simp)
qed

subsection \<open>Decoding a whole packet\<close>

lemma decode_header:
  assumes "hdr \<noteq> 0" "0 < rl" "rl \<le> MQTT_MAX_PAYLOAD"
  shows "\<exists>m s. DecodeFromReader newMqttPacket ((hdr # remaining_bytes rl 0 @ t) # cs) =
    decode_payload (lengths_set (newMqttPacket\<lparr>p_command := hdr\<rparr>)
        (- int (length (remaining_bytes rl 0))) rl m s) (push_chunk t cs)"
proof -
  let ?p = "(Write newMqttPacket (slice_of [hdr]))\<lparr>p_command := hdr\<rparr>"
  have rb: "remaining_bytes rl 0 \<noteq> []"
    using assms by (simp add: remaining_bytes.simps Let_def)
  have cmd: "decode_command newMqttPacket ((hdr # remaining_bytes rl 0 @ t) # cs) =
      (Ok (), ?p, (remaining_bytes rl 0 @ t) # cs)"
    using rb by (simp add: decode_command_def newMqttPacket_def)
  have "p_remainingCount ?p = - int 0" "p_remainingLength ?p = 0" "p_remainingMult ?p = 1"
    by (simp_all add: newMqttPacket_def)
  with decode_length_remaining_bytes [of rl 0 ?p t cs] assms obtain s where
    "decode_length ?p ((remaining_bytes rl 0 @ t) # cs) =
     (Ok (), lengths_set ?p (- int (length (remaining_bytes rl 0))) rl
        (128 ^ length (remaining_bytes rl 0)) s, push_chunk t cs)"
    by auto
  moreover have "lengths_set ?p rc x m s = lengths_set (newMqttPacket\<lparr>p_command := hdr\<rparr>) rc x m s" for rc x m s
    by (simp add: lengths_set_def Write_def newMqttPacket_def)
  ultimately show ?thesis
    using cmd \<open>p_remainingCount ?p = - int 0\<close> by (auto simp: DecodeFromReader_def)
qed

lemma lengths_set_simps [simp]:
  "p_remainingLength (lengths_set p rc rl m s) = rl" "p_remainingCount (lengths_set p rc rl m s) = rc"
  "p_command (lengths_set p rc rl m s) = p_command p" "p_toprocess (lengths_set p rc rl m s) = p_toprocess p"
  by (simp_all add: lengths_set_def)

lemma decode_payload_pos:
  assumes "0 < p_remainingLength p"
  shows "decode_payload p r =
    (let q = p\<lparr>p_remainingCount := - p_remainingCount p, p_toprocess := p_remainingLength p,
                p_payload := slice_of []\<rparr> in
     case CopyN q r (p_remainingLength p) of (ok, q', r1) \<Rightarrow>
       if \<not> ok then (Err ErrInvalidProtocol, Clear q', r1)
       else (Ok (), q'\<lparr>p_payload := p_buf q', p_pos := 0\<rparr>, r1))"
  using assms by (simp add: decode_payload_def Let_def)

lemma decode_one_chunk:
  assumes "hdr \<noteq> 0" "body \<noteq> []" "length body \<le> copy_buffer_size"
  shows "\<exists>q. DecodeFromReader newMqttPacket
      ((hdr # remaining_bytes (int (length body)) 0 @ body @ t) # cs) = (Ok (), q, push_chunk t cs) \<and>
    decoded q hdr (int (length body)) body"
proof -
  let ?rl = "int (length body)"
  have rl: "0 < ?rl" "?rl \<le> MQTT_MAX_PAYLOAD" "?rl \<le> int copy_buffer_size"
    using assms by (auto simp: copy_buffer_size_def)
  from decode_header [OF assms(1) rl(1,2), of "body @ t" cs] obtain m s where
    "DecodeFromReader newMqttPacket ((hdr # remaining_bytes ?rl 0 @ body @ t) # cs) =
     decode_payload (lengths_set (newMqttPacket\<lparr>p_command := hdr\<rparr>)
        (- int (length (remaining_bytes ?rl 0))) ?rl m s) ((body @ t) # cs)"
    using assms(2) by auto
  with rl show ?thesis
    by (auto simp: decode_payload_pos CopyN_chunk decoded_def Let_def)
qed

lemma decode_many_chunks:
  assumes "hdr \<noteq> 0" "ds \<noteq> []" "\<forall>d \<in> set ds. d \<noteq> []" "length (concat ds) \<le> copy_buffer_size"
  shows "\<exists>q. DecodeFromReader newMqttPacket
      ((hdr # remaining_bytes (int (length (concat ds))) 0) # ds @ cs) = (Ok (), q, cs) \<and>
    decoded q hdr (int (length (concat ds))) (last ds)"
proof -
  let ?rl = "int (length (concat ds))"
  have "concat ds \<noteq> []" using assms(2,3) by (cases ds) auto
  then have rl: "0 < ?rl" "?rl \<le> MQTT_MAX_PAYLOAD" "nat ?rl \<le> copy_buffer_size"
    using assms by (auto simp: copy_buffer_size_def)
  from decode_header [OF assms(1) rl(1,2), of "[]" "ds @ cs"] obtain m s where
    d: "DecodeFromReader newMqttPacket ((hdr # remaining_bytes ?rl 0) # ds @ cs) =
     decode_payload (lengths_set (newMqttPacket\<lparr>p_command := hdr\<rparr>)
        (- int (length (remaining_bytes ?rl 0))) ?rl m s) (ds @ cs)"
    by auto
  have "\<exists>b. CopyN p (ds @ cs) ?rl = (True, Write p b, cs) \<and> slice_view b = last ds \<and> slice_wf b" for p
    using copy_loop_chunks [OF assms(2,3), of "replicate (length (concat ds)) 0" p cs] rl(3)
    by (auto simp: CopyN_def min_absorb2)
  then obtain b where "CopyN p (ds @ cs) ?rl = (True, Write p (b p), cs)"
      "slice_view (b p) = last ds" "slice_wf (b p)" for p
    by metis
  with rl d show ?thesis
    by (auto simp: decode_payload_pos decoded_def Let_def length_slice_view [symmetric])
qed

lemma CopyN_safe_buf:
  "CopyN p r 1 = (True, q, r1) \<Longrightarrow> \<exists>b. slice_index (p_buf q) 0 = Some b"
  by (auto elim!: CopyN_ok simp: slice_index_def)

lemma CopyN_new: "CopyN newMqttPacket r 1 = (True, q, r1) \<Longrightarrow>
    p_remainingCount q = 0 \<and> p_remainingLength q = 0 \<and> p_remainingMult q = 1"
  by (auto elim!: CopyN_ok simp: newMqttPacket_def)

lemma decode_command_new:
  assumes "decode_command newMqttPacket r = (Ok (), p, r1)"
  shows "p_remainingCount p = 0 \<and> p_remainingLength p = 0 \<and> p_remainingMult p = 1"
proof -
  obtain ok q r2 where "CopyN newMqttPacket r 1 = (ok, q, r2)"
    by (cases "CopyN newMqttPacket r 1")
  moreover have "p_command newMqttPacket = 0" by (simp add: newMqttPacket_def)
  ultimately show ?thesis
    using assms CopyN_new [of r q r2] by (auto simp: decode_command_def split: if_splits option.splits)
qed

lemma CopyN_length: "CopyN p r n = (True, q, r1) \<Longrightarrow> 0 < n \<Longrightarrow> p_remainingLength q = p_remainingLength p"
  by (auto elim!: CopyN_ok)

lemma decode_payload_length:
  "decode_payload p r = (Ok (), q, r') \<Longrightarrow> p_remainingLength q = p_remainingLength p"
  by (auto simp: decode_payload_def Let_def dest!: CopyN_length split: prod.splits if_splits)

lemma decode_command_safe: "fst (decode_command p r) \<noteq> Panic"
  using CopyN_safe_buf [of p r]
  by (auto simp: decode_command_def split: prod.splits option.splits)

lemma decode_payload_safe: "fst (decode_payload p r) \<noteq> Panic"
  by (simp add: decode_payload_def Let_def split: prod.splits)

lemma decode_safe: "fst (DecodeFromReader p r) \<noteq> Panic"
  using decode_command_safe [of p r] decode_length_safe decode_payload_safe
  by (auto simp: DecodeFromReader_def split: prod.splits outcome.splits if_splits)
    (metis fst_conv)+

subsection \<open>Reading a payload\<close>

lemma length_unread: "wf_packet p \<Longrightarrow> int (length (unread p)) = p_remainingLength p - p_pos p"
  by (auto simp: unread_def wf_packet_def length_slice_view)

lemma advance_simps [simp]:
  "p_pos (advance p n) = p_pos p + int n" "p_payload (advance p n) = p_payload p"
  "p_remainingLength (advance p n) = p_remainingLength p" "p_command (advance p n) = p_command p"
  "advance (advance p n) m = advance p (n + m)"
  by (simp_all add: advance_def)

lemma unread_advance: "0 \<le> p_pos p \<Longrightarrow> unread (advance p n) = drop n (unread p)"
  by (simp add: unread_def nat_add_distrib add.commute)

lemma wf_advance: "wf_packet p \<Longrightarrow> n \<le> length (unread p) \<Longrightarrow> wf_packet (advance p n)"
  using length_unread [of p] by (auto simp: wf_packet_def)

lemma wf_pos: "wf_packet p \<Longrightarrow> 0 \<le> p_pos p"
  by (simp add: wf_packet_def)

lemma payload_index:
  assumes "wf_packet p" "i < length (unread p)"
  shows "slice_index (p_payload p) (p_pos p + int i) = Some (unread p ! i)"
proof -
  have "p_pos p + int i < int (slice_len (p_payload p))"
    using assms length_unread [of p] by (simp add: wf_packet_def)
  moreover from this have "nat (p_pos p) \<le> length (slice_view (p_payload p))"
    using assms by (simp add: wf_packet_def length_slice_view)
  ultimately show ?thesis
    using assms by (auto simp: slice_index_def unread_def slice_view_def wf_packet_def nat_add_distrib)
qed

lemma payload_sub:
  assumes "wf_packet p" "n \<le> length (unread p)"
  shows "\<exists>s. slice_sub (p_payload p) (p_pos p) (p_pos p + int n) = Some s \<and>
             slice_view s = take n (unread p)"
proof -
  have "p_pos p + int n \<le> int (slice_len (p_payload p))"
    using assms length_unread [of p] by (simp add: wf_packet_def)
  with assms slice_sub_view [of "p_payload p" "p_pos p" "p_pos p + int n"]
  show ?thesis
    by (auto simp: wf_packet_def unread_def nat_add_distrib)
qed

lemma readByte_spec:
  assumes "wf_packet p"
  shows "readByte p = (case unread p of [] \<Rightarrow> (Err ErrInvalidProtocol, p)
                                      | b # _ \<Rightarrow> (Ok b, advance p 1))"
  using assms length_unread [of p] payload_index [of p 0]
  by (auto simp: readByte_def advance_def split: list.splits)

lemma readBytes_spec:
  assumes "wf_packet p"
  shows "readBytes (int n) p = (if n \<le> length (unread p) then (Ok (take n (unread p)), advance p n)
                                else (Err ErrInvalidProtocol, p))"
  using assms length_unread [of p] payload_sub [of p n]
  by (auto simp: readBytes_def advance_def)

lemma readUint16_spec:
  assumes "wf_packet p"
  shows "readUint16 p = (case unread p of
      m # l # _ \<Rightarrow> (Ok (push_bit 8 (ucast m) + ucast l), advance p 2)
    | _ \<Rightarrow> (Err ErrInvalidProtocol, p))"
  using assms length_unread [of p] payload_index [of p 0] payload_index [of p 1]
  by (auto simp: readUint16_def advance_def Let_def split: list.splits)

lemma readString_spec:
  assumes "wf_packet p"
  shows "readString p = (case unread p of
      m # l # bs \<Rightarrow>
        (let n = unat (push_bit 8 (ucast m) + ucast l :: 16 word) in
         if n \<le> length bs then (Ok (string_of_bytes (take n bs)), advance p (2 + n))
         else (Err ErrInvalidProtocol, advance p 2))
    | _ \<Rightarrow> (Err ErrInvalidProtocol, p))"
proof (cases "\<exists>m l bs. unread p = m # l # bs")
  case False
  then show ?thesis
    using readUint16_spec [OF assms] by (auto simp: readString_def seqM_def split: list.splits)
next
  case True
  then obtain m l bs where u: "unread p = m # l # bs" by auto
  have wf: "wf_packet (advance p 2)" using assms u by (simp add: wf_advance)
  have u2: "unread (advance p 2) = bs" using u wf_pos [OF assms] by (simp add: unread_advance)
  define n where "n = unat (push_bit 8 (ucast m) + ucast l :: 16 word)"
  have n: "uint (push_bit 8 (ucast m) + ucast l :: 16 word) = int n"
    unfolding n_def by simp
  have run: "readUint16 p = (Ok (push_bit 8 (ucast m) + ucast l), advance p 2)"
    using readUint16_spec [OF assms] u by simp
  have len: "int (length bs) = p_remainingLength p - (p_pos p + 2)"
    using length_unread [OF wf] u2 by simp
  show ?thesis
    using payload_sub [OF wf, of n] len u u2 unfolding readString_def seqM_def run
    by (auto simp: Let_def n n_def [symmetric] advance_def)
qed

text \<open>
  The contract the handlers of a session rely on: a read of a well-formed packet does not
  panic, moves the position forward inside the payload and touches nothing else.
\<close>

locale payload_reader =
  fixes rd :: "(mqttPacket, packet_error, 'a) go"
  assumes safe: "wf_packet p \<Longrightarrow> fst (rd p) \<noteq> Panic"
    and moves: "wf_packet p \<Longrightarrow> \<exists>n \<le> length (unread p). snd (rd p) = advance p n"
begin

lemma keeps_wf: "wf_packet p \<Longrightarrow> wf_packet (snd (rd p))"
  using moves [of p] by (auto simp: wf_advance)

lemma keeps_payload: "wf_packet p \<Longrightarrow> p_payload (snd (rd p)) = p_payload p"
  using moves [of p] by auto

lemma consumes: "wf_packet p \<Longrightarrow> \<exists>n. unread (snd (rd p)) = drop n (unread p)"
  using moves [of p] wf_pos [of p] by (auto simp: unread_advance)

end

lemma payload_reader_seqM:
  assumes "payload_reader m" "\<And>a. payload_reader (k a)"
  shows "payload_reader (seqM m k)"
proof (unfold_locales, goal_cases)
  case (1 p)
  with payload_reader.safe [OF assms(1)] payload_reader.keeps_wf [OF assms(1)]
    payload_reader.safe [OF assms(2)]
  show ?case by (fastforce simp: seqM_def split: prod.splits outcome.splits)
next
  case (2 p)
  obtain n where n: "n \<le> length (unread p)" "snd (m p) = advance p n"
    using payload_reader.moves [OF assms(1) 2] by auto
  have wf: "wf_packet (advance p n)" using 2 n by (simp add: wf_advance)
  show ?case
  proof (cases "fst (m p)")
    case (Ok a)
    obtain j where j: "j \<le> length (unread (advance p n))" "snd (k a (advance p n)) = advance p (n + j)"
      using payload_reader.moves [OF assms(2) wf, of a] by auto
    with n Ok have "snd (seqM m k p) = advance p (n + j)" by (cases "m p") (simp add: seqM_def)
    moreover have "n + j \<le> length (unread p)" using j n wf_pos [OF 2] by (simp add: unread_advance)
    ultimately show ?thesis by blast
  qed (use n in \<open>cases "m p"; auto simp: seqM_def\<close>)+
qed

lemma advance_0 [simp]: "advance p 0 = p"
  by (simp add: advance_def)

lemma moved [simp, intro]:
  "\<exists>n\<le>k. p = advance p n" "m \<le> k \<Longrightarrow> \<exists>n\<le>k. advance p m = advance p n"
  by (auto simp: advance_def intro: exI [of _ 0])

interpretation rd_byte: payload_reader readByte
  by unfold_locales (auto simp: readByte_spec split: list.splits)

interpretation rd_uint16: payload_reader readUint16
  by unfold_locales (auto simp: readUint16_spec split: list.splits)

interpretation rd_string: payload_reader readString
  by unfold_locales (auto simp: readString_spec Let_def split: list.splits if_splits)

interpretation rd_bytes: payload_reader "readBytes (int n)" for n
  by unfold_locales (auto simp: readBytes_spec split: if_splits)

subsection \<open>Writing a payload\<close>

lemma assembling_initialize:
  assumes "0 \<le> p_remainingLength p" "p_remainingLength p \<le> MQTT_MAX_PAYLOAD"
  shows "fst (initializePacket p) = Ok ()"
    and "assembling (snd (initializePacket p))
      (header_byte p # remaining_bytes (p_remainingLength p) 0)
      (replicate (nat (p_remainingLength p)) 0)"
proof -
  define rb where "rb = remaining_bytes (p_remainingLength p) 0"
  define len where "len = p_remainingLength p + 1 + int (length rb)"
  have rb: "length rb \<noteq> 5"
    using assms length_remaining_bytes_5_iff [of "p_remainingLength p"] by (simp add: rb_def)
  have len: "1 \<le> len" "nat len = Suc (length rb + nat (p_remainingLength p))"
    using assms by (simp_all add: len_def nat_add_distrib)
  show "fst (initializePacket p) = Ok ()"
    using rb len(1) by (simp add: initializePacket_def Let_def rb_def len_def)
  have "store_from ((replicate (nat len) 0)[0 := header_byte p]) 1 rb =
      header_byte p # rb @ replicate (nat (p_remainingLength p)) 0"
    by (simp add: len(2) store_from_eq)
  with rb len show "assembling (snd (initializePacket p))
      (header_byte p # remaining_bytes (p_remainingLength p) 0)
      (replicate (nat (p_remainingLength p)) 0)"
    using assms by (simp add: assembling_def initializePacket_def Let_def rb_def len_def)
qed

lemma assembling_set:
  assumes "assembling p pre (z # zs)"
  shows "slice_set (p_payload p) (p_pos p) b = Some (slice_of (pre @ b # zs))"
  using assms by (simp add: assembling_def slice_set_def slice_of_def list_update_append)

lemma assembling_next:
  assumes "assembling p pre (z # zs)"
  shows "assembling (p\<lparr>p_payload := slice_of (pre @ b # zs), p_pos := p_pos p + 1\<rparr>) (pre @ [b]) zs"
  using assms by (simp add: assembling_def)

lemma writeByte_assembling:
  assumes "assembling p pre (z # zs)"
  shows "fst (writeByte b p) = Ok ()" "assembling (snd (writeByte b p)) (pre @ [b]) zs"
  using assembling_set [OF assms, of b] assembling_next [OF assms, of b] assms
  by (auto simp: writeByte_def assembling_def)

lemma write_loop_assembling:
  "assembling p pre zs \<Longrightarrow> length bs \<le> length zs \<Longrightarrow>
   fst (write_loop bs p) = Ok () \<and> assembling (snd (write_loop bs p)) (pre @ bs) (drop (length bs) zs)"
proof (induction bs arbitrary: p pre zs)
  case (Cons b bs)
  then obtain z zs' where zs: "zs = z # zs'" by (cases zs) auto
  with Cons.prems have a: "assembling p pre (z # zs')" by simp
  from Cons.IH [OF assembling_next [OF a, of b]] Cons.prems zs
  show ?case by (simp add: assembling_set [OF a])
qed simp

lemma writeBytes_assembling:
  assumes "assembling p pre zs" "length bs \<le> length zs"
  shows "fst (writeBytes bs p) = Ok ()"
    and "assembling (snd (writeBytes bs p)) (pre @ bs) (drop (length bs) zs)"
  using write_loop_assembling [OF assms] assms
  by (auto simp: writeBytes_def assembling_def)

lemma length_nibbles [simp]: "length (nibbles w) = 2"
  by (simp add: nibbles_def)

lemma assembling_Suc: "assembling p pre zs \<Longrightarrow> 2 \<le> length zs \<Longrightarrow> \<exists>a b r. zs = a # b # r"
  by (cases zs; cases "tl zs") auto

lemma writeUint16_assembling:
  assumes "assembling p pre zs" "2 \<le> length zs"
  shows "fst (writeUint16 w p) = Ok ()"
    and "assembling (snd (writeUint16 w p)) (pre @ nibbles w) (drop 2 zs)"
proof -
  obtain a b r where zs: "zs = a # b # r" using assembling_Suc [OF assms] by auto
  let ?m = "ucast (drop_bit 8 w AND 0xF) :: byte"
  let ?l = "ucast (w AND 0xF) :: byte"
  have 1: "assembling p pre (a # b # r)" using assms(1) zs by simp
  note w1 = writeByte_assembling [OF 1, of ?m]
  note w2 = writeByte_assembling [OF w1(2), of ?l]
  have run: "writeUint16 w p = writeByte ?l (snd (writeByte ?m p))"
    using w1(1) by (cases "writeByte ?m p") (simp add: writeUint16_def Let_def seqM_def)
  show "fst (writeUint16 w p) = Ok ()"
    and "assembling (snd (writeUint16 w p)) (pre @ nibbles w) (drop 2 zs)"
    using w2 by (simp_all add: run zs nibbles_def)
qed

lemma writeString_assembling:
  assumes "assembling p pre zs" "2 + length s \<le> length zs"
  shows "fst (writeString s p) = Ok ()"
    and "assembling (snd (writeString s p))
      (pre @ nibbles (word_of_nat (length s)) @ bytes_of_string s) (drop (2 + length s) zs)"
proof -
  let ?w = "word_of_nat (length s)"
  have 2: "2 \<le> length zs" using assms(2) by simp
  note w1 = writeUint16_assembling [OF assms(1) 2, of ?w]
  have len: "length (bytes_of_string s) \<le> length (drop 2 zs)" using assms(2) by simp
  note w2 = writeBytes_assembling [OF w1(2) len]
  have run: "writeString s p = writeBytes (bytes_of_string s) (snd (writeUint16 ?w p))"
    using w1(1) by (cases "writeUint16 ?w p") (simp add: writeString_def seqM_def)
  show "fst (writeString s p) = Ok ()"
    and "assembling (snd (writeString s p))
      (pre @ nibbles ?w @ bytes_of_string s) (drop (2 + length s) zs)"
    using w2 by (simp_all add: run add.commute)
qed

text \<open>Reading two masked bytes back keeps the low four bits of each byte only.\<close>

lemma nibbles_exact: "w AND 0x0F0F = w \<longleftrightarrow> w AND 0xF0F0 = (0 :: 16 word)"
proof -
  have "(w AND 0x0F0F) OR (w AND 0xF0F0) = w AND (0x0F0F OR 0xF0F0)"
    by (simp only: bit.conj_disj_distrib)
  also have "0x0F0F OR 0xF0F0 = (- 1 :: 16 word)" by simp
  finally have w: "(w AND 0x0F0F) OR (w AND 0xF0F0) = w" by simp
  show ?thesis
  proof
    assume "w AND 0x0F0F = w"
    then have "w AND 0xF0F0 = w AND (0x0F0F AND 0xF0F0)" by (metis and.assoc)
    then show "w AND 0xF0F0 = 0" by simp
  qed (use w in simp)
qed

lemma nibble_masks: "(0xF :: 16 word) = mask 4" "(0x0F0F :: 16 word) = mask 4 OR push_bit 8 (mask 4)"
  by (simp_all add: mask_eq_exp_minus_1)

lemma nibbles_value:
  "push_bit 8 (ucast (ucast (drop_bit 8 w AND 0xF) :: byte)) + ucast (ucast (w AND 0xF) :: byte) =
   (w AND 0x0F0F :: 16 word)" (is "?a + ?b = _")
proof -
  have "?a AND ?b = 0"
    unfolding nibble_masks by (rule bit_word_eqI) (auto simp: bit_simps)
  then have "?a + ?b = ?a OR ?b" by (rule disjunctive_add_eq_or)
  also have "\<dots> = w AND 0x0F0F"
    unfolding nibble_masks by (rule bit_word_eqI) (auto simp: bit_simps)
  finally show ?thesis .
qed

subsection \<open>Properties\<close>

text \<open>C36. A packet assembled by \<^const>\<open>initializePacket\<close> and \<^const>\<open>writeBytes\<close>, sent
  and received in one read, decodes to its header byte and its body, and the decoder leaves the
  bytes that follow it on the connection.\<close>

theorem packet_roundtrip:
  assumes "header_byte p \<noteq> 0" "body \<noteq> []" "length body \<le> copy_buffer_size"
    and "p_remainingLength p = int (length body)"
  shows "\<exists>q. DecodeFromReader newMqttPacket
      ((slice_view (p_payload (snd (writeBytes body (snd (initializePacket p))))) @ t) # cs) =
      (Ok (), q, push_chunk t cs) \<and>
    p_command q = header_byte p \<and> slice_view (p_payload q) = body \<and> wf_packet q"
proof -
  have "0 \<le> p_remainingLength p" "p_remainingLength p \<le> MQTT_MAX_PAYLOAD"
    using assms by (auto simp: copy_buffer_size_def)
  from assembling_initialize(2) [OF this]
  have "assembling (snd (writeBytes body (snd (initializePacket p))))
      ((header_byte p # remaining_bytes (int (length body)) 0) @ body) []"
    using writeBytes_assembling(2) [of "snd (initializePacket p)"
        "header_byte p # remaining_bytes (int (length body)) 0" "replicate (length body) 0" body]
    by (simp add: assms(4))
  then have "slice_view (p_payload (snd (writeBytes body (snd (initializePacket p))))) @ t =
      header_byte p # remaining_bytes (int (length body)) 0 @ body @ t"
    by (simp add: assembling_def)
  with decode_one_chunk [OF assms(1,2,3), of t cs] show ?thesis
    by (auto simp: decoded_def wf_packet_def)
qed

theorem packet_roundtrip_witness:
  "\<exists>q. DecodeFromReader newMqttPacket
      ((slice_view (p_payload (snd (writeBytes [7, 8, 9] (snd (initializePacket sample_packet))))) @ [0xC0]) # []) =
      (Ok (), q, push_chunk [0xC0] []) \<and>
    p_command q = header_byte sample_packet \<and> slice_view (p_payload q) = [7, 8, 9] \<and> wf_packet q"
  by (rule packet_roundtrip)
    (simp_all add: sample_packet_def newMqttPacket_def header_byte_def copy_buffer_size_def)

text \<open>The decoder never panics, whatever the packet holds and however the bytes arrive.\<close>

theorem decode_never_panics: "fst (DecodeFromReader p r) \<noteq> Panic"
  by (rule decode_safe)

text \<open>A payload that arrives in several reads is accepted, but only its last chunk is
  kept: the payload is shorter than the remaining length the packet announces.\<close>

theorem decode_keeps_last_chunk:
  assumes "hdr \<noteq> 0" "ds \<noteq> []" "\<forall>d \<in> set ds. d \<noteq> []" "length (concat ds) \<le> copy_buffer_size"
  shows "\<exists>q. DecodeFromReader newMqttPacket
      ((hdr # remaining_bytes (int (length (concat ds))) 0) # ds @ cs) = (Ok (), q, cs) \<and>
    p_remainingLength q = int (length (concat ds)) \<and> slice_view (p_payload q) = last ds"
  using decode_many_chunks [OF assms] by (auto simp: decoded_def)

theorem decode_keeps_last_chunk_witness:
  "\<exists>q. DecodeFromReader newMqttPacket
      ((0x30 # remaining_bytes (int (length (concat [[1 :: byte, 2], [3]]))) 0) # [[1, 2], [3]] @ []) = (Ok (), q, []) \<and>
    p_remainingLength q = int (length (concat [[1 :: byte, 2], [3]])) \<and>
    slice_view (p_payload q) = last [[1, 2], [3]]"
  by (rule decode_keeps_last_chunk) (simp_all add: copy_buffer_size_def)

text \<open>The remaining length a decoded packet announces is between 0 and the protocol's
  maximum of 268435455, however the bytes arrive.\<close>

theorem decode_remaining_length_bounds:
  assumes "DecodeFromReader newMqttPacket r = (Ok (), q, r')"
  shows "0 \<le> p_remainingLength q \<and> p_remainingLength q \<le> MQTT_MAX_PAYLOAD"
proof -
  from assms obtain p1 r1 p2 r2 where
    cmd: "decode_command newMqttPacket r = (Ok (), p1, r1)" and
    len: "(if p_remainingCount p1 \<le> 0 then decode_length p1 r1 else (Ok (), p1, r1)) = (Ok (), p2, r2)" and
    body: "decode_payload p2 r2 = (Ok (), q, r')"
    by (auto simp: DecodeFromReader_def split: prod.splits outcome.splits)
  have "length_inv p1" "p_remainingCount p1 = 0"
    using decode_command_new [OF cmd] by (simp_all add: length_inv_def)
  with len decode_length_bounds [of p1 r1 p2 r2] have "length_inv p2" by simp
  then have "p_remainingMult p2 \<le> 128 ^ 4"
    using power_increasing [of "nat (- p_remainingCount p2)" 4 "128 :: int"]
    by (simp add: length_inv_def nat_le_iff)
  with \<open>length_inv p2\<close> have "0 \<le> p_remainingLength p2" "p_remainingLength p2 < 128 ^ 4"
    by (auto simp: length_inv_def)
  then show ?thesis using decode_payload_length [OF body] by simp
qed

theorem decode_remaining_length_bounds_witness:
  "0 \<le> p_remainingLength (fst (snd (DecodeFromReader newMqttPacket [[0xC0, 0]]))) \<and>
   p_remainingLength (fst (snd (DecodeFromReader newMqttPacket [[0xC0, 0]]))) \<le> MQTT_MAX_PAYLOAD"
proof -
  have "fst (DecodeFromReader newMqttPacket [[0xC0, 0]]) = Ok ()"
    by (simp add: DecodeFromReader_def decode_command_def newMqttPacket_def
        decode_length_byte [OF CopyN_byte slice_index_byte] decode_payload_def turn_def
        length_digit_def Write_def)
  then show ?thesis
    using decode_remaining_length_bounds [of "[[0xC0, 0]]"]
    by (cases "DecodeFromReader newMqttPacket [[0xC0, 0]]") auto
qed

text \<open>Assembling refuses exactly the packets whose remaining length is above the
  protocol's maximum.\<close>

theorem initializePacket_refuses:
  "fst (initializePacket p) = Err ErrPayloadSize \<longleftrightarrow> MQTT_MAX_PAYLOAD < p_remainingLength p"
  using length_remaining_bytes_5_iff [of "p_remainingLength p"]
  by (simp add: initializePacket_def Let_def)

text \<open>A packet with nothing after its header is assembled without its length byte: one
  byte instead of two.\<close>

theorem initializePacket_empty:
  "p_remainingLength p = 0 \<Longrightarrow> slice_view (p_payload (snd (initializePacket p))) = [header_byte p]"
  using assembling_initialize(2) [of p] by (simp add: assembling_def)

theorem initializePacket_empty_witness:
  "p_remainingLength newMqttPacket = 0 \<and>
   slice_view (p_payload (snd (initializePacket newMqttPacket))) = [header_byte newMqttPacket]"
  using initializePacket_empty [of newMqttPacket] by (simp add: newMqttPacket_def)

lemma payload_packet_wf [simp]:
  "wf_packet (payload_packet bs)" "unread (payload_packet bs) = bs"
  by (simp_all add: payload_packet_def wf_packet_def unread_def newMqttPacket_def)

lemma written_assembling:
  "assembling p pre zs \<Longrightarrow> assembling q (pre @ bs) zs' \<Longrightarrow> written p q = bs"
  by (simp add: assembling_def written_def)

text \<open>A 16-bit number written by \<^const>\<open>writeUint16\<close> is read back by
  \<^const>\<open>readUint16\<close> with all but the low four bits of each byte lost.\<close>

theorem uint16_roundtrip:
  assumes "assembling p pre zs" "2 \<le> length zs"
  shows "fst (readUint16 (payload_packet (written p (snd (writeUint16 w p))))) = Ok (w AND 0x0F0F)"
  using written_assembling [OF assms(1) writeUint16_assembling(2) [OF assms]] nibbles_value [of w]
  by (simp add: readUint16_spec nibbles_def)

lemma assembling_new: "assembling (newMqttPacket\<lparr>p_length := int n, p_payload := slice_of (replicate n 0)\<rparr>) [] (replicate n 0)"
  by (simp add: assembling_def newMqttPacket_def)

theorem uint16_roundtrip_witness:
  "fst (readUint16 (payload_packet (written (newMqttPacket\<lparr>p_length := int 2, p_payload := slice_of (replicate 2 0)\<rparr>)
     (snd (writeUint16 0x1234 (newMqttPacket\<lparr>p_length := int 2, p_payload := slice_of (replicate 2 0)\<rparr>)))))) =
   Ok (0x1234 AND 0x0F0F)"
  by (rule uint16_roundtrip [OF assembling_new]) simp

lemma nibbles_le: "unat (w AND 0x0F0F :: 16 word) \<le> unat w"
  using word_and_le2 [of w "0x0F0F"] by (simp add: word_le_nat_alt)

lemma take_bytes_of_string: "take n (bytes_of_string s) = bytes_of_string (take n s)"
  by (simp add: bytes_of_string_def take_map)

text \<open>A string written by \<^const>\<open>writeString\<close> is read back whole exactly when each byte
  of its length fits four bits; otherwise a proper prefix comes back.\<close>

theorem string_roundtrip:
  assumes "assembling p pre zs" "2 + length s \<le> length zs" "length s < 65536"
  shows "fst (readString (payload_packet (written p (snd (writeString s p))))) =
    Ok (take (unat ((word_of_nat (length s) :: 16 word) AND 0x0F0F)) s)"
proof -
  let ?w = "word_of_nat (length s) :: 16 word"
  have "unat ?w = length s" using assms(3) by (simp add: unat_of_nat)
  with nibbles_le [of ?w] have "unat (?w AND 0x0F0F) \<le> length s" by simp
  moreover have "written p (snd (writeString s p)) = nibbles ?w @ bytes_of_string s"
    by (rule written_assembling [OF assms(1) writeString_assembling(2) [OF assms(1,2)]])
  ultimately show ?thesis
    using nibbles_value [of ?w] by (simp add: readString_spec nibbles_def take_bytes_of_string Let_def)
qed

theorem string_roundtrip_witness:
  "fst (readString (payload_packet (written (newMqttPacket\<lparr>p_length := int 20, p_payload := slice_of (replicate 20 0)\<rparr>)
     (snd (writeString ''sensors/room/t01'' (newMqttPacket\<lparr>p_length := int 20, p_payload := slice_of (replicate 20 0)\<rparr>)))))) =
   Ok (take (unat ((word_of_nat (length ''sensors/room/t01'') :: 16 word) AND 0x0F0F)) ''sensors/room/t01'')"
  by (rule string_roundtrip [OF assembling_new]) simp_all

end
