(* ===== verification/Eap_Queue.thy ===== *)
theory Eap_Queue
  imports Sentel_Prelude
begin

text \<open>
  The ring buffer of \<^verbatim>\<open>src/vendor/github.com/eapache/queue/queue.go\<close> on which the
  broker's queues are built: a power-of-two buffer addressed with a bit mask, doubled when it
  is full and halved when it is a quarter full. It is shown to implement the \<open>fifo\<close> interface,
  whose clients see a list.
\<close>

unbundle bit_operations_syntax

subsection \<open>The ring buffer\<close>

record 'a eap_queue =
  eq_buf :: "'a option list"
  eq_head :: nat
  eq_tail :: nat
  eq_count :: nat

definition minQueueLen :: nat where "minQueueLen = 16"

definition eap_New :: "'a eap_queue" where
  "eap_New = \<lparr>eq_buf = replicate minQueueLen None, eq_head = 0, eq_tail = 0, eq_count = 0\<rparr>"

definition eap_Length :: "'a eap_queue \<Rightarrow> nat" where
  "eap_Length q = eq_count q"

text \<open>The built-in \<^verbatim>\<open>copy\<close>.\<close>

definition go_copy :: "'b list \<Rightarrow> 'b list \<Rightarrow> 'b list" where
  "go_copy dst src = take (length dst) src @ drop (length src) dst"

definition eap_resize :: "'a eap_queue \<Rightarrow> 'a eap_queue" where
  "eap_resize q =
     (let newBuf = replicate (eq_count q * 2) None;
          newBuf' =
            (if eq_tail q > eq_head q
             then go_copy newBuf (drop (eq_head q) (take (eq_tail q) (eq_buf q)))
             else
               let front = drop (eq_head q) (eq_buf q);
                   n = min (length newBuf) (length front);
                   b1 = go_copy newBuf front in
               take n b1 @ go_copy (drop n b1) (take (eq_tail q) (eq_buf q))) in
      q\<lparr>eq_head := 0, eq_tail := eq_count q, eq_buf := newBuf'\<rparr>)"

definition eap_Add :: "'a \<Rightarrow> ('a eap_queue, unit, unit) go" where
  "eap_Add elem q =
     (let q1 = (if eq_count q = length (eq_buf q) then eap_resize q else q) in
      if eq_tail q1 < length (eq_buf q1)
      then (Ok (), q1\<lparr>eq_buf := (eq_buf q1)[eq_tail q1 := Some elem],
                       eq_tail := (eq_tail q1 + 1) AND (length (eq_buf q1) - 1),
                       eq_count := eq_count q1 + 1\<rparr>)
      else (Panic, q1))"

definition eap_Peek :: "'a eap_queue \<Rightarrow> (unit, 'a option) outcome" where
  "eap_Peek q =
     (if eq_count q = 0 then Panic
      else if eq_head q < length (eq_buf q) then Ok (eq_buf q ! eq_head q) else Panic)"

definition eap_Get :: "int \<Rightarrow> 'a eap_queue \<Rightarrow> (unit, 'a option) outcome" where
  "eap_Get i q =
     (let i' = (if i < 0 then i + int (eq_count q) else i) in
      if i' < 0 \<or> i' \<ge> int (eq_count q) then Panic
      else
        let j = (eq_head q + nat i') AND (length (eq_buf q) - 1) in
        if j < length (eq_buf q) then Ok (eq_buf q ! j) else Panic)"

definition eap_Remove :: "('a eap_queue, unit, 'a option) go" where
  "eap_Remove q =
     (if eq_count q = 0 then (Panic, q)
      else if eq_head q < length (eq_buf q) then
        let ret = eq_buf q ! eq_head q;
            q1 = q\<lparr>eq_buf := (eq_buf q)[eq_head q := None],
                   eq_head := (eq_head q + 1) AND (length (eq_buf q) - 1),
                   eq_count := eq_count q - 1\<rparr>;
            q2 = (if length (eq_buf q1) > minQueueLen \<and> eq_count q1 * 4 = length (eq_buf q1)
                  then eap_resize q1 else q1) in
        (Ok ret, q2)
      else (Panic, q))"

subsection \<open>The interface\<close>

text \<open>
  What a client of a queue may rely on, over the list of its elements from head to tail.
\<close>

locale fifo =
  fixes new :: 'q
    and len :: "'q \<Rightarrow> nat"
    and add :: "'a \<Rightarrow> ('q, 'e, unit) go"
    and peek :: "'q \<Rightarrow> ('e, 'a option) outcome"
    and remove :: "('q, 'e, 'a option) go"
    and elems :: "'q \<Rightarrow> 'a list"
    and inv :: "'q \<Rightarrow> bool"
  assumes inv_new: "inv new"
    and elems_new: "elems new = []"
    and len_elems: "inv q \<Longrightarrow> len q = length (elems q)"
    and add_ok: "inv q \<Longrightarrow> fst (add x q) = Ok ()"
    and inv_add: "inv q \<Longrightarrow> inv (snd (add x q))"
    and elems_add: "inv q \<Longrightarrow> elems (snd (add x q)) = elems q @ [x]"
    and peek_elems: "inv q \<Longrightarrow> peek q = (case elems q of [] \<Rightarrow> Panic | x # _ \<Rightarrow> Ok (Some x))"
    and remove_elems: "inv q \<Longrightarrow> fst (remove q) = (case elems q of [] \<Rightarrow> Panic | x # _ \<Rightarrow> Ok (Some x))"
    and inv_remove: "inv q \<Longrightarrow> inv (snd (remove q))"
    and elems_remove: "inv q \<Longrightarrow> elems (snd (remove q)) = tl (elems q)"
begin

lemma add_many:
  "inv q \<Longrightarrow> inv (foldl (\<lambda>q x. snd (add x q)) q xs) \<and>
             elems (foldl (\<lambda>q x. snd (add x q)) q xs) = elems q @ xs"
  by (induction xs arbitrary: q) (auto simp: inv_add elems_add)

lemma remove_many:
  "inv q \<Longrightarrow> inv (((\<lambda>q. snd (remove q)) ^^ n) q) \<and>
             elems (((\<lambda>q. snd (remove q)) ^^ n) q) = drop n (elems q)"
  by (induction n) (auto simp: inv_remove elems_remove drop_Suc tl_drop)

lemma in_order:
  assumes "n < length xs"
  shows "fst (remove (((\<lambda>q. snd (remove q)) ^^ n) (foldl (\<lambda>q x. snd (add x q)) new xs))) = Ok (Some (xs ! n))"
proof -
  let ?q = "((\<lambda>q. snd (remove q)) ^^ n) (foldl (\<lambda>q x. snd (add x q)) new xs)"
  have "inv ?q" "elems ?q = drop n xs"
    using add_many [OF inv_new, of xs] remove_many [of "foldl (\<lambda>q x. snd (add x q)) new xs" n]
    by (auto simp: elems_new)
  moreover have "drop n xs = xs ! n # drop (Suc n) xs"
    using assms by (rule Cons_nth_drop_Suc [symmetric])
  ultimately show ?thesis by (simp add: remove_elems)
qed

lemma never_panics_nonempty: "inv q \<Longrightarrow> len q \<noteq> 0 \<Longrightarrow> peek q \<noteq> Panic \<and> fst (remove q) \<noteq> Panic"
  by (auto simp: len_elems peek_elems remove_elems split: list.splits)

end

subsection \<open>The ring buffer implements it\<close>

definition eap_inv :: "'a eap_queue \<Rightarrow> bool" where
  "eap_inv q \<longleftrightarrow> (\<exists>k \<ge> 4. length (eq_buf q) = 2 ^ k) \<and> eq_count q \<le> length (eq_buf q) \<and>
     eq_head q < length (eq_buf q) \<and>
     eq_tail q = (eq_head q + eq_count q) mod length (eq_buf q) \<and>
     (\<forall>i < eq_count q. eq_buf q ! ((eq_head q + i) mod length (eq_buf q)) \<noteq> None)"

definition eap_elems :: "'a eap_queue \<Rightarrow> 'a list" where
  "eap_elems q = map (\<lambda>i. the (eq_buf q ! ((eq_head q + i) mod length (eq_buf q)))) [0..<eq_count q]"

lemma mask_mod: "k \<ge> 1 \<Longrightarrow> (n AND (2 ^ k - 1) :: nat) = n mod 2 ^ k"
  by (simp add: take_bit_eq_mod [symmetric] take_bit_eq_mask mask_eq_exp_minus_1)

lemma eap_mask: "eap_inv q \<Longrightarrow> n AND (length (eq_buf q) - 1) = n mod length (eq_buf q)"
  by (auto simp: eap_inv_def mask_mod simp del: One_nat_def)

text \<open>The elements, still with the slots they occupy.\<close>

definition eap_slots :: "'a eap_queue \<Rightarrow> 'a option list" where
  "eap_slots q = map (\<lambda>i. eq_buf q ! ((eq_head q + i) mod length (eq_buf q))) [0..<eq_count q]"

lemma eap_slots_elems: "eap_inv q \<Longrightarrow> eap_slots q = map Some (eap_elems q)"
  by (auto simp: eap_slots_def eap_elems_def eap_inv_def)

lemma length_eap [simp]: "length (eap_slots q) = eq_count q" "length (eap_elems q) = eq_count q"
  by (simp_all add: eap_slots_def eap_elems_def)

lemma ring_slots:
  assumes "h < length b" "c \<le> length b" "0 < c"
  shows "map (\<lambda>i. b ! ((h + i) mod length b)) [0..<c] =
    (let t = (h + c) mod length b in
     if t > h then drop h (take t b) else drop h b @ take t b)"
proof (cases "h + c < length b")
  case True
  then have "map (\<lambda>i. b ! ((h + i) mod length b)) [0..<c] = take c (drop h b)"
    using assms by (intro nth_equalityI) auto
  with True assms show ?thesis by (simp add: Let_def drop_take)
next
  case False
  define t where "t = h + c - length b"
  have t: "(h + c) mod length b = t" "t \<le> h" "t \<le> length b"
    using False assms by (auto simp: t_def le_mod_geq)
  have "map (\<lambda>i. b ! ((h + i) mod length b)) [0..<c] = drop h b @ take t b"
  proof (rule nth_equalityI)
    show "length (map (\<lambda>i. b ! ((h + i) mod length b)) [0..<c]) = length (drop h b @ take t b)"
      using False assms t by (auto simp: t_def)
    fix i assume "i < length (map (\<lambda>i. b ! ((h + i) mod length b)) [0..<c])"
    then have "i < c" by simp
    then show "map (\<lambda>i. b ! ((h + i) mod length b)) [0..<c] ! i = (drop h b @ take t b) ! i"
      using False assms t by (cases "h + i < length b") (auto simp: nth_append t_def le_mod_geq add.commute)
  qed
  with t show ?thesis by (simp add: Let_def)
qed

lemma go_copy_short: "length src \<le> length dst \<Longrightarrow> go_copy dst src = src @ drop (length src) dst"
  by (simp add: go_copy_def)

lemma eap_resize_buf:
  assumes "eap_inv q" "0 < eq_count q"
  shows "eq_buf (eap_resize q) = eap_slots q @ replicate (eq_count q) None"
proof -
  define b h c t where "b = eq_buf q" and "h = eq_head q" and "c = eq_count q" and "t = eq_tail q"
  have inv: "h < length b" "c \<le> length b" "t = (h + c) mod length b" "0 < c"
    using assms by (auto simp: eap_inv_def b_def h_def c_def t_def)
  have slots: "eap_slots q = (if t > h then drop h (take t b) else drop h b @ take t b)"
    using ring_slots [OF inv(1,2,4)] inv(3) by (simp add: eap_slots_def b_def h_def c_def Let_def)
  have len: "length (eap_slots q) = c" by (simp add: c_def)
  show ?thesis
  proof (cases "t > h")
    case True
    then have "eap_slots q = drop h (take t b)" using slots by simp
    with len True show ?thesis
      by (simp add: eap_resize_def Let_def go_copy_short flip: b_def h_def c_def t_def)
  next
    case False
    then have s: "eap_slots q = drop h b @ take t b" using slots by simp
    with len have "length (drop h b) + length (take t b) = c" by (metis length_append)
    with False s show ?thesis
      by (simp add: eap_resize_def Let_def go_copy_short flip: b_def h_def c_def t_def)
  qed
qed

lemma ring_inj:
  assumes "(h + i) mod n = (h + j) mod n" "i < n" "j < n"
  shows "i = (j :: nat)"
proof -
  have "(int h + int i) mod int n = (int h + int j) mod int n"
    using assms(1) by (metis of_nat_add of_nat_mod)
  then have "int i mod int n = int j mod int n"
    by (metis add_diff_cancel_left' mod_diff_left_eq)
  with assms(2,3) show ?thesis by simp
qed

lemma eap_elems_slots: "eap_elems q = map the (eap_slots q)"
  by (simp add: eap_elems_def eap_slots_def)

lemma eap_resize_inv:
  assumes "eap_inv q" "k \<ge> 4" "2 * eq_count q = 2 ^ k"
  shows "eap_inv (eap_resize q)" "eap_elems (eap_resize q) = eap_elems q"
    "eq_count (eap_resize q) = eq_count q" "length (eq_buf (eap_resize q)) = 2 * eq_count q"
proof -
  have c: "0 < eq_count q" using assms(3) by (cases "eq_count q") auto
  have f: "eq_head (eap_resize q) = 0" "eq_tail (eap_resize q) = eq_count q"
    "eq_count (eap_resize q) = eq_count q"
    by (simp_all add: eap_resize_def Let_def)
  note b = eap_resize_buf [OF assms(1) c]
  have n: "eq_buf (eap_resize q) ! i = eap_slots q ! i" if "i < eq_count q" for i
    using that by (simp add: b nth_append)
  show len: "length (eq_buf (eap_resize q)) = 2 * eq_count q" by (simp add: b)
  show "eq_count (eap_resize q) = eq_count q" by (rule f(3))
  show "eap_elems (eap_resize q) = eap_elems q"
    using n by (simp add: eap_elems_slots) (simp add: eap_slots_def [of "eap_resize q"] f len
        list_eq_iff_nth_eq)
  have "\<forall>i < eq_count q. eap_slots q ! i \<noteq> None"
    using assms(1) by (simp add: eap_slots_elems)
  then show "eap_inv (eap_resize q)"
    using assms(2,3) c n by (auto simp: eap_inv_def f len)
qed

lemma eap_New_inv: "eap_inv eap_New" "eap_elems eap_New = []"
proof -
  have "length (replicate minQueueLen None) = 2 ^ 4" by (simp add: minQueueLen_def)
  then show "eap_inv (eap_New :: 'a eap_queue)"
    by (auto simp: eap_inv_def eap_New_def minQueueLen_def intro!: exI [of _ 4])
qed (simp add: eap_elems_def eap_New_def)

text \<open>Adding to a buffer that has room, and to a full one.\<close>

definition eap_put :: "'a \<Rightarrow> 'a eap_queue \<Rightarrow> 'a eap_queue" where
  "eap_put x q = q\<lparr>eq_buf := (eq_buf q)[eq_tail q := Some x],
     eq_tail := (eq_tail q + 1) AND (length (eq_buf q) - 1), eq_count := eq_count q + 1\<rparr>"

lemma eap_put_inv:
  assumes inv: "eap_inv q" and room: "eq_count q < length (eq_buf q)"
  shows "eap_inv (eap_put x q)" "eap_elems (eap_put x q) = eap_elems q @ [x]"
proof -
  let ?n = "length (eq_buf q)"
  define at where "at i = (eq_head q + i) mod ?n" for i
  have tail: "eq_tail q = at (eq_count q)" "eq_tail q < ?n"
    using inv by (auto simp: eap_inv_def at_def)
  have ne: "at i \<noteq> eq_tail q" if "i < eq_count q" for i
    using ring_inj [of "eq_head q" i ?n "eq_count q"] that room tail by (auto simp: at_def)
  have nth: "eq_buf (eap_put x q) ! at i = (if i = eq_count q then Some x else eq_buf q ! at i)"
    if "i \<le> eq_count q" for i
    using that ne [of i] tail by (auto simp: eap_put_def)
  have f: "length (eq_buf (eap_put x q)) = ?n" "eq_head (eap_put x q) = eq_head q"
    "eq_count (eap_put x q) = Suc (eq_count q)"
    "eq_tail (eap_put x q) = at (Suc (eq_count q))"
    using tail(1) eap_mask [OF inv] by (simp_all add: eap_put_def at_def mod_simps)
  show "eap_elems (eap_put x q) = eap_elems q @ [x]"
    using nth by (simp add: eap_elems_def f flip: at_def)
  have "\<forall>i < Suc (eq_count q). eq_buf (eap_put x q) ! at i \<noteq> None"
    using nth inv by (auto simp: less_Suc_eq_le eap_inv_def simp flip: at_def)
  then show "eap_inv (eap_put x q)"
    using inv room by (auto simp: eap_inv_def f at_def)
qed

lemma eap_Add_eq:
  assumes "eap_inv q"
  defines "q1 \<equiv> if eq_count q = length (eq_buf q) then eap_resize q else q"
  shows "eap_Add x q = (Ok (), eap_put x q1)" "eap_inv q1" "eap_elems q1 = eap_elems q"
    "eq_count q1 < length (eq_buf q1)"
proof -
  obtain k where k: "k \<ge> 4" "length (eq_buf q) = 2 ^ k" "eq_count q \<le> length (eq_buf q)"
    using assms(1) by (auto simp: eap_inv_def)
  show inv: "eap_inv q1" and "eap_elems q1 = eap_elems q"
    and room: "eq_count q1 < length (eq_buf q1)"
    using eap_resize_inv [OF assms(1), of "Suc k"] k assms(1) by (auto simp: q1_def)
  have "eq_tail q1 < length (eq_buf q1)" using inv room by (auto simp: eap_inv_def)
  then show "eap_Add x q = (Ok (), eap_put x q1)"
    by (simp add: eap_Add_def Let_def eap_put_def flip: q1_def)
qed

lemma eap_Remove_inv:
  assumes inv: "eap_inv q" and ne: "0 < eq_count q"
  shows "fst (eap_Remove q) = Ok (Some (hd (eap_elems q)))"
    "eap_inv (snd (eap_Remove q))" "eap_elems (snd (eap_Remove q)) = tl (eap_elems q)"
proof -
  let ?n = "length (eq_buf q)"
  define q1 where "q1 = q\<lparr>eq_buf := (eq_buf q)[eq_head q := None],
     eq_head := (eq_head q + 1) AND (?n - 1), eq_count := eq_count q - 1\<rparr>"
  define at where "at i = (eq_head q + i) mod ?n" for i
  have h: "eq_head q < ?n" "at 0 = eq_head q" "eq_count q \<le> ?n"
    using inv by (auto simp: eap_inv_def at_def)
  have "eq_buf q \<noteq> []" using h(1) by auto
  then have ne0: "at (Suc i) \<noteq> eq_head q" if "Suc i < eq_count q" for i
    using ring_inj [of "eq_head q" "Suc i" ?n 0] that h by (auto simp: at_def)
  have f: "length (eq_buf q1) = ?n" "eq_head q1 = at 1" "eq_count q1 = eq_count q - 1"
    "eq_tail q1 = eq_tail q"
    using eap_mask [OF inv] by (simp_all add: q1_def at_def)
  have at1: "(eq_head q1 + i) mod ?n = at (Suc i)" for i
    by (simp add: f at_def mod_simps)
  have nth: "eq_buf q1 ! at (Suc i) = eq_buf q ! at (Suc i)" if "i < eq_count q - 1" for i
  proof -
    from that have "Suc i < eq_count q" by simp
    from ne0 [OF this] have "eq_head q \<noteq> at (Suc i)" by simp
    then show ?thesis by (simp add: q1_def)
  qed
  have "eap_elems q1 = map (\<lambda>i. the (eq_buf q1 ! at (Suc i))) [0..<eq_count q - 1]"
    unfolding eap_elems_def f(1,3) at1 ..
  moreover have "tl (eap_elems q) = map (\<lambda>i. the (eq_buf q ! at (Suc i))) [0..<eq_count q - 1]"
    using ne by (cases "eq_count q") (simp_all add: eap_elems_def at_def map_upt_Suc del: upt_Suc)
  ultimately have 1: "eap_elems q1 = tl (eap_elems q)" using nth by simp
  have "\<forall>i < eq_count q1. eq_buf q1 ! ((eq_head q1 + i) mod ?n) \<noteq> None"
  proof (intro allI impI)
    fix i assume "i < eq_count q1"
    then have "i < eq_count q - 1" "Suc i < eq_count q" by (simp_all add: f)
    moreover have "eq_buf q ! at (Suc i) \<noteq> None"
      using inv \<open>Suc i < eq_count q\<close> unfolding eap_inv_def at_def by blast
    ultimately show "eq_buf q1 ! ((eq_head q1 + i) mod ?n) \<noteq> None"
      unfolding at1 using nth by simp
  qed
  moreover have "eq_tail q1 = (eq_head q1 + eq_count q1) mod ?n"
    using inv ne unfolding at1 f(3,4) by (simp add: eap_inv_def at_def)
  moreover have "eq_head q1 < ?n" "eq_count q1 \<le> ?n"
    using h \<open>eq_buf q \<noteq> []\<close> by (auto simp: f at_def)
  ultimately have 2: "eap_inv q1"
    using inv unfolding eap_inv_def by (simp add: f(1))
  have hd: "hd (eap_elems q) = the (eq_buf q ! eq_head q)" "eq_buf q ! eq_head q \<noteq> None"
    using ne inv h(2) by (auto simp: eap_elems_def hd_map at_def eap_inv_def)
  define shrink where "shrink \<longleftrightarrow> minQueueLen < ?n \<and> eq_count q1 * 4 = ?n"
  have run: "eap_Remove q = (Ok (eq_buf q ! eq_head q), if shrink then eap_resize q1 else q1)"
    using ne h(1) by (simp add: eap_Remove_def Let_def shrink_def q1_def)
  then show "fst (eap_Remove q) = Ok (Some (hd (eap_elems q)))" using hd by simp
  have "\<exists>k \<ge> 4. 2 * eq_count q1 = 2 ^ k" if shrink
  proof -
    obtain k where k: "?n = 2 ^ k" using inv by (auto simp: eap_inv_def)
    with that have "2 ^ 4 < (2 :: nat) ^ k" by (simp add: shrink_def minQueueLen_def)
    then have "4 < k" by (rule power_less_imp_less_exp [rotated]) simp
    then obtain j where "k = Suc j" "4 \<le> j" by (cases k) auto
    with that k show ?thesis by (auto simp: shrink_def)
  qed
  with eap_resize_inv [OF 2] 1 2
  show "eap_inv (snd (eap_Remove q))" "eap_elems (snd (eap_Remove q)) = tl (eap_elems q)"
    by (auto simp: run)
qed

interpretation ring: fifo eap_New eap_Length eap_Add eap_Peek eap_Remove eap_elems eap_inv
proof (unfold_locales, goal_cases)
  case (7 q)
  then show ?case
    by (cases "eq_count q") (auto simp: eap_Peek_def eap_inv_def eap_elems_def hd_map
        upt_conv_Cons simp del: upt_Suc)
next
  case (8 q)
  show ?case
  proof (cases "eap_elems q")
    case Nil
    then have "eq_count q = 0" by (metis length_eap(2) list.size(3))
    with Nil show ?thesis by (simp add: eap_Remove_def)
  next
    case (Cons x xs)
    then have "0 < eq_count q" by (metis length_eap(2) length_greater_0_conv list.distinct(1))
    with Cons 8 show ?thesis by (simp add: eap_Remove_inv)
  qed
next
  case (9 q)
  then show ?case by (cases "eq_count q") (simp_all add: eap_Remove_inv, simp add: eap_Remove_def)
next
  case (10 q)
  then show ?case by (cases "eq_count q") (simp_all add: eap_Remove_inv, simp add: eap_Remove_def eap_elems_def)
qed (simp_all add: eap_New_inv eap_Length_def eap_Add_eq eap_put_inv)



end
