(* ===== verification/Broker_Queue.thy ===== *)
theory Broker_Queue
  imports Eap_Queue
begin

text \<open>
  The broker's message queues (\<^verbatim>\<open>src/broker/queue\<close>): the list of messages waiting
  for their acknowledgement, the synchronised queue over the ring buffer, the transient and
  the persistent queue, and the service that hands queues out by client identifier. Queues
  are shared between the service, the topic tree and the sessions, so they live in a heap and
  are passed around as references. The MongoDB collection behind a persistent queue is a
  parameter.
\<close>

subsection \<open>Messages\<close>

record Message =
  m_Topic :: string
  m_PacketId :: "16 word"
  m_Direction :: byte
  m_State :: byte
  m_Qos :: byte
  m_Dup :: bool
  m_Retain :: bool
  m_Payload :: bytes
  m_Time :: int

subsection \<open>The list of unacknowledged messages\<close>

record transientList =
  tl_buf :: "Message option list"
  tl_count :: nat

definition newTransientList :: transientList where
  "newTransientList = \<lparr>tl_buf = replicate minQueueLen None, tl_count = 0\<rparr>"

definition tl_resize :: "transientList \<Rightarrow> transientList" where
  "tl_resize p = p\<lparr>tl_buf := go_copy (replicate (tl_count p * 2) None) (take (tl_count p) (tl_buf p))\<rparr>"

definition tl_Length :: "transientList \<Rightarrow> nat" where
  "tl_Length p = tl_count p"

definition tl_Pushback :: "Message \<Rightarrow> (transientList, unit, unit) go" where
  "tl_Pushback msg p =
     (let p1 = (if tl_count p = length (tl_buf p) then tl_resize p else p) in
      if tl_count p1 < length (tl_buf p1)
      then (Ok (), p1\<lparr>tl_buf := (tl_buf p1)[tl_count p1 := Some msg], tl_count := tl_count p1 + 1\<rparr>)
      else (Panic, p1))"

definition tl_Get :: "int \<Rightarrow> transientList \<Rightarrow> (unit, Message option) outcome" where
  "tl_Get index p =
     (if index \<ge> int (tl_count p) then Ok None
      else if index < 0 then Panic
      else Ok (tl_buf p ! nat index))"

fun find_packet :: "16 word \<Rightarrow> Message option list \<Rightarrow> nat \<Rightarrow> (unit, nat option) outcome" where
  "find_packet pktID [] i = Ok None"
| "find_packet pktID (None # ms) i = Panic"
| "find_packet pktID (Some m # ms) i =
     (if m_PacketId m = pktID then Ok (Some i) else find_packet pktID ms (Suc i))"

definition tl_Remove :: "16 word \<Rightarrow> (transientList, unit, unit) go" where
  "tl_Remove pktID p =
     (let shrink = (\<lambda>p. if length (tl_buf p) > minQueueLen \<and> tl_count p * 4 = length (tl_buf p)
                         then tl_resize p else p) in
      case find_packet pktID (take (tl_count p) (tl_buf p)) 0 of
        Ok (Some i) \<Rightarrow> (Ok (), shrink (p\<lparr>tl_buf := take i (tl_buf p) @ drop (Suc i) (tl_buf p),
                                        tl_count := tl_count p - 1\<rparr>))
      | Ok None \<Rightarrow> (Ok (), shrink p)
      | Err e \<Rightarrow> (Err e, p)
      | Panic \<Rightarrow> (Panic, p))"

subsection \<open>The synchronised queue\<close>

text \<open>
  A call that waits on the condition variable does not return: \<open>Err Blocks\<close>, with the queue
  as it was.
\<close>

datatype wait = Blocks

record 'a syncQueue =
  sq_buffer :: "'a eap_queue"
  sq_closed :: bool

definition newSyncQueue :: "'a syncQueue" where
  "newSyncQueue = \<lparr>sq_buffer = eap_New, sq_closed = False\<rparr>"

definition sq_take :: "('a syncQueue, wait, 'a option) go" where
  "sq_take p =
     (case (eap_Peek (sq_buffer p), eap_Remove (sq_buffer p)) of
        (Ok v, (Ok _, b)) \<Rightarrow> (Ok v, p\<lparr>sq_buffer := b\<rparr>)
      | _ \<Rightarrow> (Panic, p))"

definition sq_pop :: "('a syncQueue, wait, 'a option) go" where
  "sq_pop p =
     (if eap_Length (sq_buffer p) = 0 \<and> \<not> sq_closed p then (Err Blocks, p)
      else if eap_Length (sq_buffer p) > 0 then sq_take p
      else (Ok None, p))"

definition sq_front :: "'a syncQueue \<Rightarrow> (wait, 'a option) outcome" where
  "sq_front p = (case eap_Peek (sq_buffer p) of Ok v \<Rightarrow> Ok v | _ \<Rightarrow> Panic)"

definition sq_tryPop :: "('a syncQueue, wait, 'a option \<times> bool) go" where
  "sq_tryPop p =
     (if eap_Length (sq_buffer p) > 0
      then seqM sq_take (\<lambda>v. retM (v, True)) p
      else (Ok (None, sq_closed p), p))"

definition sq_push :: "'a \<Rightarrow> ('a syncQueue, wait, unit) go" where
  "sq_push v p =
     (if \<not> sq_closed p
      then (case eap_Add v (sq_buffer p) of
              (Ok _, b) \<Rightarrow> (Ok (), p\<lparr>sq_buffer := b\<rparr>)
            | (_, b) \<Rightarrow> (Panic, p\<lparr>sq_buffer := b\<rparr>))
      else (Ok (), p))"

definition sq_len :: "'a syncQueue \<Rightarrow> nat" where
  "sq_len p = eap_Length (sq_buffer p)"

definition sq_close :: "'a syncQueue \<Rightarrow> 'a syncQueue" where
  "sq_close p = (if \<not> sq_closed p then p\<lparr>sq_closed := True\<rparr> else p)"

subsection \<open>Queues on the heap\<close>

text \<open>
  The operations of the collection of a client in the database: dialling, counting, finding
  the first document, inserting and removing one.
\<close>

record 'db mongo =
  mg_dial :: "'db \<Rightarrow> bool"
  mg_count :: "string \<Rightarrow> 'db \<Rightarrow> int option"
  mg_one :: "string \<Rightarrow> 'db \<Rightarrow> Message option"
  mg_insert :: "string \<Rightarrow> Message \<Rightarrow> 'db \<Rightarrow> 'db"
  mg_remove :: "string \<Rightarrow> Message \<Rightarrow> 'db \<Rightarrow> 'db"

datatype backend = Transient "Message syncQueue" | Persistent

type_synonym qref = nat
type_synonym observer = nat

record qobj =
  q_clientId :: string
  q_observer :: "observer option"
  q_backend :: backend
  q_list :: transientList

text \<open>
  The state the queue service and its clients share: the heap of queues, the service's table,
  the database, and the notifications sent to observers, in order.
\<close>

record 'db qstate =
  qs_heap :: "qobj list"
  qs_queues :: "string \<Rightarrow> qref option"
  qs_db :: 'db
  qs_notes :: "(observer \<times> qref) list"

datatype queue_error = ErrBlocks | ErrQueueExists string | ErrDial

definition q_at :: "'db qstate \<Rightarrow> qref \<Rightarrow> qobj" where
  "q_at s r = qs_heap s ! r"

definition q_put :: "qref \<Rightarrow> qobj \<Rightarrow> 'db qstate \<Rightarrow> 'db qstate" where
  "q_put r q s = s\<lparr>qs_heap := (qs_heap s)[r := q]\<rparr>"

definition mongo_length :: "'db mongo \<Rightarrow> string \<Rightarrow> 'db \<Rightarrow> int" where
  "mongo_length mg c db = (case mg_count mg c db of Some n \<Rightarrow> n | None \<Rightarrow> -1)"

definition mongo_front :: "'db mongo \<Rightarrow> string \<Rightarrow> 'db \<Rightarrow> Message option" where
  "mongo_front mg c db = mg_one mg c db"

definition mongo_pushback :: "'db mongo \<Rightarrow> string \<Rightarrow> Message \<Rightarrow> 'db \<Rightarrow> 'db" where
  "mongo_pushback mg c msg db = mg_insert mg c msg db"

definition mongo_pop :: "'db mongo \<Rightarrow> string \<Rightarrow> 'db \<Rightarrow> Message option \<times> 'db" where
  "mongo_pop mg c db = (case mg_one mg c db of
      Some msg \<Rightarrow> (Some msg, mg_remove mg c msg db)
    | None \<Rightarrow> (None, db))"

definition q_Length :: "'db mongo \<Rightarrow> qref \<Rightarrow> 'db qstate \<Rightarrow> int" where
  "q_Length mg r s = (case q_backend (q_at s r) of
      Transient sq \<Rightarrow> int (sq_len sq)
    | Persistent \<Rightarrow> mongo_length mg (q_clientId (q_at s r)) (qs_db s))"

definition q_Front :: "'db mongo \<Rightarrow> qref \<Rightarrow> 'db qstate \<Rightarrow> (queue_error, Message option) outcome" where
  "q_Front mg r s = (case q_backend (q_at s r) of
      Transient sq \<Rightarrow> (case sq_front sq of Ok (Some m) \<Rightarrow> Ok (Some m) | _ \<Rightarrow> Panic)
    | Persistent \<Rightarrow> Ok (mongo_front mg (q_clientId (q_at s r)) (qs_db s)))"

definition q_Pop :: "'db mongo \<Rightarrow> qref \<Rightarrow> ('db qstate, queue_error, Message option) go" where
  "q_Pop mg r s = (case q_backend (q_at s r) of
      Transient sq \<Rightarrow>
        (case sq_pop sq of
           (Ok (Some m), sq') \<Rightarrow> (Ok (Some m), q_put r ((q_at s r)\<lparr>q_backend := Transient sq'\<rparr>) s)
         | (Ok None, sq') \<Rightarrow> (Panic, s)
         | (Err Blocks, sq') \<Rightarrow> (Err ErrBlocks, s)
         | (Panic, sq') \<Rightarrow> (Panic, s))
    | Persistent \<Rightarrow>
        (let (m, db) = mongo_pop mg (q_clientId (q_at s r)) (qs_db s) in (Ok m, s\<lparr>qs_db := db\<rparr>)))"

definition notify_observer :: "qref \<Rightarrow> 'db qstate \<Rightarrow> 'db qstate" where
  "notify_observer r s = (case q_observer (q_at s r) of
      Some ob \<Rightarrow> s\<lparr>qs_notes := qs_notes s @ [(ob, r)]\<rparr>
    | None \<Rightarrow> s)"

definition q_Pushback :: "'db mongo \<Rightarrow> qref \<Rightarrow> Message \<Rightarrow> ('db qstate, queue_error, unit) go" where
  "q_Pushback mg r msg s = (case q_backend (q_at s r) of
      Transient sq \<Rightarrow>
        (case sq_push msg sq of
           (Ok _, sq') \<Rightarrow> (Ok (), notify_observer r (q_put r ((q_at s r)\<lparr>q_backend := Transient sq'\<rparr>) s))
         | (_, sq') \<Rightarrow> (Panic, s))
    | Persistent \<Rightarrow>
        (Ok (), notify_observer r (s\<lparr>qs_db := mongo_pushback mg (q_clientId (q_at s r)) msg (qs_db s)\<rparr>)))"

definition q_IsPersistent :: "qobj \<Rightarrow> bool" where
  "q_IsPersistent q = (case q_backend q of Transient _ \<Rightarrow> False | Persistent \<Rightarrow> True)"

definition q_RegisterObserver :: "qref \<Rightarrow> observer option \<Rightarrow> 'db qstate \<Rightarrow> 'db qstate" where
  "q_RegisterObserver r ob s = q_put r ((q_at s r)\<lparr>q_observer := ob\<rparr>) s"

definition q_Close :: "qref \<Rightarrow> 'db qstate \<Rightarrow> 'db qstate" where
  "q_Close r s = (case q_backend (q_at s r) of
      Transient sq \<Rightarrow> q_put r ((q_at s r)\<lparr>q_backend := Transient (sq_close sq)\<rparr>) s
    | Persistent \<Rightarrow> s)"

subsection \<open>The queue service\<close>

definition newTransientQueue :: "string \<Rightarrow> qobj" where
  "newTransientQueue clientId = \<lparr>q_clientId = clientId, q_observer = None,
     q_backend = Transient newSyncQueue, q_list = newTransientList\<rparr>"

definition newPersistentQueue :: "'db mongo \<Rightarrow> string \<Rightarrow> 'db \<Rightarrow> (queue_error, qobj) outcome" where
  "newPersistentQueue mg clientId db =
     (if mg_dial mg db
      then Ok \<lparr>q_clientId = clientId, q_observer = None, q_backend = Persistent, q_list = newTransientList\<rparr>
      else Err ErrDial)"

definition newQueueService :: "'db \<Rightarrow> 'db qstate" where
  "newQueueService db = \<lparr>qs_heap = [], qs_queues = (\<lambda>_. None), qs_db = db, qs_notes = []\<rparr>"

definition destroyQueue :: "string \<Rightarrow> 'db qstate \<Rightarrow> 'db qstate" where
  "destroyQueue c s = s\<lparr>qs_queues := (qs_queues s)(c := None)\<rparr>"

definition q_alloc :: "string \<Rightarrow> qobj \<Rightarrow> ('db qstate, queue_error, qref) go" where
  "q_alloc c q s = (let r = length (qs_heap s) in
     (Ok r, s\<lparr>qs_heap := qs_heap s @ [q], qs_queues := (qs_queues s)(c \<mapsto> r)\<rparr>))"

definition newQueue :: "'db mongo \<Rightarrow> string \<Rightarrow> bool \<Rightarrow> ('db qstate, queue_error, qref) go" where
  "newQueue mg c persistent s =
     (let create = (\<lambda>s.
        if persistent
        then (case newPersistentQueue mg c (qs_db s) of
                Ok q \<Rightarrow> q_alloc c q s
              | Err e \<Rightarrow> (Err e, s)
              | Panic \<Rightarrow> (Panic, s))
        else q_alloc c (newTransientQueue c) s) in
      case qs_queues s c of
        Some r \<Rightarrow>
          if persistent \<and> q_IsPersistent (q_at s r) then (Ok r, s)
          else if q_IsPersistent (q_at s r) \<and> \<not> persistent then create (destroyQueue c s)
          else (Err (ErrQueueExists c), s)
      | None \<Rightarrow> create s)"

definition getQueue :: "string \<Rightarrow> 'db qstate \<Rightarrow> qref option" where
  "getQueue c s = qs_queues s c"

definition releaseQueue :: "string \<Rightarrow> 'db qstate \<Rightarrow> 'db qstate" where
  "releaseQueue c s = (case qs_queues s c of Some _ \<Rightarrow> destroyQueue c s | None \<Rightarrow> s)"

subsection \<open>Vocabulary of the specification\<close>

definition tl_inv :: "transientList \<Rightarrow> bool" where
  "tl_inv p \<longleftrightarrow> tl_count p \<le> length (tl_buf p) \<and> (\<forall>m \<in> set (take (tl_count p) (tl_buf p)). m \<noteq> None)"

definition tl_msgs :: "transientList \<Rightarrow> Message list" where
  "tl_msgs p = map the (take (tl_count p) (tl_buf p))"

fun remove_first :: "('a \<Rightarrow> bool) \<Rightarrow> 'a list \<Rightarrow> 'a list" where
  "remove_first P [] = []"
| "remove_first P (x # xs) = (if P x then xs else x # remove_first P xs)"

definition sq_inv :: "'a syncQueue \<Rightarrow> bool" where
  "sq_inv p \<longleftrightarrow> eap_inv (sq_buffer p)"

definition sq_elems :: "'a syncQueue \<Rightarrow> 'a list" where
  "sq_elems p = eap_elems (sq_buffer p)"

text \<open>A transient queue that is open, and the messages it holds.\<close>

definition tq_inv :: "qref \<Rightarrow> 'db qstate \<Rightarrow> bool" where
  "tq_inv r s \<longleftrightarrow> r < length (qs_heap s) \<and>
     (case q_backend (q_at s r) of Transient sq \<Rightarrow> sq_inv sq \<and> \<not> sq_closed sq | Persistent \<Rightarrow> False)"

definition tq_elems :: "qref \<Rightarrow> 'db qstate \<Rightarrow> Message list" where
  "tq_elems r s = (case q_backend (q_at s r) of Transient sq \<Rightarrow> sq_elems sq | Persistent \<Rightarrow> [])"

text \<open>
  What the persistent queue relies on: the collection of a client answers as the list of its
  documents in the order they were inserted, and removing the document that was found first
  removes that one.
\<close>

definition mongo_fifo :: "'db mongo \<Rightarrow> (string \<Rightarrow> 'db \<Rightarrow> Message list) \<Rightarrow> bool" where
  "mongo_fifo mg docs \<longleftrightarrow>
     (\<forall>c db. mg_count mg c db = Some (int (length (docs c db)))) \<and>
     (\<forall>c db. mg_one mg c db = (case docs c db of [] \<Rightarrow> None | m # _ \<Rightarrow> Some m)) \<and>
     (\<forall>c m db. docs c (mg_insert mg c m db) = docs c db @ [m]) \<and>
     (\<forall>c m db ms. docs c db = m # ms \<longrightarrow> docs c (mg_remove mg c m db) = ms)"

definition pq_inv :: "qref \<Rightarrow> 'db qstate \<Rightarrow> bool" where
  "pq_inv r s \<longleftrightarrow> r < length (qs_heap s) \<and> q_backend (q_at s r) = Persistent"

definition pq_elems :: "(string \<Rightarrow> 'db \<Rightarrow> Message list) \<Rightarrow> qref \<Rightarrow> 'db qstate \<Rightarrow> Message list" where
  "pq_elems docs r s = docs (q_clientId (q_at s r)) (qs_db s)"

text \<open>
  The service's table: every entry is a queue of the heap that was made for its key, and the
  structures of every queue are sound.
\<close>

definition q_sound :: "qobj \<Rightarrow> bool" where
  "q_sound q \<longleftrightarrow> tl_inv (q_list q) \<and>
     (case q_backend q of Transient sq \<Rightarrow> sq_inv sq | Persistent \<Rightarrow> True)"

definition qs_wf :: "'db qstate \<Rightarrow> bool" where
  "qs_wf s \<longleftrightarrow> (\<forall>q \<in> set (qs_heap s). q_sound q) \<and>
     (\<forall>c r. qs_queues s c = Some r \<longrightarrow> r < length (qs_heap s) \<and> q_clientId (q_at s r) = c)"

inductive qs_step :: "'db mongo \<Rightarrow> 'db qstate \<Rightarrow> 'db qstate \<Rightarrow> bool" for mg where
  step_new: "qs_step mg s (snd (newQueue mg c persistent s))"
| step_destroy: "qs_step mg s (destroyQueue c s)"
| step_release: "qs_step mg s (releaseQueue c s)"
| step_push: "r < length (qs_heap s) \<Longrightarrow> qs_step mg s (snd (q_Pushback mg r m s))"
| step_pop: "r < length (qs_heap s) \<Longrightarrow> qs_step mg s (snd (q_Pop mg r s))"
| step_observe: "r < length (qs_heap s) \<Longrightarrow> qs_step mg s (q_RegisterObserver r ob s)"
| step_close: "r < length (qs_heap s) \<Longrightarrow> qs_step mg s (q_Close r s)"

inductive qs_reach :: "'db mongo \<Rightarrow> 'db qstate \<Rightarrow> bool" for mg where
  reach_start: "qs_reach mg (newQueueService db)"
| reach_step: "qs_reach mg s \<Longrightarrow> qs_step mg s t \<Longrightarrow> qs_reach mg t"

text \<open>One message sent and acknowledged.\<close>

definition push_ack :: "Message \<Rightarrow> transientList \<Rightarrow> transientList" where
  "push_ack m p = snd (tl_Remove (m_PacketId m) (snd (tl_Pushback m p)))"

subsection \<open>The list of unacknowledged messages\<close>

lemma tl_new: "tl_inv newTransientList" "tl_msgs newTransientList = []"
  by (simp_all add: tl_inv_def tl_msgs_def newTransientList_def)

lemma tl_resize_eq:
  assumes "tl_inv p"
  shows "tl_inv (tl_resize p)" "tl_msgs (tl_resize p) = tl_msgs p"
    "tl_count (tl_resize p) = tl_count p" "length (tl_buf (tl_resize p)) = 2 * tl_count p"
  using assms by (auto simp: tl_inv_def tl_msgs_def tl_resize_def go_copy_def)

lemma tl_Pushback_spec:
  assumes "tl_inv p" "tl_buf p \<noteq> []"
  shows "fst (tl_Pushback m p) = Ok ()" "tl_inv (snd (tl_Pushback m p))"
    "tl_msgs (snd (tl_Pushback m p)) = tl_msgs p @ [m]"
proof -
  define q where "q = (if tl_count p = length (tl_buf p) then tl_resize p else p)"
  have q: "tl_inv q" "tl_msgs q = tl_msgs p" "tl_count q < length (tl_buf q)"
    using assms tl_resize_eq [OF assms(1)] by (auto simp: q_def tl_inv_def)
  have run: "tl_Pushback m p =
      (Ok (), q\<lparr>tl_buf := (tl_buf q)[tl_count q := Some m], tl_count := tl_count q + 1\<rparr>)"
    using q(3) by (simp add: tl_Pushback_def Let_def q_def)
  have "take (Suc (tl_count q)) ((tl_buf q)[tl_count q := Some m]) = take (tl_count q) (tl_buf q) @ [Some m]"
    using q(3) by (simp add: take_Suc_conv_app_nth)
  with q show "fst (tl_Pushback m p) = Ok ()" "tl_inv (snd (tl_Pushback m p))"
    "tl_msgs (snd (tl_Pushback m p)) = tl_msgs p @ [m]"
    by (auto simp: run tl_inv_def tl_msgs_def)
qed

lemma find_packet_spec:
  assumes "\<forall>m \<in> set ms. m \<noteq> None"
  shows "find_packet pid ms i =
    (if \<exists>m \<in> set ms. m_PacketId (the m) = pid
     then Ok (Some (i + length (takeWhile (\<lambda>m. m_PacketId (the m) \<noteq> pid) ms))) else Ok None)"
  using assms by (induction pid ms i rule: find_packet.induct) auto

lemma remove_first_split:
  "(\<exists>x \<in> set xs. P x) \<Longrightarrow> n = length (takeWhile (\<lambda>x. \<not> P x) xs) \<Longrightarrow>
   n < length xs \<and> remove_first P xs = take n xs @ drop (Suc n) xs"
  by (induction xs arbitrary: n) auto

lemma remove_first_none: "\<not> (\<exists>x \<in> set xs. P x) \<Longrightarrow> remove_first P xs = xs"
  by (induction xs) auto

lemma remove_first_subset: "set (remove_first P xs) \<subseteq> set xs"
  by (induction xs) auto

lemma remove_first_map: "remove_first P (map f xs) = map f (remove_first (\<lambda>x. P (f x)) xs)"
  by (induction xs) auto

lemma tl_Remove_spec:
  assumes "tl_inv p"
  shows "fst (tl_Remove pid p) = Ok ()" "tl_inv (snd (tl_Remove pid p))"
    "tl_msgs (snd (tl_Remove pid p)) = remove_first (\<lambda>m. m_PacketId m = pid) (tl_msgs p)"
proof -
  let ?ms = "take (tl_count p) (tl_buf p)" and ?P = "\<lambda>m. m_PacketId (the m) = pid"
  define shrink where "shrink = (\<lambda>p. if length (tl_buf p) > minQueueLen \<and> tl_count p * 4 = length (tl_buf p)
                         then tl_resize p else p)"
  have shrink: "tl_inv (shrink q) \<and> tl_msgs (shrink q) = tl_msgs q" if "tl_inv q" for q
    using that tl_resize_eq [OF that] by (auto simp: shrink_def)
  have some: "\<forall>m \<in> set ?ms. m \<noteq> None" using assms by (simp add: tl_inv_def)
  have "\<exists>q. tl_Remove pid p = (Ok (), shrink q) \<and> tl_inv q \<and>
      tl_msgs q = remove_first (\<lambda>m. m_PacketId m = pid) (tl_msgs p)"
  proof (cases "\<exists>m \<in> set ?ms. ?P m")
    case True
    define i where "i = length (takeWhile (\<lambda>m. \<not> ?P m) ?ms)"
    define q where "q = p\<lparr>tl_buf := take i (tl_buf p) @ drop (Suc i) (tl_buf p), tl_count := tl_count p - 1\<rparr>"
    have i: "i < length ?ms" "remove_first ?P ?ms = take i ?ms @ drop (Suc i) ?ms"
      using remove_first_split [OF True i_def] by auto
    have c: "i < tl_count p" "tl_count p \<le> length (tl_buf p)"
      using i(1) assms by (simp_all add: tl_inv_def)
    then have "take (tl_count q) (tl_buf q) = take i (tl_buf p) @ take (tl_count p - Suc i) (drop (Suc i) (tl_buf p))"
      by (simp add: q_def)
    also have "\<dots> = remove_first ?P ?ms"
      unfolding i(2) using c by (simp add: drop_take min_def)
    finally have "take (tl_count q) (tl_buf q) = remove_first ?P ?ms" .
    then have "tl_inv q" "tl_msgs q = remove_first (\<lambda>m. m_PacketId m = pid) (tl_msgs p)"
      using c some by (auto simp: tl_inv_def tl_msgs_def remove_first_map q_def
          dest!: remove_first_subset [THEN subsetD])
    moreover have "tl_Remove pid p = (Ok (), shrink q)"
      using True some by (simp add: tl_Remove_def find_packet_spec Let_def q_def shrink_def i_def)
    ultimately show ?thesis by blast
  next
    case False
    then have "tl_Remove pid p = (Ok (), shrink p)"
      using some by (simp add: tl_Remove_def find_packet_spec Let_def shrink_def)
    moreover have "tl_msgs p = remove_first (\<lambda>m. m_PacketId m = pid) (tl_msgs p)"
      using False by (simp add: tl_msgs_def remove_first_map remove_first_none)
    ultimately show ?thesis using assms by auto
  qed
  with shrink show "fst (tl_Remove pid p) = Ok ()" "tl_inv (snd (tl_Remove pid p))"
    "tl_msgs (snd (tl_Remove pid p)) = remove_first (\<lambda>m. m_PacketId m = pid) (tl_msgs p)"
    by auto
qed

lemma tl_Get_spec:
  "tl_inv p \<Longrightarrow> tl_Get (int i) p = Ok (if i < length (tl_msgs p) then Some (tl_msgs p ! i) else None)"
  by (auto simp: tl_Get_def tl_inv_def tl_msgs_def in_set_conv_nth)

lemma push_ack_step:
  "length bs < 16 \<Longrightarrow> push_ack m \<lparr>tl_buf = None # bs, tl_count = 0\<rparr> = \<lparr>tl_buf = bs, tl_count = 0\<rparr>"
  by (simp add: push_ack_def tl_Pushback_def tl_Remove_def Let_def minQueueLen_def)

lemma push_ack_run:
  "n \<le> 16 \<Longrightarrow> (push_ack m ^^ n) newTransientList = \<lparr>tl_buf = replicate (16 - n) None, tl_count = 0\<rparr>"
proof (induction n)
  case (Suc n)
  have r: "replicate (16 - n) None = (None :: Message option) # replicate (16 - Suc n) None"
    using Suc.prems by (simp add: Suc_diff_Suc flip: replicate_Suc)
  show ?case
    using Suc push_ack_step [of "replicate (16 - Suc n) None" m] by (simp add: r)
qed (simp add: newTransientList_def minQueueLen_def)

subsection \<open>The synchronised queue and the queues on the heap\<close>

lemma sq_new: "sq_inv newSyncQueue" "sq_elems newSyncQueue = []" "\<not> sq_closed newSyncQueue"
  by (simp_all add: sq_inv_def sq_elems_def newSyncQueue_def ring.inv_new ring.elems_new)

lemma sq_len_elems: "sq_inv p \<Longrightarrow> sq_len p = length (sq_elems p)"
  by (simp add: sq_inv_def sq_len_def sq_elems_def ring.len_elems)

lemma sq_push_spec:
  assumes "sq_inv p"
  shows "fst (sq_push v p) = Ok ()" "sq_inv (snd (sq_push v p))"
    "sq_elems (snd (sq_push v p)) = (if sq_closed p then sq_elems p else sq_elems p @ [v])"
    "sq_closed (snd (sq_push v p)) = sq_closed p"
  using assms ring.add_ok [of "sq_buffer p" v] ring.inv_add [of "sq_buffer p" v]
    ring.elems_add [of "sq_buffer p" v]
  by (auto simp: sq_push_def sq_inv_def sq_elems_def split: prod.splits outcome.splits)

lemma sq_take_spec:
  assumes "sq_inv p" "sq_elems p = v # vs"
  shows "\<exists>q. sq_take p = (Ok (Some v), q) \<and> sq_inv q \<and> sq_elems q = vs \<and> sq_closed q = sq_closed p"
  using assms ring.peek_elems [of "sq_buffer p"] ring.remove_elems [of "sq_buffer p"]
    ring.inv_remove [of "sq_buffer p"] ring.elems_remove [of "sq_buffer p"]
  by (cases "eap_Remove (sq_buffer p)") (auto simp: sq_take_def sq_inv_def sq_elems_def)

lemma sq_pop_spec:
  assumes "sq_inv p"
  shows "sq_elems p = [] \<Longrightarrow> sq_pop p = (if sq_closed p then Ok None else Err Blocks, p)"
    and "sq_elems p = v # vs \<Longrightarrow> \<exists>q. sq_pop p = (Ok (Some v), q) \<and> sq_inv q \<and> sq_elems q = vs \<and>
           sq_closed q = sq_closed p"
  using assms sq_len_elems [OF assms] sq_take_spec [OF assms]
  by (auto simp: sq_pop_def sq_len_def)

lemma sq_front_spec: "sq_inv p \<Longrightarrow> sq_elems p = v # vs \<Longrightarrow> sq_front p = Ok (Some v)"
  using ring.peek_elems [of "sq_buffer p"] by (simp add: sq_front_def sq_inv_def sq_elems_def)

text \<open>
  The contract of a queue as the session that drains it and the topic tree that fills it use
  it: asking for the front or popping is promised an answer on a queue that is not empty.
\<close>

locale message_queue =
  fixes qlen :: "'s \<Rightarrow> int"
    and qfront :: "'s \<Rightarrow> ('e, 'm option) outcome"
    and qpop :: "('s, 'e, 'm option) go"
    and qpush :: "'m \<Rightarrow> ('s, 'e, unit) go"
    and elems :: "'s \<Rightarrow> 'm list"
    and inv :: "'s \<Rightarrow> bool"
  assumes len_law: "inv s \<Longrightarrow> qlen s = int (length (elems s))"
    and front_law: "inv s \<Longrightarrow> elems s = m # ms \<Longrightarrow> qfront s = Ok (Some m)"
    and pop_law: "inv s \<Longrightarrow> elems s = m # ms \<Longrightarrow>
      fst (qpop s) = Ok (Some m) \<and> inv (snd (qpop s)) \<and> elems (snd (qpop s)) = ms"
    and push_law: "inv s \<Longrightarrow>
      fst (qpush m s) = Ok () \<and> inv (snd (qpush m s)) \<and> elems (snd (qpush m s)) = elems s @ [m]"
begin

lemma push_all:
  "inv s \<Longrightarrow> inv (foldl (\<lambda>s m. snd (qpush m s)) s ms) \<and>
             elems (foldl (\<lambda>s m. snd (qpush m s)) s ms) = elems s @ ms"
  by (induction ms arbitrary: s) (auto simp: push_law)

lemma pop_many:
  "inv s \<Longrightarrow> n \<le> length (elems s) \<Longrightarrow>
   inv (((\<lambda>s. snd (qpop s)) ^^ n) s) \<and> elems (((\<lambda>s. snd (qpop s)) ^^ n) s) = drop n (elems s)"
proof (induction n)
  case (Suc n)
  let ?t = "((\<lambda>s. snd (qpop s)) ^^ n) s"
  have "inv ?t" "elems ?t = elems s ! n # drop (Suc n) (elems s)"
    using Suc by (auto simp: Cons_nth_drop_Suc)
  then show ?case using pop_law [of ?t] by simp
qed simp

text \<open>The \<open>n\<close>-th message popped is the \<open>n\<close>-th one of the queue and of what was pushed to it.\<close>

lemma pushed_in_order:
  assumes "inv s" "n < length (elems s @ ms)"
  shows "fst (qpop (((\<lambda>s. snd (qpop s)) ^^ n) (foldl (\<lambda>s m. snd (qpush m s)) s ms))) =
    Ok (Some ((elems s @ ms) ! n))"
proof -
  let ?s = "foldl (\<lambda>s m. snd (qpush m s)) s ms"
  let ?t = "((\<lambda>s. snd (qpop s)) ^^ n) ?s"
  define xs where "xs = elems s @ ms"
  have "inv ?t" "elems ?t = drop n xs"
    using push_all [OF assms(1), of ms] pop_many [of ?s n] assms(2) unfolding xs_def by auto
  moreover have "drop n xs = xs ! n # drop (Suc n) xs"
    by (rule Cons_nth_drop_Suc [symmetric]) (use assms(2) in \<open>simp add: xs_def\<close>)
  ultimately have "inv ?t" "elems ?t = (elems s @ ms) ! n # drop (Suc n) xs"
    by (simp_all add: xs_def)
  then show ?thesis using pop_law [of ?t] by simp
qed

end

lemma q_at_simps [simp]:
  "r < length (qs_heap s) \<Longrightarrow> q_at (q_put r q s) r = q" "r \<noteq> r' \<Longrightarrow> q_at (q_put r q s) r' = q_at s r'"
  "length (qs_heap (q_put r q s)) = length (qs_heap s)" "q_at (s\<lparr>qs_db := db\<rparr>) r = q_at s r"
  "qs_db (q_put r q s) = qs_db s" "qs_queues (q_put r q s) = qs_queues s"
  "qs_notes (q_put r q s) = qs_notes s" "q_at (s\<lparr>qs_notes := ns\<rparr>) r = q_at s r"
  by (simp_all add: q_at_def q_put_def)

lemma notify_observer_simps [simp]:
  "qs_heap (notify_observer r s) = qs_heap s" "qs_db (notify_observer r s) = qs_db s"
  "qs_queues (notify_observer r s) = qs_queues s" "q_at (notify_observer r s) r' = q_at s r'"
  by (simp_all add: notify_observer_def q_at_def split: option.splits)

interpretation tq: message_queue "q_Length mg r" "q_Front mg r" "q_Pop mg r" "q_Pushback mg r"
    "tq_elems r" "tq_inv r" for mg :: "'db mongo" and r
proof (unfold_locales, goal_cases)
  case (1 s)
  then show ?case
    by (auto simp: tq_inv_def tq_elems_def q_Length_def sq_len_elems split: backend.splits)
next
  case (2 s m ms)
  then show ?case
    by (auto simp: tq_inv_def tq_elems_def q_Front_def sq_front_spec split: backend.splits)
next
  case (3 s m ms)
  then obtain sq where sq: "q_backend (q_at s r) = Transient sq" "sq_inv sq" "\<not> sq_closed sq"
      "sq_elems sq = m # ms" "r < length (qs_heap s)"
    by (auto simp: tq_inv_def tq_elems_def split: backend.splits)
  with sq_pop_spec(2) [OF sq(2,4)] show ?case
    by (auto simp: q_Pop_def tq_inv_def tq_elems_def)
next
  case (4 s m)
  then obtain sq where sq: "q_backend (q_at s r) = Transient sq" "sq_inv sq" "\<not> sq_closed sq"
      "r < length (qs_heap s)"
    by (auto simp: tq_inv_def split: backend.splits)
  with sq_push_spec [OF sq(2), of m] show ?case
    by (cases "sq_push m sq") (auto simp: q_Pushback_def tq_inv_def tq_elems_def)
qed

lemma persistent_queue:
  assumes "mongo_fifo mg docs"
  shows "message_queue (q_Length mg r) (q_Front mg r) (q_Pop mg r) (q_Pushback mg r)
    (pq_elems docs r) (pq_inv r)"
proof (unfold_locales, goal_cases)
  case (3 s m ms)
  then have "docs (q_clientId (q_at s r)) (qs_db s) = m # ms" by (simp add: pq_elems_def)
  with 3 assms show ?case
    by (simp add: q_Pop_def pq_inv_def pq_elems_def mongo_pop_def mongo_fifo_def)
qed (use assms in \<open>auto simp: pq_inv_def pq_elems_def q_Length_def mongo_length_def q_Front_def
    mongo_front_def q_Pushback_def mongo_pushback_def mongo_fifo_def\<close>)

subsection \<open>The queue service\<close>

lemma q_sound_new: "q_sound (newTransientQueue c)" "newPersistentQueue mg c db = Ok q \<Longrightarrow> q_sound q"
  by (auto simp: q_sound_def newTransientQueue_def newPersistentQueue_def tl_new sq_new split: if_splits)

lemma q_clientId_new:
  "q_clientId (newTransientQueue c) = c" "newPersistentQueue mg c db = Ok q \<Longrightarrow> q_clientId q = c"
  by (auto simp: newTransientQueue_def newPersistentQueue_def split: if_splits)

lemma qs_wf_start: "qs_wf (newQueueService db)"
  by (simp add: qs_wf_def newQueueService_def)

lemma qs_wf_destroy: "qs_wf s \<Longrightarrow> qs_wf (destroyQueue c s)"
  by (auto simp: qs_wf_def destroyQueue_def q_at_def)

lemma qs_wf_alloc:
  assumes "qs_wf s" "q_sound q" "q_clientId q = c"
  shows "qs_wf (snd (q_alloc c q s))"
proof -
  have "r < length (qs_heap s) \<and> q_clientId (qs_heap s ! r) = c'"
    if "qs_queues s c' = Some r" for c' r
    using assms(1) that by (simp add: qs_wf_def q_at_def)
  moreover have "\<forall>q \<in> set (qs_heap s). q_sound q" using assms(1) by (simp add: qs_wf_def)
  ultimately show ?thesis
    using assms(2,3) by (auto simp: qs_wf_def q_alloc_def q_at_def nth_append Let_def
        split: if_splits intro: less_SucI)
qed

lemma qs_wf_put:
  assumes "qs_wf s" "r < length (qs_heap s)" "q_sound q" "q_clientId q = q_clientId (q_at s r)"
  shows "qs_wf (q_put r q s)"
  using assms by (auto simp: qs_wf_def q_put_def q_at_def nth_list_update dest!: set_update_subset_insert [THEN subsetD])

lemma qs_wf_frame [simp]:
  "qs_wf (notify_observer r s) = qs_wf s" "qs_wf (s\<lparr>qs_db := db\<rparr>) = qs_wf s"
  by (simp_all add: qs_wf_def q_at_def)

lemma qs_wf_sound: "qs_wf s \<Longrightarrow> r < length (qs_heap s) \<Longrightarrow> q_sound (q_at s r)"
  by (simp add: qs_wf_def q_at_def)

lemma q_sound_backend:
  "q_sound q \<Longrightarrow> sq_inv sq \<Longrightarrow> q_sound (q\<lparr>q_backend := Transient sq\<rparr>)"
  by (simp add: q_sound_def)

lemma q_sound_Transient: "q_sound q \<Longrightarrow> q_backend q = Transient sq \<Longrightarrow> sq_inv sq"
  by (simp add: q_sound_def)

lemma newQueue_cases:
  obtains (same) r where "qs_queues s c = Some r" "newQueue mg c p s = (Ok r, s)"
      "p" "q_IsPersistent (q_at s r)"
  | (fresh) q t where "newQueue mg c p s = q_alloc c q t" "q_sound q" "q_clientId q = c"
      "q_IsPersistent q = p" "t = s \<or> t = destroyQueue c s"
      "\<And>r. qs_queues s c = Some r \<Longrightarrow> \<not> p \<and> q_IsPersistent (q_at s r)"
  | (fail) e t where "newQueue mg c p s = (Err e, t)" "t = s \<or> t = destroyQueue c s"
proof -
  have d: "qs_db (destroyQueue c s) = qs_db s" by (simp add: destroyQueue_def)
  have p: "q_IsPersistent q" if "newPersistentQueue mg c db = Ok q" for q db
    using that by (auto simp: newPersistentQueue_def q_IsPersistent_def split: if_splits)
  have t: "\<not> q_IsPersistent (newTransientQueue c)"
    by (simp add: newTransientQueue_def q_IsPersistent_def)
  show thesis
  proof (cases "qs_queues s c")
    case None
    show thesis
    proof (cases p)
      case True
      show thesis
      proof (cases "newPersistentQueue mg c (qs_db s)")
        case (Ok q)
        with None True show thesis
          using that(2) [of q s] q_sound_new(2) [OF Ok] q_clientId_new(2) [OF Ok] p [OF Ok]
          by (simp add: newQueue_def)
      next
        case (Err e)
        with None True show thesis using that(3) [of e s] by (simp add: newQueue_def)
      qed (simp add: newPersistentQueue_def split: if_splits)
    qed (use None t that(2) [of "newTransientQueue c" s] q_sound_new(1) q_clientId_new(1)
        in \<open>auto simp: newQueue_def\<close>)
  next
    case (Some r)
    show thesis
    proof (cases "q_IsPersistent (q_at s r) \<and> \<not> p")
      case True
      then show thesis
        using Some t that(2) [of "newTransientQueue c" "destroyQueue c s"] q_sound_new(1)
          q_clientId_new(1) by (auto simp: newQueue_def)
    next
      case False
      show thesis
      proof (cases "p \<and> q_IsPersistent (q_at s r)")
        case True
        with Some show thesis using that(1) [of r] by (simp add: newQueue_def)
      next
        case not_both: False
        with Some False show thesis
          using that(3) [of "ErrQueueExists c" s] by (auto simp: newQueue_def)
      qed
    qed
  qed
qed

lemma qs_wf_newQueue: "qs_wf s \<Longrightarrow> qs_wf (snd (newQueue mg c p s))"
  by (cases rule: newQueue_cases [of s c mg p]) (auto simp: qs_wf_alloc qs_wf_destroy)

lemma qs_wf_Pushback:
  assumes "qs_wf s" "r < length (qs_heap s)"
  shows "qs_wf (snd (q_Pushback mg r m s))"
proof (cases "q_backend (q_at s r)")
  case (Transient sq)
  have "sq_inv sq" using qs_wf_sound [OF assms] Transient by (rule q_sound_Transient)
  note push = sq_push_spec [OF this, of m]
  have "qs_wf (q_put r ((q_at s r)\<lparr>q_backend := Transient (snd (sq_push m sq))\<rparr>) s)"
    using assms push(2) by (simp add: qs_wf_put q_sound_backend qs_wf_sound)
  with Transient push(1) show ?thesis
    by (cases "sq_push m sq") (simp add: q_Pushback_def)
qed (use assms in \<open>simp add: q_Pushback_def\<close>)

lemma qs_wf_Pop:
  assumes "qs_wf s" "r < length (qs_heap s)"
  shows "qs_wf (snd (q_Pop mg r s))"
proof (cases "q_backend (q_at s r)")
  case (Transient sq)
  have inv: "sq_inv sq" using qs_wf_sound [OF assms] Transient by (rule q_sound_Transient)
  show ?thesis
  proof (cases "sq_elems sq")
    case Nil
    with assms Transient show ?thesis by (auto simp: q_Pop_def sq_pop_spec(1) [OF inv])
  next
    case (Cons m ms)
    with assms Transient sq_pop_spec(2) [OF inv Cons] show ?thesis
      by (auto simp: q_Pop_def intro!: qs_wf_put q_sound_backend qs_wf_sound)
  qed
qed (use assms in \<open>simp add: q_Pop_def split: prod.splits\<close>)

lemma qs_wf_step: "qs_step mg s t \<Longrightarrow> qs_wf s \<Longrightarrow> qs_wf t"
proof (induction rule: qs_step.induct)
  case (step_observe r s ob)
  then have "q_sound ((q_at s r)\<lparr>q_observer := ob\<rparr>)"
    using qs_wf_sound [of s r] by (simp add: q_sound_def)
  with step_observe show ?case by (simp add: q_RegisterObserver_def qs_wf_put)
next
  case (step_close r s)
  then show ?case
    using qs_wf_sound [of s r]
    by (auto simp: q_Close_def sq_close_def sq_inv_def q_sound_def split: backend.splits intro!: qs_wf_put)
qed (auto simp: qs_wf_newQueue qs_wf_destroy qs_wf_Pushback qs_wf_Pop releaseQueue_def split: option.splits)

lemma qs_reach_wf: "qs_reach mg s \<Longrightarrow> qs_wf s"
  by (induction rule: qs_reach.induct) (auto simp: qs_wf_start qs_wf_step)

lemma newQueue_fresh_transient:
  "newQueue mg c False s = (Ok r, t) \<Longrightarrow> tq_inv r t \<and> tq_elems r t = []"
  by (auto simp: newQueue_def q_alloc_def tq_inv_def tq_elems_def q_at_def newTransientQueue_def
      sq_new destroyQueue_def Let_def split: option.splits if_splits)

subsection \<open>Properties\<close>


definition no_mongo :: "unit mongo" where
  "no_mongo = \<lparr>mg_dial = (\<lambda>_. False), mg_count = (\<lambda>_ _. None), mg_one = (\<lambda>_ _. None),
     mg_insert = (\<lambda>_ _ db. db), mg_remove = (\<lambda>_ _ db. db)\<rparr>"

definition sample_message :: Message where
  "sample_message = \<lparr>m_Topic = ''a/b'', m_PacketId = 0, m_Direction = 0, m_State = 0, m_Qos = 1,
     m_Dup = False, m_Retain = False, m_Payload = [1, 2], m_Time = 0\<rparr>"



definition list_mongo :: "(string \<Rightarrow> Message list) mongo" where
  "list_mongo = \<lparr>mg_dial = (\<lambda>_. True), mg_count = (\<lambda>c db. Some (int (length (db c)))),
     mg_one = (\<lambda>c db. case db c of [] \<Rightarrow> None | m # _ \<Rightarrow> Some m),
     mg_insert = (\<lambda>c m db. db(c := db c @ [m])), mg_remove = (\<lambda>c m db. db(c := remove1 m (db c)))\<rparr>"

lemma list_mongo_fifo: "mongo_fifo list_mongo (\<lambda>c db. db c)"
  by (simp add: mongo_fifo_def list_mongo_def)


text \<open>In every state the operations of the queue service lead to, the table maps a client
  identifier to a queue that was made for that client, and every queue of the heap is sound.\<close>

theorem queue_service_invariant:
  assumes "qs_reach mg s" "getQueue c s = Some r"
  shows "r < length (qs_heap s) \<and> q_clientId (q_at s r) = c \<and> q_sound (q_at s r)"
  using qs_reach_wf [OF assms(1)] assms(2) by (auto simp: qs_wf_def getQueue_def q_at_def)

theorem queue_service_invariant_witness:
  "\<exists>s r. qs_reach no_mongo s \<and> getQueue ''c'' s = Some r \<and> r < length (qs_heap s) \<and>
     q_clientId (q_at s r) = ''c'' \<and> q_sound (q_at s r)"
proof -
  define s where "s = snd (newQueue no_mongo ''c'' False (newQueueService ()))"
  have "qs_reach no_mongo s"
    unfolding s_def by (rule reach_step [OF reach_start step_new])
  moreover have "getQueue ''c'' s = Some 0"
    by (simp add: s_def newQueue_def newQueueService_def q_alloc_def Let_def getQueue_def)
  ultimately show ?thesis using queue_service_invariant [of no_mongo s "''c''" 0] by blast
qed

text \<open>Asking for a queue resumes a persistent queue, replaces a persistent queue by a
  fresh transient one, and refuses a client whose transient queue still exists; no other
  client's queue is touched.\<close>

theorem newQueue_behaviour:
  "(\<forall>r. qs_queues s c = Some r \<longrightarrow> q_IsPersistent (q_at s r) \<longrightarrow> newQueue mg c True s = (Ok r, s)) \<and>
   (\<forall>r. qs_queues s c = Some r \<longrightarrow> q_IsPersistent (q_at s r) \<longrightarrow>
      fst (newQueue mg c False s) = Ok (length (qs_heap s)) \<and>
      qs_queues (snd (newQueue mg c False s)) c = Some (length (qs_heap s))) \<and>
   (\<forall>r p. qs_queues s c = Some r \<longrightarrow> \<not> q_IsPersistent (q_at s r) \<longrightarrow>
      newQueue mg c p s = (Err (ErrQueueExists c), s)) \<and>
   (\<forall>p d. d \<noteq> c \<longrightarrow> qs_queues (snd (newQueue mg c p s)) d = qs_queues s d)"
  by (auto simp: newQueue_def q_alloc_def destroyQueue_def Let_def split: option.splits outcome.splits)

theorem newQueue_behaviour_witness:
  "(let s = snd (newQueue list_mongo ''c'' True (newQueueService (\<lambda>_. []))) in
    newQueue list_mongo ''c'' True s = (Ok 0, s) \<and> fst (newQueue list_mongo ''c'' False s) = Ok 1 \<and>
    qs_queues (snd (newQueue list_mongo ''c'' False s)) ''d'' = None)"
proof -
  define s where "s = snd (newQueue list_mongo ''c'' True (newQueueService (\<lambda>_. [])))"
  have "qs_queues s ''c'' = Some 0" "q_IsPersistent (q_at s 0)" "length (qs_heap s) = 1"
      "qs_queues s ''d'' = None"
    by (simp_all add: s_def newQueue_def newQueueService_def q_alloc_def Let_def newPersistentQueue_def
        list_mongo_def q_at_def q_IsPersistent_def)
  with newQueue_behaviour [of s "''c''" list_mongo] show ?thesis
    unfolding s_def [symmetric] Let_def by simp
qed



text \<open>Every acknowledgement shrinks the list's buffer for good: after sixteen messages
  that were each pushed and acknowledged, the next push panics.\<close>

theorem retain_list_wears_out: "fst (tl_Pushback m' ((push_ack m ^^ 16) newTransientList)) = Panic"
  by (simp add: push_ack_run tl_Pushback_def tl_resize_def go_copy_def)

end
