(* ===== verification/Topic_Tree.thy ===== *)
theory Topic_Tree
  imports Broker_Queue
begin

text \<open>
  The subscription tree of \<^verbatim>\<open>src/broker/sessionmgr/topic_tree_simple.go\<close>. A node is
  referred to by the path of keys that leads to it. The maps of a node are association lists
  with distinct keys; the order in which Go ranges over a map is unspecified, so every
  operation that ranges takes the order as a parameter \<open>iter\<close>, which returns a permutation of
  the keys it is given.
\<close>

subsection \<open>State\<close>

record subscription =
  sub_clientID :: string
  sub_topic :: string
  sub_qos :: byte
  sub_queue :: qref
  sub_retain :: bool

datatype topicNode = Node
  (n_level: string)
  (n_children: "(string \<times> topicNode) list")
  (n_subs: "(string \<times> subscription) list")
  (n_msgs: "Message list")

type_synonym path = "string list"
type_synonym iter_order = "string list \<Rightarrow> string list"

record simpleTopicTree =
  tt_root :: topicNode
  tt_topics :: "string \<Rightarrow> string list option"

datatype tree_error = ErrInvalidTopic string | ErrInvalidClient string

definition newSimpleTopicTree :: simpleTopicTree where
  "newSimpleTopicTree = \<lparr>tt_root = Node ''root'' [] [] [], tt_topics = (\<lambda>_. None)\<rparr>"

definition topic_levels :: "string \<Rightarrow> path" where
  "topic_levels topic = split_on CHR ''/'' topic"

subsection \<open>Walking the tree\<close>

definition findNode :: "topicNode \<Rightarrow> string \<Rightarrow> topicNode option" where
  "findNode node topic = map_of (n_children node) topic"

fun find_path :: "path \<Rightarrow> topicNode \<Rightarrow> topicNode option" where
  "find_path [] node = Some node"
| "find_path (l # ls) node = (case findNode node l of None \<Rightarrow> None | Some n \<Rightarrow> find_path ls n)"

definition addNode :: "topicNode \<Rightarrow> string \<Rightarrow> topicNode" where
  "addNode node level = (case map_of (n_children node) level of
      None \<Rightarrow> Node level [] [] []
    | Some n \<Rightarrow> n)"

text \<open>
  The walk of \<^verbatim>\<open>addSubscription\<close>: missing nodes are made on the way, and \<open>f\<close> is applied
  to the node at the end. The update of a child is written back into its parent, which the
  pointers of the code do by themselves.
\<close>

fun add_path :: "path \<Rightarrow> (topicNode \<Rightarrow> topicNode) \<Rightarrow> topicNode \<Rightarrow> topicNode" where
  "add_path [] f node = f node"
| "add_path (l # ls) f node =
     Node (n_level node) (AList.update l (add_path ls f (addNode node l)) (n_children node))
       (n_subs node) (n_msgs node)"

text \<open>The same write-back for a node that exists.\<close>

fun modify_path :: "path \<Rightarrow> (topicNode \<Rightarrow> topicNode) \<Rightarrow> topicNode \<Rightarrow> topicNode" where
  "modify_path [] f node = f node"
| "modify_path (l # ls) f node = (case findNode node l of
      None \<Rightarrow> node
    | Some n \<Rightarrow> Node (n_level node) (AList.update l (modify_path ls f n) (n_children node))
        (n_subs node) (n_msgs node))"

definition set_subs :: "((string \<times> subscription) list \<Rightarrow> (string \<times> subscription) list) \<Rightarrow> topicNode \<Rightarrow> topicNode" where
  "set_subs g node = Node (n_level node) (n_children node) (g (n_subs node)) (n_msgs node)"

definition set_msgs :: "(Message list \<Rightarrow> Message list) \<Rightarrow> topicNode \<Rightarrow> topicNode" where
  "set_msgs g node = Node (n_level node) (n_children node) (n_subs node) (g (n_msgs node))"

subsection \<open>Subscriptions\<close>

definition addSubscription :: "subscription \<Rightarrow> simpleTopicTree \<Rightarrow> simpleTopicTree" where
  "addSubscription sub p = p\<lparr>
     tt_root := add_path (topic_levels (sub_topic sub))
       (set_subs (AList.update (sub_clientID sub) sub)) (tt_root p),
     tt_topics := (tt_topics p)(sub_clientID sub \<mapsto>
       (case tt_topics p (sub_clientID sub) of
          None \<Rightarrow> [sub_topic sub]
        | Some ts \<Rightarrow> ts @ [sub_topic sub]))\<rparr>"

definition retainSubscription :: "string \<Rightarrow> string \<Rightarrow> (simpleTopicTree, tree_error, unit) go" where
  "retainSubscription clientID topic p =
     (case find_path (topic_levels topic) (tt_root p) of
        None \<Rightarrow> (Err (ErrInvalidTopic topic), p)
      | Some node \<Rightarrow>
          (case map_of (n_subs node) clientID of
             None \<Rightarrow> (Err (ErrInvalidClient clientID), p)
           | Some sub \<Rightarrow> (Ok (), p\<lparr>tt_root := modify_path (topic_levels topic)
               (set_subs (AList.update clientID (sub\<lparr>sub_retain := True\<rparr>))) (tt_root p)\<rparr>)))"

text \<open>
  Removing a topic from the client's list works on a copy of the slice header: the elements
  after the first match move one place down in the shared array, and the list keeps its
  length, so its last element stays there twice.
\<close>

fun shift_out :: "'a \<Rightarrow> 'a list \<Rightarrow> 'a list" where
  "shift_out t [] = []"
| "shift_out t (x # xs) = (if x = t then xs @ [last (x # xs)] else x # shift_out t xs)"

definition removeSubscription :: "string \<Rightarrow> string \<Rightarrow> (simpleTopicTree, tree_error, unit) go" where
  "removeSubscription clientID topic p =
     (case find_path (topic_levels topic) (tt_root p) of
        None \<Rightarrow> (Err (ErrInvalidTopic topic), p)
      | Some node \<Rightarrow>
          (case map_of (n_subs node) clientID of
             None \<Rightarrow> (Err (ErrInvalidClient clientID), p)
           | Some _ \<Rightarrow> (Ok (), p\<lparr>
               tt_root := modify_path (topic_levels topic) (set_subs (AList.delete clientID)) (tt_root p),
               tt_topics := (tt_topics p)(clientID := map_option (shift_out topic) (tt_topics p clientID))\<rparr>)))"

definition getSubscriptionTopics :: "string \<Rightarrow> simpleTopicTree \<Rightarrow> string list" where
  "getSubscriptionTopics clientID p = (case tt_topics p clientID of None \<Rightarrow> [] | Some ts \<Rightarrow> ts)"

definition getSubscription :: "string \<Rightarrow> string \<Rightarrow> simpleTopicTree \<Rightarrow> (tree_error, subscription) outcome" where
  "getSubscription clientID topic p =
     (case find_path (topic_levels topic) (tt_root p) of
        None \<Rightarrow> Err (ErrInvalidTopic topic)
      | Some node \<Rightarrow>
          (case map_of (n_subs node) clientID of
             None \<Rightarrow> Err (ErrInvalidClient clientID)
           | Some sub \<Rightarrow> Ok sub))"

subsection \<open>Publishing\<close>

text \<open>
  One pass of the loop over the children returns at the first key that names the level, is a
  single-level wildcard, or is a multi-level wildcard with children of its own.
\<close>

definition stops_at :: "topicNode \<Rightarrow> path \<Rightarrow> string \<Rightarrow> bool" where
  "stops_at node levels k \<longleftrightarrow>
     levels \<noteq> [] \<and> (k = hd levels \<or> k = ''+'') \<or>
     k = ''#'' \<and> (case findNode node k of Some v \<Rightarrow> n_children v \<noteq> [] | None \<Rightarrow> False)"

fun searchNode :: "iter_order \<Rightarrow> topicNode \<Rightarrow> path \<Rightarrow> path option" where
  "searchNode iter node [] =
     map_option (\<lambda>k. [k]) (find (stops_at node []) (iter (map fst (n_children node))))"
| "searchNode iter node (l # ls) =
     (case find (stops_at node (l # ls)) (iter (map fst (n_children node))) of
        None \<Rightarrow> None
      | Some k \<Rightarrow>
          if k = l \<or> k = ''+'' then
            (if ls = [] then Some [k]
             else case findNode node k of
               None \<Rightarrow> None
             | Some v \<Rightarrow> map_option (Cons k) (searchNode iter v ls))
          else Some [k])"

definition copy_for :: "subscription \<Rightarrow> Message \<Rightarrow> Message" where
  "copy_for sub msg = \<lparr>m_Topic = m_Topic msg, m_PacketId = m_PacketId msg,
     m_Direction = m_Direction msg, m_State = m_State msg, m_Qos = sub_qos sub, m_Dup = False,
     m_Retain = m_Retain msg, m_Payload = m_Payload msg, m_Time = m_Time msg\<rparr>"

fun deliver :: "'db mongo \<Rightarrow> Message \<Rightarrow> subscription list \<Rightarrow> ('db qstate, queue_error, unit) go" where
  "deliver mg msg [] s = (Ok (), s)"
| "deliver mg msg (sub # subs) s =
     seqM (q_Pushback mg (sub_queue sub) (copy_for sub msg)) (\<lambda>_. deliver mg msg subs) s"

definition subs_of :: "iter_order \<Rightarrow> topicNode \<Rightarrow> subscription list" where
  "subs_of iter node = List.map_filter (map_of (n_subs node)) (iter (map fst (n_subs node)))"

definition addMessage :: "'db mongo \<Rightarrow> iter_order \<Rightarrow> Message \<Rightarrow> simpleTopicTree \<Rightarrow> ('db qstate, queue_error, unit) go" where
  "addMessage mg iter msg p s =
     (case searchNode iter (tt_root p) (topic_levels (m_Topic msg)) of
        None \<Rightarrow> (Ok (), s)
      | Some pth \<Rightarrow>
          (case find_path pth (tt_root p) of
             None \<Rightarrow> (Ok (), s)
           | Some node \<Rightarrow> deliver mg msg (subs_of iter node) s))"

definition retainMessage :: "iter_order \<Rightarrow> Message \<Rightarrow> simpleTopicTree \<Rightarrow> simpleTopicTree" where
  "retainMessage iter msg p =
     (case searchNode iter (tt_root p) (topic_levels (m_Topic msg)) of
        None \<Rightarrow> p
      | Some pth \<Rightarrow> p\<lparr>tt_root := modify_path pth (set_msgs (\<lambda>ms. ms @ [msg])) (tt_root p)\<rparr>)"

text \<open>
  The inner loop of \<^verbatim>\<open>deleteMessageWithValidator\<close> ranges over the slice it shortens:
  \<open>arr\<close> is the shared array, \<open>len\<close> the length of \<^verbatim>\<open>node.msgs\<close> by now.
\<close>

function delete_loop :: "(Message \<Rightarrow> bool) \<Rightarrow> nat \<Rightarrow> Message list \<Rightarrow> nat \<Rightarrow> (tree_error, Message list) outcome" where
  "delete_loop validator i arr len =
     (if i < length arr then
        if validator (arr ! i) then
          if i + 1 \<le> len
          then delete_loop validator (i + 1)
                 (take i arr @ drop (i + 1) (take len arr) @ drop (len - 1) arr) (len - 1)
          else Panic
        else delete_loop validator (i + 1) arr len
      else Ok (take len arr))"
  by pat_completeness auto
termination by (relation "measure (\<lambda>(v, i, arr, len). length arr - i)") auto

fun delete_messages :: "iter_order \<Rightarrow> (Message \<Rightarrow> bool) \<Rightarrow> string list \<Rightarrow> (simpleTopicTree, tree_error, unit) go" where
  "delete_messages iter validator [] p = (Ok (), p)"
| "delete_messages iter validator (topic # topics) p =
     (case searchNode iter (tt_root p) (topic_levels topic) of
        None \<Rightarrow> (Panic, p)
      | Some pth \<Rightarrow>
          (case find_path pth (tt_root p) of
             None \<Rightarrow> (Panic, p)
           | Some node \<Rightarrow>
               (case delete_loop validator 0 (n_msgs node) (length (n_msgs node)) of
                  Ok ms \<Rightarrow> delete_messages iter validator topics
                    (p\<lparr>tt_root := modify_path pth (set_msgs (\<lambda>_. ms)) (tt_root p)\<rparr>)
                | _ \<Rightarrow> (Panic, p))))"

definition deleteMessageWithValidator :: "iter_order \<Rightarrow> string \<Rightarrow> (Message \<Rightarrow> bool) \<Rightarrow> (simpleTopicTree, tree_error, unit) go" where
  "deleteMessageWithValidator iter clientID validator p =
     delete_messages iter validator (getSubscriptionTopics clientID p) p"

subsection \<open>Vocabulary of the specification\<close>

text \<open>The subscription of a client at a node, and the tree as a map from paths and clients.\<close>

definition node_subs :: "path \<Rightarrow> topicNode \<Rightarrow> string \<Rightarrow> subscription option" where
  "node_subs pth node c = (case find_path pth node of None \<Rightarrow> None | Some n \<Rightarrow> map_of (n_subs n) c)"

definition subs_at :: "simpleTopicTree \<Rightarrow> string \<Rightarrow> string \<Rightarrow> subscription option" where
  "subs_at p c topic = node_subs (topic_levels topic) (tt_root p) c"

text \<open>The matching of a topic filter with a topic, as MQTT defines it.\<close>

primrec topic_matches :: "path \<Rightarrow> path \<Rightarrow> bool" where
  "topic_matches [] ls \<longleftrightarrow> ls = []"
| "topic_matches (f # fs) ls \<longleftrightarrow> f = ''#'' \<and> fs = [] \<or>
     (case ls of [] \<Rightarrow> False | l # ls' \<Rightarrow> (f = ''+'' \<or> f = l) \<and> topic_matches fs ls')"

definition iter_ok :: "iter_order \<Rightarrow> bool" where
  "iter_ok iter \<longleftrightarrow> (\<forall>ks. distinct ks \<longrightarrow> distinct (iter ks) \<and> set (iter ks) = set ks)"

text \<open>Distinct keys everywhere.\<close>

inductive node_wf :: "topicNode \<Rightarrow> bool" where
  "distinct (map fst (n_children n)) \<Longrightarrow> distinct (map fst (n_subs n)) \<Longrightarrow>
   (\<And>k v. map_of (n_children n) k = Some v \<Longrightarrow> node_wf v) \<Longrightarrow> node_wf n"

definition tree_wf :: "simpleTopicTree \<Rightarrow> bool" where
  "tree_wf p \<longleftrightarrow> node_wf (tt_root p) \<and>
     (\<forall>pth c sub. node_subs pth (tt_root p) c = Some sub \<longrightarrow>
        sub_clientID sub = c \<and> topic_levels (sub_topic sub) = pth)"

text \<open>A tree into which no wildcard filter was entered.\<close>

inductive plain_node :: "topicNode \<Rightarrow> bool" where
  "''+'' \<notin> set (map fst (n_children n)) \<Longrightarrow> ''#'' \<notin> set (map fst (n_children n)) \<Longrightarrow>
   (\<And>k v. map_of (n_children n) k = Some v \<Longrightarrow> plain_node v) \<Longrightarrow> plain_node n"

definition recipients :: "iter_order \<Rightarrow> string \<Rightarrow> simpleTopicTree \<Rightarrow> subscription list" where
  "recipients iter topic p = (case searchNode iter (tt_root p) (topic_levels topic) of
      None \<Rightarrow> []
    | Some pth \<Rightarrow> (case find_path pth (tt_root p) of None \<Rightarrow> [] | Some node \<Rightarrow> subs_of iter node))"

inductive tree_step :: "simpleTopicTree \<Rightarrow> simpleTopicTree \<Rightarrow> bool" where
  tree_add: "tree_step p (addSubscription sub p)"
| tree_retain: "tree_step p (snd (retainSubscription c topic p))"
| tree_remove: "tree_step p (snd (removeSubscription c topic p))"
| tree_retain_msg: "tree_step p (retainMessage iter msg p)"
| tree_delete_msg: "tree_step p (snd (deleteMessageWithValidator iter c validator p))"

inductive tree_reach :: "simpleTopicTree \<Rightarrow> bool" where
  tree_start: "tree_reach newSimpleTopicTree"
| tree_next: "tree_reach p \<Longrightarrow> tree_step p q \<Longrightarrow> tree_reach q"

subsection \<open>Lookup along paths\<close>

declare delete_loop.simps [simp del]

lemma node_subs_simps [simp]:
  "node_subs [] node c = map_of (n_subs node) c"
  "node_subs (l # ls) node c = (case map_of (n_children node) l of None \<Rightarrow> None | Some n \<Rightarrow> node_subs ls n c)"
  by (simp_all add: node_subs_def findNode_def split: option.splits)

lemma set_subs_simps [simp]:
  "n_children (set_subs g n) = n_children n" "n_subs (set_subs g n) = g (n_subs n)"
  "n_children (set_msgs h n) = n_children n" "n_subs (set_msgs h n) = n_subs n"
  "n_msgs (set_msgs h n) = h (n_msgs n)"
  by (simp_all add: set_subs_def set_msgs_def)

lemma node_subs_empty [simp]: "node_subs pth (Node l [] [] []) c = None"
  by (cases pth) simp_all

definition target_subs :: "path \<Rightarrow> topicNode \<Rightarrow> (string \<times> subscription) list" where
  "target_subs pth node = (case find_path pth node of None \<Rightarrow> [] | Some n \<Rightarrow> n_subs n)"

lemma target_subs_Cons:
  "target_subs (l # ls) node = target_subs ls (addNode node l)"
  by (cases ls) (auto simp: target_subs_def addNode_def findNode_def split: option.splits)

lemma node_subs_add_path:
  "node_subs q (add_path pth (set_subs g) node) c =
     (if q = pth then map_of (g (target_subs pth node)) c else node_subs q node c)"
proof (induction pth arbitrary: q node)
  case Nil
  show ?case by (cases q) (simp_all add: target_subs_def)
next
  case (Cons l ls)
  show ?case
    by (cases q) (auto simp: Cons.IH update_conv target_subs_Cons addNode_def split: option.splits)
qed

lemma node_subs_modify_path:
  "find_path pth node \<noteq> None \<Longrightarrow> node_subs q (modify_path pth (set_subs g) node) c =
     (if q = pth then map_of (g (target_subs pth node)) c else node_subs q node c)"
proof (induction pth arbitrary: q node)
  case Nil
  show ?case by (cases q) (simp_all add: target_subs_def)
next
  case (Cons l ls)
  then obtain n where n: "map_of (n_children node) l = Some n" "find_path ls n \<noteq> None"
    by (auto simp: findNode_def split: option.splits)
  then have "target_subs (l # ls) node = target_subs ls n"
    by (simp add: target_subs_def findNode_def)
  with n show ?case
    by (cases q) (auto simp: Cons.IH update_conv findNode_def split: option.splits)
qed

lemma node_subs_modify_msgs: "node_subs q (modify_path pth (set_msgs h) node) c = node_subs q node c"
proof (induction pth arbitrary: q node)
  case Nil
  show ?case by (cases q) simp_all
next
  case (Cons l ls)
  show ?case
    by (cases q) (auto simp: Cons.IH update_conv findNode_def split: option.splits)
qed

lemma map_of_target: "map_of (target_subs pth node) c = node_subs pth node c"
  by (simp add: target_subs_def node_subs_def split: option.splits)

subsection \<open>The tree as a store of subscriptions\<close>

lemma getSubscription_subs_at:
  "getSubscription c topic p = Ok sub \<longleftrightarrow> subs_at p c topic = Some sub"
  by (auto simp: getSubscription_def subs_at_def node_subs_def split: option.splits)

lemma topic_levels_inj: "topic_levels a = topic_levels b \<longleftrightarrow> a = b"
  by (auto simp: topic_levels_def dest: split_on_inj)

lemma subs_at_add:
  "subs_at (addSubscription sub p) c topic =
     (if c = sub_clientID sub \<and> topic = sub_topic sub then Some sub else subs_at p c topic)"
  by (auto simp: subs_at_def addSubscription_def node_subs_add_path update_conv map_of_target
      topic_levels_inj)

lemma removeSubscription_cases:
  "removeSubscription c topic p =
     (case subs_at p c topic of
        Some _ \<Rightarrow> (Ok (), snd (removeSubscription c topic p))
      | None \<Rightarrow> (Err (if find_path (topic_levels topic) (tt_root p) = None
                       then ErrInvalidTopic topic else ErrInvalidClient c), p))"
  by (auto simp: removeSubscription_def subs_at_def node_subs_def split: option.splits)

lemma subs_at_remove:
  "subs_at (snd (removeSubscription c topic p)) c' topic' =
     (if c' = c \<and> topic' = topic then None else subs_at p c' topic')"
proof (cases "subs_at p c topic")
  case None
  then have "snd (removeSubscription c topic p) = p"
    by (auto simp: removeSubscription_def subs_at_def node_subs_def split: option.splits)
  with None show ?thesis by simp
next
  case (Some sub)
  then obtain n where n: "find_path (topic_levels topic) (tt_root p) = Some n" "map_of (n_subs n) c = Some sub"
    by (auto simp: subs_at_def node_subs_def split: option.splits)
  then have "tt_root (snd (removeSubscription c topic p)) =
      modify_path (topic_levels topic) (set_subs (AList.delete c)) (tt_root p)"
    by (simp add: removeSubscription_def)
  with n show ?thesis
    by (simp add: subs_at_def node_subs_modify_path delete_conv map_of_target topic_levels_inj)
qed

text \<open>
  What the session manager relies on: an entry is found under its client and topic until it
  is removed or replaced, and no operation on one entry changes another.
\<close>

locale subscription_store =
  fixes get :: "'t \<Rightarrow> string \<Rightarrow> string \<Rightarrow> 'sub option"
    and add :: "'sub \<Rightarrow> 't \<Rightarrow> 't"
    and remove :: "string \<Rightarrow> string \<Rightarrow> 't \<Rightarrow> 't"
    and client :: "'sub \<Rightarrow> string"
    and topic :: "'sub \<Rightarrow> string"
  assumes get_add: "get (add sub t) c tp = (if c = client sub \<and> tp = topic sub then Some sub else get t c tp)"
    and get_remove: "get (remove c tp t) c' tp' = (if c' = c \<and> tp' = tp then None else get t c' tp')"
begin

lemma get_remove_all:
  "get (fold (remove c) tps t) c' tp = (if c' = c \<and> tp \<in> set tps then None else get t c' tp)"
  by (induction tps arbitrary: t) (auto simp: get_remove)

lemma get_add_all:
  "get (fold add subs t) c tp = Some sub \<Longrightarrow>
   get t c tp = Some sub \<or> sub \<in> set subs \<and> client sub = c \<and> topic sub = tp"
proof (induction subs arbitrary: t)
  case (Cons s subs)
  from Cons.prems Cons.IH [of "add s t"] show ?case by (auto simp: get_add split: if_splits)
qed simp

lemma last_add_wins:
  "get (add sub (add sub' t)) (client sub) (topic sub) = Some sub"
  by (simp add: get_add)

end

interpretation tree: subscription_store "\<lambda>p c topic. subs_at p c topic" addSubscription
    "\<lambda>c topic p. snd (removeSubscription c topic p)" sub_clientID sub_topic
  by unfold_locales (auto simp: subs_at_add subs_at_remove)

subsection \<open>The invariant of the tree\<close>

lemma node_wf_iff:
  "node_wf n \<longleftrightarrow> distinct (map fst (n_children n)) \<and> distinct (map fst (n_subs n)) \<and>
     (\<forall>k v. map_of (n_children n) k = Some v \<longrightarrow> node_wf v)"
  by (auto elim: node_wf.cases intro: node_wf.intros)

lemma node_wf_empty [simp]: "node_wf (Node l [] [] [])"
  by (subst node_wf_iff) simp

lemma node_wf_addNode: "node_wf node \<Longrightarrow> node_wf (addNode node l)"
  by (subst (asm) node_wf_iff) (auto simp: addNode_def split: option.splits)

lemma node_wf_update:
  "node_wf node \<Longrightarrow> node_wf v \<Longrightarrow>
   node_wf (Node (n_level node) (AList.update l v (n_children node)) (n_subs node) (n_msgs node))"
  by (subst node_wf_iff, subst (asm) node_wf_iff [of node]) (auto simp: distinct_update update_conv)

lemma node_wf_add_path:
  "(\<And>n. node_wf n \<Longrightarrow> node_wf (f n)) \<Longrightarrow> node_wf node \<Longrightarrow> node_wf (add_path pth f node)"
  by (induction pth arbitrary: node) (simp_all add: node_wf_update node_wf_addNode)

lemma node_wf_modify_path:
  "(\<And>n. node_wf n \<Longrightarrow> node_wf (f n)) \<Longrightarrow> node_wf node \<Longrightarrow> node_wf (modify_path pth f node)"
proof (induction pth arbitrary: node)
  case (Cons l ls)
  have "node_wf v" if "map_of (n_children node) l = Some v" for v
    using Cons.prems(2) that by (subst (asm) node_wf_iff) blast
  with Cons show ?case by (auto simp: node_wf_update findNode_def split: option.splits)
qed simp

lemma node_wf_set:
  "(\<And>xs. distinct (map fst xs) \<Longrightarrow> distinct (map fst (g xs))) \<Longrightarrow> node_wf n \<Longrightarrow> node_wf (set_subs g n)"
  "node_wf n \<Longrightarrow> node_wf (set_msgs h n)"
  by (subst node_wf_iff, subst (asm) node_wf_iff [of n], simp)+

lemma tree_wf_new: "tree_wf newSimpleTopicTree"
  by (simp add: tree_wf_def newSimpleTopicTree_def)

lemma tree_wf_addSubscription: "tree_wf p \<Longrightarrow> tree_wf (addSubscription sub p)"
  by (auto simp: tree_wf_def addSubscription_def node_subs_add_path update_conv map_of_target
      distinct_update intro!: node_wf_add_path node_wf_set split: if_splits)

lemma tree_wf_modify:
  assumes "tree_wf p" "find_path pth (tt_root p) \<noteq> None"
    and "\<And>xs. distinct (map fst xs) \<Longrightarrow> distinct (map fst (g xs))"
    and "\<And>c sub. map_of (g (target_subs pth (tt_root p))) c = Some sub \<Longrightarrow>
           sub_clientID sub = c \<and> topic_levels (sub_topic sub) = pth"
  shows "tree_wf (p\<lparr>tt_root := modify_path pth (set_subs g) (tt_root p), tt_topics := ts\<rparr>)"
  using assms by (auto simp: tree_wf_def node_subs_modify_path node_wf_modify_path node_wf_set)

lemma tree_wf_topics: "tree_wf (p\<lparr>tt_topics := ts\<rparr>) = tree_wf p"
  by (simp add: tree_wf_def)

lemma tree_wf_removeSubscription:
  assumes "tree_wf p"
  shows "tree_wf (snd (removeSubscription c topic p))"
proof (cases "subs_at p c topic")
  case None
  then have "snd (removeSubscription c topic p) = p"
    by (auto simp: removeSubscription_def subs_at_def node_subs_def split: option.splits)
  with assms show ?thesis by simp
next
  case (Some sub)
  then obtain n where n: "find_path (topic_levels topic) (tt_root p) = Some n" "map_of (n_subs n) c = Some sub"
    by (auto simp: subs_at_def node_subs_def split: option.splits)
  have "tree_wf (p\<lparr>tt_root := modify_path (topic_levels topic) (set_subs (AList.delete c)) (tt_root p),
      tt_topics := (tt_topics p)(c := map_option (shift_out topic) (tt_topics p c))\<rparr>)"
    using assms n by (intro tree_wf_modify)
      (auto simp: distinct_delete delete_conv map_of_target tree_wf_def split: if_splits)
  with n show ?thesis by (simp add: removeSubscription_def)
qed

lemma tree_wf_retainSubscription:
  assumes "tree_wf p"
  shows "tree_wf (snd (retainSubscription c topic p))"
proof (cases "subs_at p c topic")
  case None
  then have "snd (retainSubscription c topic p) = p"
    by (auto simp: retainSubscription_def subs_at_def node_subs_def split: option.splits)
  with assms show ?thesis by simp
next
  case (Some sub)
  then obtain n where n: "find_path (topic_levels topic) (tt_root p) = Some n" "map_of (n_subs n) c = Some sub"
    by (auto simp: subs_at_def node_subs_def split: option.splits)
  have sub: "sub_clientID sub = c" "topic_levels (sub_topic sub) = topic_levels topic"
    using assms Some by (auto simp: tree_wf_def subs_at_def)
  have "tree_wf (p\<lparr>tt_root := modify_path (topic_levels topic)
      (set_subs (AList.update c (sub\<lparr>sub_retain := True\<rparr>))) (tt_root p), tt_topics := tt_topics p\<rparr>)"
    using assms n sub by (intro tree_wf_modify)
      (auto simp: distinct_update update_conv map_of_target tree_wf_def split: if_splits)
  with n show ?thesis by (simp add: retainSubscription_def)
qed

lemma tree_wf_msgs: "tree_wf p \<Longrightarrow> tree_wf (p\<lparr>tt_root := modify_path pth (set_msgs h) (tt_root p)\<rparr>)"
  by (auto simp: tree_wf_def node_subs_modify_msgs node_wf_modify_path node_wf_set)

lemma tree_wf_delete_messages: "tree_wf p \<Longrightarrow> tree_wf (snd (delete_messages iter v topics p))"
  by (induction iter v topics p rule: delete_messages.induct)
    (auto simp: tree_wf_msgs split: option.splits outcome.splits)

lemma tree_wf_step: "tree_step p q \<Longrightarrow> tree_wf p \<Longrightarrow> tree_wf q"
  by (induction rule: tree_step.induct)
    (auto simp: tree_wf_addSubscription tree_wf_removeSubscription tree_wf_retainSubscription
      retainMessage_def tree_wf_msgs deleteMessageWithValidator_def tree_wf_delete_messages
      split: option.splits)

lemma tree_reach_wf: "tree_reach p \<Longrightarrow> tree_wf p"
  by (induction rule: tree_reach.induct) (auto simp: tree_wf_new tree_wf_step)

subsection \<open>Searching\<close>

lemma topic_levels_not_Nil [simp]: "topic_levels topic \<noteq> []"
  by (simp add: topic_levels_def)

lemma iter_keys:
  assumes "iter_ok iter" "node_wf n"
  shows "k \<in> set (iter (map fst (n_children n))) \<longleftrightarrow> (\<exists>v. findNode n k = Some v)"
proof -
  have "set (iter (map fst (n_children n))) = fst ` set (n_children n)"
    using assms by (subst (asm) node_wf_iff) (auto simp: iter_ok_def)
  moreover have "k \<in> fst ` set (n_children n) \<longleftrightarrow> map_of (n_children n) k \<noteq> None"
    by (metis map_of_eq_None_iff)
  ultimately show ?thesis by (simp add: findNode_def)
qed

lemma node_wf_child: "node_wf n \<Longrightarrow> findNode n k = Some v \<Longrightarrow> node_wf v"
  by (subst (asm) node_wf_iff) (simp add: findNode_def)

lemma search_sound:
  assumes "iter_ok iter" "searchNode iter node levels = Some pth" "node_wf node" "levels \<noteq> []"
  shows "topic_matches pth levels \<and> find_path pth node \<noteq> None"
  using assms
proof (induction iter node levels arbitrary: pth rule: searchNode.induct)
  case (2 iter node l ls)
  from 2(3) obtain k where k: "find (stops_at node (l # ls)) (iter (map fst (n_children node))) = Some k"
    by (auto split: option.splits)
  then have stop: "stops_at node (l # ls) k" and mem: "k \<in> set (iter (map fst (n_children node)))"
    by (auto simp: find_Some_iff)
  from mem 2(2,4) obtain v where v: "findNode node k = Some v" by (auto simp: iter_keys)
  show ?case
  proof (cases "(k = l \<or> k = ''+'') \<and> ls \<noteq> []")
    case True
    with 2(3) k v obtain q where q: "searchNode iter v ls = Some q" "pth = k # q" by auto
    with 2(1) [OF k _ _ v 2(2) q(1)] True node_wf_child [OF 2(4) v]
    have "topic_matches q ls \<and> find_path q v \<noteq> None" by blast
    with q v True show ?thesis by auto
  next
    case False
    with 2(3) k stop v show ?thesis by (auto simp: stops_at_def split: if_splits)
  qed
qed simp

text \<open>Without wildcards the search is the lookup of the topic itself, in every order.\<close>

lemma plain_node_iff:
  "plain_node n \<longleftrightarrow> ''+'' \<notin> set (map fst (n_children n)) \<and> ''#'' \<notin> set (map fst (n_children n)) \<and>
     (\<forall>k v. map_of (n_children n) k = Some v \<longrightarrow> plain_node v)"
  by (subst plain_node.simps) blast

lemma find_unique: "(\<And>x. x \<in> set xs \<Longrightarrow> P x \<longleftrightarrow> x = y) \<Longrightarrow> find P xs = (if y \<in> set xs then Some y else None)"
  by (induction xs) auto

lemma search_plain:
  assumes "iter_ok iter" "plain_node node" "node_wf node" "levels \<noteq> []"
  shows "searchNode iter node levels = (if find_path levels node = None then None else Some levels)"
  using assms
proof (induction levels arbitrary: node)
  case (Cons l ls)
  have keys: "set (iter (map fst (n_children node))) = fst ` set (n_children node)"
    using Cons.prems(1,3) by (subst (asm) node_wf_iff) (auto simp: iter_ok_def)
  have no: "''+'' \<notin> fst ` set (n_children node)" "''#'' \<notin> fst ` set (n_children node)"
    using Cons.prems(2) by (subst (asm) plain_node_iff, simp)+
  have "stops_at node (l # ls) k \<longleftrightarrow> k = l" if "k \<in> fst ` set (n_children node)" for k
  proof -
    have "k \<noteq> ''+''" "k \<noteq> ''#''" using no that by metis+
    then show ?thesis by (simp add: stops_at_def)
  qed
  then have "find (stops_at node (l # ls)) (iter (map fst (n_children node))) =
      (if l \<in> fst ` set (n_children node) then Some l else None)"
    unfolding keys [symmetric] by (rule find_unique)
  moreover have "l \<in> fst ` set (n_children node) \<longleftrightarrow> findNode node l \<noteq> None"
    unfolding findNode_def by (metis map_of_eq_None_iff)
  moreover have "plain_node v \<and> node_wf v" if "findNode node l = Some v" for v
    using that Cons.prems(2,3) node_wf_child by (subst (asm) plain_node_iff) (auto simp: findNode_def)
  ultimately show ?case
    using Cons.IH Cons.prems(1) by (cases "findNode node l"; cases ls) auto
qed simp

abbreviation plain_levels :: "path \<Rightarrow> bool" where
  "plain_levels ls \<equiv> list_all (\<lambda>l. l \<noteq> ''+'' \<and> l \<noteq> ''#'') ls"

lemma plain_node_empty [simp]: "plain_node (Node l [] [] [])"
  by (subst plain_node_iff) simp

lemma plain_add_path:
  "plain_node node \<Longrightarrow> plain_levels pth \<Longrightarrow> plain_node (add_path pth (set_subs g) node)"
proof (induction pth arbitrary: node)
  case Nil
  then show ?case by (subst plain_node_iff, subst (asm) plain_node_iff) simp
next
  case (Cons l ls)
  have "plain_node (addNode node l)"
    using Cons.prems(1) by (subst (asm) plain_node_iff) (auto simp: addNode_def split: option.splits)
  with Cons have "plain_node (add_path ls (set_subs g) (addNode node l))" by simp
  moreover have "l \<noteq> ''+''" "l \<noteq> ''#''" using Cons.prems(2) by simp_all
  moreover have "fst ` set (AList.update l v xs) = insert l (fst ` set xs)" for v :: topicNode and xs
    using dom_update [of l v xs] by simp
  ultimately show ?case
    using Cons.prems(1)
    by (subst plain_node_iff, subst (asm) (2) plain_node_iff) (auto simp: update_conv)
qed

text \<open>A multi-level wildcard stops the search only if something hangs below it.\<close>

lemma search_hash:
  assumes "searchNode iter node levels = Some pth" "find_path pth node = Some v"
    and "''#'' \<notin> set levels" "pth \<noteq> []" "last pth = ''#''"
  shows "n_children v \<noteq> []"
  using assms
proof (induction iter node levels arbitrary: pth rule: searchNode.induct)
  case (1 iter node)
  then show ?case
    by (auto simp: find_Some_iff stops_at_def split: option.splits)
next
  case (2 iter node l ls)
  from 2(2) obtain k where k: "find (stops_at node (l # ls)) (iter (map fst (n_children node))) = Some k"
    by (auto split: option.splits)
  then have stop: "stops_at node (l # ls) k" by (auto simp: find_Some_iff)
  show ?case
  proof (cases "(k = l \<or> k = ''+'') \<and> ls \<noteq> []")
    case True
    with 2(2) k obtain w q where q: "findNode node k = Some w" "searchNode iter w ls = Some q" "pth = k # q"
      by (auto split: option.splits)
    show ?thesis
    proof (cases "q = []")
      case False
      with 2(1) [OF k _ _ q(1,2)] True q 2(3-6) show ?thesis by auto
    qed (use q 2(4,6) True in auto)
  next
    case False
    with 2(2-6) k stop show ?thesis by (auto simp: stops_at_def split: if_splits option.splits)
  qed
qed

subsection \<open>Delivery\<close>

lemma addMessage_deliver:
  "addMessage mg iter msg p = deliver mg msg (recipients iter (m_Topic msg) p)"
  by (rule ext) (auto simp: addMessage_def recipients_def split: option.splits)

lemma tq_push_frame:
  assumes "tq_inv r s" "tq_inv r' s" "r \<noteq> r'"
  shows "tq_inv r (snd (q_Pushback mg r' m s))" "tq_elems r (snd (q_Pushback mg r' m s)) = tq_elems r s"
  using assms by (auto simp: q_Pushback_def tq_inv_def tq_elems_def split: backend.splits outcome.splits prod.splits)

lemma deliver_spec:
  assumes "\<forall>sub \<in> set subs. tq_inv (sub_queue sub) s"
  shows "fst (deliver mg msg subs s) = Ok () \<and>
    (tq_inv r s \<longrightarrow> tq_inv r (snd (deliver mg msg subs s)) \<and>
     tq_elems r (snd (deliver mg msg subs s)) =
       tq_elems r s @ map (\<lambda>sub. copy_for sub msg) (filter (\<lambda>sub. sub_queue sub = r) subs))"
  using assms
proof (induction subs arbitrary: s)
  case (Cons sub subs)
  let ?r = "sub_queue sub" and ?m = "copy_for sub msg"
  let ?s = "snd (q_Pushback mg ?r ?m s)"
  have inv: "tq_inv ?r s" using Cons.prems by simp
  note push = tq.push_law [OF inv, of mg ?m]
  have keep: "tq_inv x ?s" if "tq_inv x s" for x
    using push tq_push_frame(1) [OF that inv] by (cases "x = ?r") auto
  have run: "deliver mg msg (sub # subs) s = deliver mg msg subs ?s"
    using push by (cases "q_Pushback mg ?r ?m s") (simp add: seqM_def)
  have elems: "tq_elems r ?s = tq_elems r s @ (if ?r = r then [?m] else [])" if "tq_inv r s"
    using push tq_push_frame(2) [OF that inv] by auto
  have "\<forall>sub \<in> set subs. tq_inv (sub_queue sub) ?s" using Cons.prems keep by auto
  from Cons.IH [OF this] keep elems show ?case unfolding run by auto
qed simp

lemma set_subs_of:
  assumes "iter_ok iter" "distinct (map fst (n_subs node))"
  shows "set (subs_of iter node) = {sub. \<exists>c. map_of (n_subs node) c = Some sub}"
proof -
  have "set (iter (map fst (n_subs node))) = fst ` set (n_subs node)"
    using assms by (auto simp: iter_ok_def)
  moreover have "c \<in> fst ` set (n_subs node)" if "map_of (n_subs node) c = Some sub" for c sub
    using map_of_SomeD [OF that] by force
  ultimately show ?thesis
    unfolding subs_of_def set_map_filter by blast
qed

lemma distinct_subs_of:
  assumes "iter_ok iter" "distinct (map fst (n_subs node))"
    and "\<And>c sub. map_of (n_subs node) c = Some sub \<Longrightarrow> sub_clientID sub = c"
  shows "distinct (map sub_clientID (subs_of iter node))"
proof -
  let ?ks = "iter (map fst (n_subs node))"
  have "map sub_clientID (List.map_filter (map_of (n_subs node)) ks) =
      filter (\<lambda>k. map_of (n_subs node) k \<noteq> None) ks" for ks
    using assms(3) by (induction ks) (auto simp: List.map_filter_simps split: option.splits)
  moreover have "distinct ?ks" using assms(1,2) by (simp add: iter_ok_def)
  ultimately show ?thesis by (simp add: subs_of_def)
qed

lemma node_wf_found: "node_wf n \<Longrightarrow> find_path pth n = Some v \<Longrightarrow> node_wf v"
  by (induction pth arbitrary: n) (auto split: option.splits dest: node_wf_child)

lemma recipients_cases:
  assumes "sub \<in> set (recipients iter topic p)"
  shows "\<exists>pth node. searchNode iter (tt_root p) (topic_levels topic) = Some pth \<and>
    find_path pth (tt_root p) = Some node \<and> sub \<in> set (subs_of iter node)"
proof (cases "searchNode iter (tt_root p) (topic_levels topic)")
  case (Some pth)
  with assms show ?thesis by (cases "find_path pth (tt_root p)") (auto simp: recipients_def)
qed (use assms in \<open>simp add: recipients_def\<close>)

lemma recipients_node:
  assumes "tree_wf p" "iter_ok iter" "sub \<in> set (recipients iter topic p)"
  obtains pth where "searchNode iter (tt_root p) (topic_levels topic) = Some pth"
    "node_subs pth (tt_root p) (sub_clientID sub) = Some sub" "topic_levels (sub_topic sub) = pth"
proof -
  from recipients_cases [OF assms(3)] obtain pth node where
    pth: "searchNode iter (tt_root p) (topic_levels topic) = Some pth" and
    node: "find_path pth (tt_root p) = Some node" "sub \<in> set (subs_of iter node)"
    by blast
  have "node_wf node" using assms(1) node(1) by (auto simp: tree_wf_def intro: node_wf_found)
  then have "distinct (map fst (n_subs node))" by (subst (asm) node_wf_iff) simp
  with node set_subs_of [OF assms(2)] obtain c where "map_of (n_subs node) c = Some sub" by auto
  then have "node_subs pth (tt_root p) c = Some sub" using node(1) by (simp add: node_subs_def)
  with assms(1) pth that show thesis by (auto simp: tree_wf_def)
qed

subsection \<open>Properties\<close>

text \<open>C4. The tree stores subscriptions: after adding one it is found under its client and
  topic, after a removal it is gone, and every other client and topic is as before.\<close>

theorem subscription_roundtrip:
  "getSubscription (sub_clientID sub) (sub_topic sub) (addSubscription sub p) = Ok sub \<and>
   (\<forall>s. getSubscription c topic (snd (removeSubscription c topic p)) \<noteq> Ok s) \<and>
   (\<forall>c' topic' s. (c', topic') \<noteq> (sub_clientID sub, sub_topic sub) \<longrightarrow>
      getSubscription c' topic' (addSubscription sub p) = Ok s \<longleftrightarrow> getSubscription c' topic' p = Ok s) \<and>
   (\<forall>c' topic' s. (c', topic') \<noteq> (c, topic) \<longrightarrow>
      getSubscription c' topic' (snd (removeSubscription c topic p)) = Ok s \<longleftrightarrow>
      getSubscription c' topic' p = Ok s)"
  unfolding getSubscription_subs_at by (auto simp: tree.get_add tree.get_remove)

definition sample_sub :: "string \<Rightarrow> string \<Rightarrow> qref \<Rightarrow> subscription" where
  "sample_sub c topic r = \<lparr>sub_clientID = c, sub_topic = topic, sub_qos = 1, sub_queue = r, sub_retain = False\<rparr>"

theorem subscription_roundtrip_witness:
  "getSubscription ''c1'' ''a/b'' (addSubscription (sample_sub ''c1'' ''a/b'' 0) newSimpleTopicTree) =
     Ok (sample_sub ''c1'' ''a/b'' 0) \<and>
   (\<nexists>s. getSubscription ''c1'' ''a'' (addSubscription (sample_sub ''c1'' ''a/b'' 0) newSimpleTopicTree) = Ok s)"
proof -
  have "\<nexists>s. getSubscription ''c1'' ''a'' newSimpleTopicTree = Ok s"
    by (simp add: getSubscription_def newSimpleTopicTree_def topic_levels_def findNode_def)
  then show ?thesis
    using subscription_roundtrip [of "sample_sub ''c1'' ''a/b'' 0" newSimpleTopicTree] by (simp add: sample_sub_def)
qed


lemma iter_ok_id: "iter_ok (\<lambda>ks. ks)" and iter_ok_rev: "iter_ok rev"
  by (simp_all add: iter_ok_def)

lemmas topic_eval = topic_levels_def newSimpleTopicTree_def addSubscription_def sample_sub_def
  addNode_def findNode_def stops_at_def set_subs_def recipients_def subs_of_def
  List.map_filter_simps sample_message_def


lemma recipients_plain:
  assumes "tree_wf p" "plain_node (tt_root p)" "iter_ok iter"
  shows "set (recipients iter topic p) = {sub. \<exists>c. subs_at p c topic = Some sub}"
    "distinct (map sub_clientID (recipients iter topic p))"
proof -
  let ?ls = "topic_levels topic"
  have rec: "recipients iter topic p =
      (case find_path ?ls (tt_root p) of None \<Rightarrow> [] | Some node \<Rightarrow> subs_of iter node)"
    using search_plain [OF assms(3,2), of ?ls] assms(1) by (auto simp: recipients_def tree_wf_def)
  have node: "distinct (map fst (n_subs node)) \<and>
      (\<forall>c sub. map_of (n_subs node) c = Some sub \<longrightarrow> sub_clientID sub = c)"
    if "find_path ?ls (tt_root p) = Some node" for node
  proof -
    have "node_wf node" using assms(1) that by (auto simp: tree_wf_def intro: node_wf_found)
    then have "distinct (map fst (n_subs node))" by (subst (asm) node_wf_iff) simp
    moreover have "sub_clientID sub = c" if "map_of (n_subs node) c = Some sub" for c sub
    proof -
      have "node_subs ?ls (tt_root p) c = Some sub"
        using \<open>find_path ?ls (tt_root p) = Some node\<close> that by (simp add: node_subs_def)
      with assms(1) show ?thesis by (simp add: tree_wf_def)
    qed
    ultimately show ?thesis by blast
  qed
  show "set (recipients iter topic p) = {sub. \<exists>c. subs_at p c topic = Some sub}"
    unfolding subs_at_def node_subs_def rec
    using node set_subs_of [OF assms(3)] by (cases "find_path ?ls (tt_root p)") simp_all
  show "distinct (map sub_clientID (recipients iter topic p))"
    unfolding rec using node distinct_subs_of [OF assms(3)]
    by (cases "find_path ?ls (tt_root p)") simp_all
qed

text \<open>C2. Where no wildcard filter was entered, a published message reaches exactly the
  subscriptions to its topic, each of them once: every open transient queue grows by one copy
  for each subscription of the topic that feeds it.\<close>

theorem publish_exact:
  assumes "tree_reach p" "plain_node (tt_root p)" "iter_ok iter"
    and "\<forall>sub \<in> set (recipients iter (m_Topic msg) p). tq_inv (sub_queue sub) s" "tq_inv r s"
  shows "set (recipients iter (m_Topic msg) p) = {sub. \<exists>c. getSubscription c (m_Topic msg) p = Ok sub} \<and>
    distinct (map sub_clientID (recipients iter (m_Topic msg) p)) \<and>
    tq_elems r (snd (addMessage mg iter msg p s)) = tq_elems r s @
      map (\<lambda>sub. copy_for sub msg) (filter (\<lambda>sub. sub_queue sub = r) (recipients iter (m_Topic msg) p))"
  using recipients_plain [OF tree_reach_wf [OF assms(1)] assms(2,3)]
    deliver_spec [OF assms(4), of mg msg r] assms(5)
  by (simp add: addMessage_deliver getSubscription_subs_at)

definition one_client :: "unit qstate" where
  "one_client = snd (newQueue no_mongo ''c1'' False (newQueueService ()))"

definition one_sub :: simpleTopicTree where
  "one_sub = addSubscription (sample_sub ''c1'' ''a/b'' 0) newSimpleTopicTree"

lemma one_sub_facts:
  "tree_reach one_sub" "recipients (\<lambda>ks. ks) ''a/b'' one_sub = [sample_sub ''c1'' ''a/b'' 0]"
  "plain_node (tt_root one_sub)" "tq_inv 0 one_client" "tq_elems 0 one_client = []"
proof -
  show "tree_reach one_sub" unfolding one_sub_def by (rule tree_next [OF tree_start tree_add])
  show "recipients (\<lambda>ks. ks) ''a/b'' one_sub = [sample_sub ''c1'' ''a/b'' 0]"
    by (simp add: one_sub_def topic_eval)
  have "tt_root one_sub = Node ''root'' [(''a'', Node ''a'' [(''b'', Node ''b'' []
      [(''c1'', sample_sub ''c1'' ''a/b'' 0)] [])] [] [])] [] []"
    by (simp add: one_sub_def topic_eval)
  then show "plain_node (tt_root one_sub)"
    by (simp add: plain_node_iff [of "Node _ _ _ _"])
  have "newQueue no_mongo ''c1'' False (newQueueService ()) = (Ok 0, one_client)"
    by (simp add: one_client_def newQueue_def newQueueService_def q_alloc_def Let_def)
  from newQueue_fresh_transient [OF this]
  show "tq_inv 0 one_client" "tq_elems 0 one_client = []" by auto
qed

theorem publish_exact_witness:
  "tq_elems 0 (snd (addMessage no_mongo (\<lambda>ks. ks) sample_message one_sub one_client)) =
     [copy_for (sample_sub ''c1'' ''a/b'' 0) sample_message]"
  using publish_exact [OF one_sub_facts(1,3) iter_ok_id, of sample_message one_client 0 no_mongo]
    one_sub_facts by (simp add: sample_message_def sample_sub_def)

text \<open>All the subscriptions a published message is handed to have the same topic filter:
  where two different filters match the topic, the clients of one of them get nothing.\<close>

theorem publish_one_filter:
  assumes "tree_reach p" "iter_ok iter" "sub \<in> set (recipients iter topic p)" "sub' \<in> set (recipients iter topic p)"
  shows "sub_topic sub = sub_topic sub'"
proof -
  have wf: "tree_wf p" using assms(1) by (rule tree_reach_wf)
  from recipients_node [OF wf assms(2,3)] recipients_node [OF wf assms(2,4)]
  have "topic_levels (sub_topic sub) = topic_levels (sub_topic sub')" by (metis option.inject)
  then show ?thesis by (simp add: topic_levels_inj)
qed

definition two_subs :: simpleTopicTree where
  "two_subs = addSubscription (sample_sub ''c2'' ''+'' 1)
     (addSubscription (sample_sub ''c1'' ''a'' 0) newSimpleTopicTree)"

definition shared_subs :: simpleTopicTree where
  "shared_subs = addSubscription (sample_sub ''c2'' ''+'' 1)
     (addSubscription (sample_sub ''c1'' ''+'' 0) newSimpleTopicTree)"

theorem publish_one_filter_witness:
  "recipients (\<lambda>ks. ks) ''a'' shared_subs = [sample_sub ''c1'' ''+'' 0, sample_sub ''c2'' ''+'' 1] \<and>
   sub_topic (sample_sub ''c1'' ''+'' 0) = sub_topic (sample_sub ''c2'' ''+'' 1)"
proof -
  have "tree_reach shared_subs"
    unfolding shared_subs_def by (rule tree_next [OF tree_next [OF tree_start tree_add] tree_add])
  moreover have "recipients (\<lambda>ks. ks) ''a'' shared_subs = [sample_sub ''c1'' ''+'' 0, sample_sub ''c2'' ''+'' 1]"
    by (simp add: shared_subs_def topic_eval)
  ultimately show ?thesis
    using publish_one_filter [of shared_subs "\<lambda>ks. ks" "sample_sub ''c1'' ''+'' 0" "''a''" "sample_sub ''c2'' ''+'' 1"]
      iter_ok_id by simp
qed

text \<open>Which of two matching subscriptions gets the message depends on the order in which
  the map of children happens to be ranged over.\<close>

theorem publish_depends_on_order:
  "iter_ok (\<lambda>ks. ks) \<and> iter_ok rev \<and>
   topic_matches (topic_levels ''a'') (topic_levels ''a'') \<and> topic_matches (topic_levels ''+'') (topic_levels ''a'') \<and>
   recipients (\<lambda>ks. ks) ''a'' two_subs = [sample_sub ''c1'' ''a'' 0] \<and>
   recipients rev ''a'' two_subs = [sample_sub ''c2'' ''+'' 1]"
  using iter_ok_id iter_ok_rev by (simp add: two_subs_def topic_eval)

lemma chain_end:
  "find_path pth (add_path pth (set_subs g) (Node l [] [] [])) = Some n \<Longrightarrow> n_children n = []"
  by (induction pth arbitrary: l) (auto simp: findNode_def addNode_def)

lemma subs_of_node: "sub \<in> set (subs_of iter node) \<Longrightarrow> \<exists>c. map_of (n_subs node) c = Some sub"
  unfolding subs_of_def set_map_filter by blast

text \<open>A client that subscribes to a filter ending in the multi-level wildcard never gets
  a message through it.\<close>

theorem hash_subscription_never_delivered:
  assumes "topic_levels (sub_topic sub) = pre @ [''#'']" "''#'' \<notin> set (topic_levels (m_Topic msg))"
  shows "addMessage mg iter msg (addSubscription sub newSimpleTopicTree) s = (Ok (), s)"
proof -
  let ?p = "addSubscription sub newSimpleTopicTree" and ?f = "topic_levels (sub_topic sub)"
  have root: "tt_root ?p = add_path ?f (set_subs (AList.update (sub_clientID sub) sub)) (Node ''root'' [] [] [])"
    by (simp add: addSubscription_def newSimpleTopicTree_def)
  have "recipients iter (m_Topic msg) ?p = []"
  proof (rule ccontr)
    assume "recipients iter (m_Topic msg) ?p \<noteq> []"
    then obtain x where "x \<in> set (recipients iter (m_Topic msg) ?p)" by (meson list.set_sel(1))
    from recipients_cases [OF this] obtain pth node where
      pth: "searchNode iter (tt_root ?p) (topic_levels (m_Topic msg)) = Some pth" and
      node: "find_path pth (tt_root ?p) = Some node" "x \<in> set (subs_of iter node)"
      by blast
    from subs_of_node [OF node(2)] obtain c where "node_subs pth (tt_root ?p) c = Some x"
      using node(1) by (auto simp: node_subs_def)
    then have "pth = ?f" by (simp add: root node_subs_add_path split: if_splits)
    with assms(1) search_hash [OF pth node(1) assms(2)] have "n_children node \<noteq> []" by simp
    moreover have "n_children node = []"
      using chain_end node(1) \<open>pth = ?f\<close> unfolding root by blast
    ultimately show False by simp
  qed
  then show ?thesis by (simp add: addMessage_deliver)
qed

theorem hash_subscription_never_delivered_witness:
  "addMessage no_mongo (\<lambda>ks. ks) sample_message (addSubscription (sample_sub ''c1'' ''a/#'' 0) newSimpleTopicTree)
     one_client = (Ok (), one_client)"
  by (rule hash_subscription_never_delivered [where pre = "[''a'']"])
    (simp_all add: topic_levels_def sample_sub_def sample_message_def)

lemma delete_loop_skip:
  assumes "\<forall>m \<in> set ms. \<not> v m" "i \<le> length ms"
  shows "delete_loop v i (ms @ rest) len = delete_loop v (length ms) (ms @ rest) len"
  using assms(2)
proof (induction rule: inc_induct)
  case (step n)
  have "\<not> v ((ms @ rest) ! n)" using assms(1) step.hyps by (simp add: nth_append)
  with step show ?case by (subst delete_loop.simps) simp
qed simp

text \<open>Deleting the retained messages of a node panics where its last two are the ones to
  delete: the loop cuts the slice it ranges over.\<close>

theorem delete_two_panics:
  assumes "\<forall>m \<in> set ms. \<not> v m" "v m1" "v m2"
  shows "delete_loop v 0 (ms @ [m1, m2]) (length (ms @ [m1, m2])) = Panic"
proof -
  have "delete_loop v 0 (ms @ [m1, m2]) (length (ms @ [m1, m2])) =
      delete_loop v (length ms) (ms @ [m1, m2]) (length ms + 2)"
    using delete_loop_skip [OF assms(1), of 0] by simp
  also have "\<dots> = delete_loop v (length ms + 1) (ms @ [m2, m2]) (length ms + 1)"
    using assms(2) by (subst delete_loop.simps) simp
  also have "\<dots> = Panic"
    using assms(3) by (subst delete_loop.simps) (simp add: nth_append)
  finally show ?thesis .
qed

theorem delete_two_panics_witness:
  "delete_loop (\<lambda>m. m_Qos m = 1) 0 ([] @ [sample_message, sample_message])
     (length ([] @ [sample_message, sample_message])) = Panic"
  by (rule delete_two_panics) (simp_all add: sample_message_def)

end
