(* ===== verification/Go_Json.thy ===== *)
theory Go_Json
  imports Sentel_Prelude
begin

text \<open>
  What the code uses of Go's \<^verbatim>\<open>encoding/json\<close>. A JSON text is represented by its value: an
  object is the list of its members in the order of the text. Writing a string replaces the
  bytes that are not UTF-8, writing a byte slice gives its base64 text, and reading a struct
  takes the members whose name matches a field up to case, the last one winning, leaves the
  fields without a member at their zero value, and fails on a member of another type.
\<close>

subsection \<open>UTF-8\<close>

abbreviation (input) is_cont :: "char \<Rightarrow> bool" where
  "is_cont c \<equiv> 128 \<le> (of_char c :: nat) \<and> (of_char c :: nat) \<le> 191"

abbreviation (input) in_range :: "nat \<Rightarrow> nat \<Rightarrow> char \<Rightarrow> bool" where
  "in_range lo hi c \<equiv> lo \<le> (of_char c :: nat) \<and> (of_char c :: nat) \<le> hi"

text \<open>The number of bytes of the character a string starts with, 0 if it starts with none.\<close>

fun rune_len :: "string \<Rightarrow> nat" where
  "rune_len [] = 0"
| "rune_len (a # s) =
    (if (of_char a :: nat) < 128 then 1
     else case s of
       [] \<Rightarrow> 0
     | b # s' \<Rightarrow>
       (if in_range 194 223 a \<and> is_cont b then 2
        else case s' of
          [] \<Rightarrow> 0
        | c # s'' \<Rightarrow>
          (if (in_range 224 224 a \<and> in_range 160 191 b \<or> in_range 225 236 a \<and> is_cont b \<or>
               in_range 237 237 a \<and> in_range 128 159 b \<or> in_range 238 239 a \<and> is_cont b) \<and> is_cont c
           then 3
           else case s'' of
             [] \<Rightarrow> 0
           | d # _ \<Rightarrow>
             (if (in_range 240 240 a \<and> in_range 144 191 b \<or> in_range 241 243 a \<and> is_cont b \<or>
                  in_range 244 244 a \<and> in_range 128 143 b) \<and> is_cont c \<and> is_cont d
              then 4 else 0))))"

function json_string :: "string \<Rightarrow> string" where
  "json_string [] = []"
| "json_string (a # s) =
     (let n = rune_len (a # s) in
      if n = 0 then [CHR 0xEF, CHR 0xBF, CHR 0xBD] @ json_string s
      else take n (a # s) @ json_string (drop n (a # s)))"
  by pat_completeness auto
termination by (relation "measure length") auto

abbreviation ascii :: "string \<Rightarrow> bool" where
  "ascii s \<equiv> list_all (\<lambda>c. (of_char c :: nat) < 128) s"

lemma json_string_ascii: "ascii s \<Longrightarrow> json_string s = s"
  by (induction s) auto

subsection \<open>Base64\<close>

definition b64_digits :: string where
  "b64_digits = ''ABCDEFGHIJKLMNOPQRSTUVWXYZabcdefghijklmnopqrstuvwxyz0123456789+/''"

definition b64_char :: "nat \<Rightarrow> char" where
  "b64_char n = b64_digits ! n"

fun index_of :: "'a \<Rightarrow> 'a list \<Rightarrow> nat option" where
  "index_of x [] = None"
| "index_of x (y # ys) = (if x = y then Some 0 else map_option Suc (index_of x ys))"

definition b64_value :: "char \<Rightarrow> nat option" where
  "b64_value c = index_of c b64_digits"

definition sextet1 :: "byte \<Rightarrow> nat" where "sextet1 a = unat a div 4"
definition sextet2 :: "byte \<Rightarrow> byte \<Rightarrow> nat" where "sextet2 a b = unat a mod 4 * 16 + unat b div 16"
definition sextet3 :: "byte \<Rightarrow> byte \<Rightarrow> nat" where "sextet3 b c = unat b mod 16 * 4 + unat c div 64"
definition sextet4 :: "byte \<Rightarrow> nat" where "sextet4 c = unat c mod 64"

definition octet1 :: "nat \<Rightarrow> nat \<Rightarrow> byte" where "octet1 w x = word_of_nat (w * 4 + x div 16)"
definition octet2 :: "nat \<Rightarrow> nat \<Rightarrow> byte" where "octet2 x y = word_of_nat (x mod 16 * 16 + y div 4)"
definition octet3 :: "nat \<Rightarrow> nat \<Rightarrow> byte" where "octet3 y z = word_of_nat (y mod 4 * 64 + z)"

fun b64_encode :: "bytes \<Rightarrow> string" where
  "b64_encode [] = []"
| "b64_encode [a] = [b64_char (sextet1 a), b64_char (sextet2 a 0), CHR ''='', CHR ''='']"
| "b64_encode [a, b] = [b64_char (sextet1 a), b64_char (sextet2 a b), b64_char (sextet3 b 0), CHR ''='']"
| "b64_encode (a # b # c # bs) =
     b64_char (sextet1 a) # b64_char (sextet2 a b) # b64_char (sextet3 b c) # b64_char (sextet4 c) # b64_encode bs"

text \<open>Decoding, after the line breaks are dropped: padding only in the last group.\<close>

fun b64_groups :: "string \<Rightarrow> bytes option" where
  "b64_groups [] = Some []"
| "b64_groups (p # q # r # s # cs) =
    (case (b64_value p, b64_value q) of
       (Some w, Some x) \<Rightarrow>
         (if r = CHR ''='' \<and> s = CHR ''='' \<and> cs = [] then Some [octet1 w x]
          else case b64_value r of
            None \<Rightarrow> None
          | Some y \<Rightarrow>
            (if s = CHR ''='' \<and> cs = [] then Some [octet1 w x, octet2 x y]
             else case b64_value s of
               None \<Rightarrow> None
             | Some z \<Rightarrow> map_option (\<lambda>bs. octet1 w x # octet2 x y # octet3 y z # bs) (b64_groups cs)))
     | _ \<Rightarrow> None)"
| "b64_groups _ = None"

definition b64_decode :: "string \<Rightarrow> bytes option" where
  "b64_decode s = b64_groups (filter (\<lambda>c. c \<noteq> CHR 0x0A \<and> c \<noteq> CHR 0x0D) s)"

lemma index_of_nth: "distinct xs \<Longrightarrow> n < length xs \<Longrightarrow> index_of (xs ! n) xs = Some n"
proof (induction xs arbitrary: n)
  case (Cons x xs)
  then show ?case by (cases n) auto
qed simp

lemma b64_digits_facts: "distinct b64_digits" "length b64_digits = 64"
  "CHR ''='' \<notin> set b64_digits" "CHR 0x0A \<notin> set b64_digits" "CHR 0x0D \<notin> set b64_digits"
  by (simp_all add: b64_digits_def)

lemma b64_value_char [simp]: "n < 64 \<Longrightarrow> b64_value (b64_char n) = Some n"
  by (simp add: b64_value_def b64_char_def index_of_nth b64_digits_facts)

lemma b64_char_plain [simp]:
  assumes "n < 64"
  shows "b64_char n \<noteq> CHR ''=''" "b64_char n \<noteq> CHR 0x0A" "b64_char n \<noteq> CHR 0x0D"
proof -
  have "b64_char n \<in> set b64_digits"
    using assms by (simp add: b64_char_def b64_digits_facts)
  then show "b64_char n \<noteq> CHR ''=''" "b64_char n \<noteq> CHR 0x0A" "b64_char n \<noteq> CHR 0x0D"
    using b64_digits_facts by metis+
qed

lemma byte_bound: "unat (a :: byte) < 256"
  using unsigned_less [of a] by simp

lemma sextets [simp]: "sextet1 a < 64" "sextet2 a b < 64" "sextet3 a b < 64" "sextet4 a < 64"
proof -
  have "unat a div 4 < 64" "unat b div 16 < 16" "unat b div 64 < 4"
    using byte_bound [of a] byte_bound [of b] by simp_all
  moreover have "unat a mod 4 < 4" "unat a mod 16 < 16" "unat a mod 64 < 64" by simp_all
  ultimately show "sextet1 a < 64" "sextet2 a b < 64" "sextet3 a b < 64" "sextet4 a < 64"
    unfolding sextet1_def sextet2_def sextet3_def sextet4_def by linarith+
qed

lemma digit_split: "y < k \<Longrightarrow> (m * k + y) div k = (m::nat)" "y < k \<Longrightarrow> (m * k + y) mod k = (y::nat)"
  by simp_all

lemma octets [simp]: "octet1 (sextet1 a) (sextet2 a b) = a" "octet2 (sextet2 a b) (sextet3 b c) = b"
  "octet3 (sextet3 b c) (sextet4 c) = c"
proof -
  have b: "unat b div 16 < 16" and c: "unat c div 64 < 4"
    using byte_bound [of b] byte_bound [of c] by simp_all
  show "octet1 (sextet1 a) (sextet2 a b) = a" "octet2 (sextet2 a b) (sextet3 b c) = b"
    "octet3 (sextet3 b c) (sextet4 c) = c"
    unfolding sextet1_def sextet2_def sextet3_def sextet4_def octet1_def octet2_def octet3_def
    by (simp_all only: digit_split [OF b] digit_split [OF c] div_mult_mod_eq of_nat_unat ucast_id)
qed

lemma b64_groups_encode: "b64_groups (b64_encode bs) = Some bs"
  by (induction bs rule: b64_encode.induct) simp_all

lemma b64_encode_no_breaks: "filter (\<lambda>c. c \<noteq> CHR 0x0A \<and> c \<noteq> CHR 0x0D) (b64_encode bs) = b64_encode bs"
  by (induction bs rule: b64_encode.induct) simp_all

lemma b64_roundtrip [simp]: "b64_decode (b64_encode bs) = Some bs"
  by (simp add: b64_decode_def b64_encode_no_breaks b64_groups_encode)

subsection \<open>Values\<close>

datatype json = JNull | JBool bool | JNum int | JFrac string | JStr string | JArr "json list"
  | JObj "(string \<times> json) list"

definition j_str :: "string \<Rightarrow> json" where
  "j_str s = JStr (json_string s)"

definition j_bytes :: "bytes \<Rightarrow> json" where
  "j_bytes b = JStr (b64_encode b)"

definition j_word :: "'w::len word \<Rightarrow> json" where
  "j_word w = JNum (uint w)"

text \<open>Member names are compared up to the case of ASCII letters; the Kelvin sign and the long
  s are the two other characters that fold to letters.\<close>

definition upper_char :: "char \<Rightarrow> char" where
  "upper_char a = (if in_range 97 122 a
     then case a of Char b0 b1 b2 b3 b4 b5 b6 b7 \<Rightarrow> Char b0 b1 b2 b3 b4 False b6 b7 else a)"

fun fold_name :: "string \<Rightarrow> string" where
  "fold_name [] = []"
| "fold_name (a # s) =
    (case s of
       b # c # s' \<Rightarrow>
        (if a = CHR 0xE2 \<and> b = CHR 0x84 \<and> c = CHR 0xAA then CHR ''K'' # fold_name s'
         else if a = CHR 0xC5 \<and> b = CHR 0xBF then CHR ''S'' # fold_name (c # s')
         else upper_char a # fold_name s)
     | [b] \<Rightarrow>
        (if a = CHR 0xC5 \<and> b = CHR 0xBF then [CHR ''S'']
         else upper_char a # fold_name s)
     | [] \<Rightarrow> [upper_char a])"

definition members :: "string \<Rightarrow> json \<Rightarrow> json list" where
  "members k j = (case j of JObj ms \<Rightarrow> map snd (filter (\<lambda>m. fold_name (fst m) = fold_name k) ms) | _ \<Rightarrow> [])"

definition read_member :: "(json \<Rightarrow> 'a \<Rightarrow> 'a option) \<Rightarrow> 'a \<Rightarrow> string \<Rightarrow> json \<Rightarrow> 'a option" where
  "read_member f zero k j = foldl (\<lambda>acc v. Option.bind acc (f v)) (Some zero) (members k j)"

fun as_str :: "json \<Rightarrow> string \<Rightarrow> string option" where
  "as_str JNull a = Some a"
| "as_str (JStr s) a = Some s"
| "as_str _ a = None"

fun as_bool :: "json \<Rightarrow> bool \<Rightarrow> bool option" where
  "as_bool JNull a = Some a"
| "as_bool (JBool b) a = Some b"
| "as_bool _ a = None"

fun as_bytes :: "json \<Rightarrow> bytes \<Rightarrow> bytes option" where
  "as_bytes JNull a = Some []"
| "as_bytes (JStr s) a = b64_decode s"
| "as_bytes _ a = None"

fun as_word :: "json \<Rightarrow> 'w::len word \<Rightarrow> 'w word option" where
  "as_word JNull a = Some a"
| "as_word (JNum n) a = (if 0 \<le> n \<and> n < 2 ^ LENGTH('w) then Some (word_of_int n) else None)"
| "as_word _ a = None"

abbreviation get_str :: "string \<Rightarrow> json \<Rightarrow> string option" where "get_str \<equiv> read_member as_str []"
abbreviation get_bool :: "string \<Rightarrow> json \<Rightarrow> bool option" where "get_bool \<equiv> read_member as_bool False"
abbreviation get_bytes :: "string \<Rightarrow> json \<Rightarrow> bytes option" where "get_bytes \<equiv> read_member as_bytes []"
abbreviation get_word :: "string \<Rightarrow> json \<Rightarrow> 'w::len word option" where "get_word \<equiv> read_member as_word 0"

fun is_struct :: "json \<Rightarrow> bool" where
  "is_struct (JObj _) = True"
| "is_struct JNull = True"
| "is_struct _ = False"

subsection \<open>Reading what was written\<close>

lemma members_Cons [simp]:
  "members k (JObj ((k', v) # ms)) = (if fold_name k' = fold_name k then v # members k (JObj ms) else members k (JObj ms))"
  "members k (JObj []) = []"
  by (simp_all add: members_def)

declare fold_name.simps [simp del]

lemma as_written [simp]:
  "as_str (j_str s) a = Some (json_string s)" "as_bytes (j_bytes b) c = Some b"
  "as_word (j_word w) v = Some w"
  by (simp_all add: j_str_def j_bytes_def j_word_def)

end
