(* ===== verification/Broker_Event.thy ===== *)
theory Broker_Event
  imports Go_Json "HOL-Library.Monad_Syntax"
begin

text \<open>
  The event bus of the broker (\<^verbatim>\<open>src/broker/event\<close>): the event types, their JSON
  form, the local dispatch to subscribers and the exchange with other brokers. Handlers are
  identified by numbers, and a dispatch is the list of calls it makes. The payload of a message
  between brokers is the value of the JSON text it holds, and \<open>None\<close> if it holds none.
\<close>

subsection \<open>Events\<close>

record TopicFlavor =
  tf_FlavorName :: string
  tf_Builtin :: bool
  tf_TenantId :: string
  tf_Topics :: "(string \<times> byte) list"

record SessionEvent =
  se_BrokerId :: string
  se_Type :: "32 word"
  se_ClientId :: string
  se_Persistent :: bool
  se_Retain :: bool

record SessionResumeEvent =
  sr_BrokerId :: string
  sr_Type :: "32 word"
  sr_ClientId :: string

record TopicSubscribeEvent =
  ts_BrokerID :: string
  ts_Type :: "32 word"
  ts_ClientID :: string
  ts_Persistent :: bool
  ts_Topic :: string
  ts_Qos :: byte
  ts_Data :: bytes
  ts_Retain :: bool

record TopicUnsubscribeEvent =
  tu_BrokerID :: string
  tu_Type :: "32 word"
  tu_ClientID :: string
  tu_Persistent :: bool
  tu_Topic :: string
  tu_Data :: bytes

record TopicPublishEvent =
  tp_BrokerID :: string
  tp_Type :: "32 word"
  tp_ClientID :: string
  tp_ProductID :: string
  tp_Persistent :: bool
  tp_ID :: "16 word"
  tp_Topic :: string
  tp_Payload :: bytes
  tp_Qos :: byte
  tp_Direction :: byte
  tp_Retain :: bool
  tp_Dup :: bool

record QutoChangeEvent =
  qc_BrokerId :: string
  qc_Type :: "32 word"
  qc_ClientId :: string
  qc_Persistent :: bool
  qc_QutoId :: string

record AuthChangeEvent =
  ac_BrokerID :: string
  ac_Type :: "32 word"
  ac_ClientID :: string
  ac_Persistent :: bool
  ac_ProductID :: string
  ac_TopicFlavor :: TopicFlavor

datatype event =
    SessionCreate SessionEvent
  | SessionDestroy SessionEvent
  | TopicPublish TopicPublishEvent
  | TopicSubscribe TopicSubscribeEvent
  | TopicUnsubscribe TopicUnsubscribeEvent
  | QutoChange QutoChangeEvent
  | SessionResume SessionResumeEvent
  | AuthChange AuthChangeEvent

fun GetType :: "event \<Rightarrow> 32 word" where
  "GetType (SessionCreate _) = 1"
| "GetType (SessionDestroy _) = 2"
| "GetType (TopicPublish _) = 3"
| "GetType (TopicSubscribe _) = 4"
| "GetType (TopicUnsubscribe _) = 5"
| "GetType (QutoChange _) = 6"
| "GetType (SessionResume _) = 7"
| "GetType (AuthChange _) = 8"

fun GetBrokerId :: "event \<Rightarrow> string" where
  "GetBrokerId (SessionCreate e) = se_BrokerId e"
| "GetBrokerId (SessionDestroy e) = se_BrokerId e"
| "GetBrokerId (TopicPublish e) = tp_BrokerID e"
| "GetBrokerId (TopicSubscribe e) = ts_BrokerID e"
| "GetBrokerId (TopicUnsubscribe e) = tu_BrokerID e"
| "GetBrokerId (QutoChange e) = qc_BrokerId e"
| "GetBrokerId (SessionResume e) = sr_BrokerId e"
| "GetBrokerId (AuthChange e) = ac_BrokerID e"

fun SetBrokerId :: "string \<Rightarrow> event \<Rightarrow> event" where
  "SetBrokerId b (SessionCreate e) = SessionCreate (e\<lparr>se_BrokerId := b\<rparr>)"
| "SetBrokerId b (SessionDestroy e) = SessionDestroy (e\<lparr>se_BrokerId := b\<rparr>)"
| "SetBrokerId b (TopicPublish e) = TopicPublish (e\<lparr>tp_BrokerID := b\<rparr>)"
| "SetBrokerId b (TopicSubscribe e) = TopicSubscribe (e\<lparr>ts_BrokerID := b\<rparr>)"
| "SetBrokerId b (TopicUnsubscribe e) = TopicUnsubscribe (e\<lparr>tu_BrokerID := b\<rparr>)"
| "SetBrokerId b (QutoChange e) = QutoChange (e\<lparr>qc_BrokerId := b\<rparr>)"
| "SetBrokerId b (SessionResume e) = SessionResume (e\<lparr>sr_BrokerId := b\<rparr>)"
| "SetBrokerId b (AuthChange e) = AuthChange (e\<lparr>ac_BrokerID := b\<rparr>)"

fun GetClientId :: "event \<Rightarrow> string" where
  "GetClientId (SessionCreate e) = se_ClientId e"
| "GetClientId (SessionDestroy e) = se_ClientId e"
| "GetClientId (TopicPublish e) = tp_ClientID e"
| "GetClientId (TopicSubscribe e) = ts_ClientID e"
| "GetClientId (TopicUnsubscribe e) = tu_ClientID e"
| "GetClientId (QutoChange e) = qc_ClientId e"
| "GetClientId (SessionResume e) = sr_ClientId e"
| "GetClientId (AuthChange e) = ac_ClientID e"

definition NameOfEvent :: "32 word \<Rightarrow> string" where
  "NameOfEvent t =
     (if t = 1 then ''SessionCreate''
      else if t = 2 then ''SessionDestroy''
      else if t = 3 then ''TopicPublish''
      else if t = 4 then ''TopicSubscribe''
      else if t = 5 then ''TopicUnsubscribe''
      else if t = 6 then ''QutoChange''
      else if t = 7 then ''SessionResume''
      else if t = 8 then ''AuthChange''
      else ''Unknown'')"

subsection \<open>JSON\<close>

fun marshal :: "event \<Rightarrow> json" where
  "marshal (SessionCreate e) = JObj [(''brokerId'', j_str (se_BrokerId e)), (''type'', j_word (se_Type e)),
     (''clientId'', j_str (se_ClientId e)), (''persistent'', JBool (se_Persistent e)), (''retain'', JBool (se_Retain e))]"
| "marshal (SessionDestroy e) = JObj [(''brokerId'', j_str (se_BrokerId e)), (''type'', j_word (se_Type e)),
     (''clientId'', j_str (se_ClientId e)), (''persistent'', JBool (se_Persistent e)), (''retain'', JBool (se_Retain e))]"
| "marshal (TopicPublish e) = JObj [(''brokerId'', j_str (tp_BrokerID e)), (''type'', j_word (tp_Type e)),
     (''clientId'', j_str (tp_ClientID e)), (''productId'', j_str (tp_ProductID e)), (''persistent'', JBool (tp_Persistent e)),
     (''id'', j_word (tp_ID e)), (''topic'', j_str (tp_Topic e)), (''data'', j_bytes (tp_Payload e)),
     (''qos'', j_word (tp_Qos e)), (''direction'', j_word (tp_Direction e)),
     (''retain'', JBool (tp_Retain e)), (''dup'', JBool (tp_Dup e))]"
| "marshal (TopicSubscribe e) = JObj [(''brokerId'', j_str (ts_BrokerID e)), (''type'', j_word (ts_Type e)),
     (''clientId'', j_str (ts_ClientID e)), (''persistent'', JBool (ts_Persistent e)), (''topic'', j_str (ts_Topic e)),
     (''qos'', j_word (ts_Qos e)), (''data'', j_bytes (ts_Data e)), (''retain'', JBool (ts_Retain e))]"
| "marshal (TopicUnsubscribe e) = JObj [(''brokerId'', j_str (tu_BrokerID e)), (''type'', j_word (tu_Type e)),
     (''clientId'', j_str (tu_ClientID e)), (''persistent'', JBool (tu_Persistent e)), (''topic'', j_str (tu_Topic e)),
     (''data'', j_bytes (tu_Data e))]"
| "marshal (QutoChange e) = JObj [(''brokerId'', j_str (qc_BrokerId e)), (''type'', j_word (qc_Type e)),
     (''clientId'', j_str (qc_ClientId e)), (''persistent'', JBool (qc_Persistent e)), (''qutoId'', j_str (qc_QutoId e))]"
| "marshal (SessionResume e) = JObj [(''brokerId'', j_str (sr_BrokerId e)), (''type'', j_word (sr_Type e)),
     (''clientId'', j_str (sr_ClientId e))]"
| "marshal (AuthChange e) = JObj [(''brokerId'', j_str (ac_BrokerID e)), (''type'', j_word (ac_Type e)),
     (''clientId'', j_str (ac_ClientID e)), (''persistent'', JBool (ac_Persistent e)), (''productId'', j_str (ac_ProductID e)),
     (''topicFlavor'', JObj [(''flavorName'', j_str (tf_FlavorName (ac_TopicFlavor e))),
        (''bultin'', JBool (tf_Builtin (ac_TopicFlavor e))), (''tenantId'', j_str (tf_TenantId (ac_TopicFlavor e))),
        (''topic'', JObj (map (\<lambda>(t, r). (json_string t, j_word r)) (tf_Topics (ac_TopicFlavor e))))])]"

definition unmarshal_session :: "json \<Rightarrow> SessionEvent option" where
  "unmarshal_session j = do {
     _ \<leftarrow> (if is_struct j then Some () else None);
     v0 \<leftarrow> get_str ''brokerId'' j;
     v1 \<leftarrow> get_word ''type'' j;
     v2 \<leftarrow> get_str ''clientId'' j;
     v3 \<leftarrow> get_bool ''persistent'' j;
     v4 \<leftarrow> get_bool ''retain'' j;
     Some \<lparr>se_BrokerId = v0, se_Type = v1, se_ClientId = v2, se_Persistent = v3, se_Retain = v4\<rparr> }"

definition unmarshal_subscribe :: "json \<Rightarrow> TopicSubscribeEvent option" where
  "unmarshal_subscribe j = do {
     _ \<leftarrow> (if is_struct j then Some () else None);
     v0 \<leftarrow> get_str ''brokerId'' j;
     v1 \<leftarrow> get_word ''type'' j;
     v2 \<leftarrow> get_str ''clientId'' j;
     v3 \<leftarrow> get_bool ''persistent'' j;
     v4 \<leftarrow> get_str ''topic'' j;
     v5 \<leftarrow> get_word ''qos'' j;
     v6 \<leftarrow> get_bytes ''data'' j;
     v7 \<leftarrow> get_bool ''retain'' j;
     Some \<lparr>ts_BrokerID = v0, ts_Type = v1, ts_ClientID = v2, ts_Persistent = v3, ts_Topic = v4, ts_Qos = v5, ts_Data = v6, ts_Retain = v7\<rparr> }"

definition unmarshal_unsubscribe :: "json \<Rightarrow> TopicUnsubscribeEvent option" where
  "unmarshal_unsubscribe j = do {
     _ \<leftarrow> (if is_struct j then Some () else None);
     v0 \<leftarrow> get_str ''brokerId'' j;
     v1 \<leftarrow> get_word ''type'' j;
     v2 \<leftarrow> get_str ''clientId'' j;
     v3 \<leftarrow> get_bool ''persistent'' j;
     v4 \<leftarrow> get_str ''topic'' j;
     v5 \<leftarrow> get_bytes ''data'' j;
     Some \<lparr>tu_BrokerID = v0, tu_Type = v1, tu_ClientID = v2, tu_Persistent = v3, tu_Topic = v4, tu_Data = v5\<rparr> }"

definition unmarshal_publish :: "json \<Rightarrow> TopicPublishEvent option" where
  "unmarshal_publish j = do {
     _ \<leftarrow> (if is_struct j then Some () else None);
     v0 \<leftarrow> get_str ''brokerId'' j;
     v1 \<leftarrow> get_word ''type'' j;
     v2 \<leftarrow> get_str ''clientId'' j;
     v3 \<leftarrow> get_str ''productId'' j;
     v4 \<leftarrow> get_bool ''persistent'' j;
     v5 \<leftarrow> get_word ''id'' j;
     v6 \<leftarrow> get_str ''topic'' j;
     v7 \<leftarrow> get_bytes ''data'' j;
     v8 \<leftarrow> get_word ''qos'' j;
     v9 \<leftarrow> get_word ''direction'' j;
     v10 \<leftarrow> get_bool ''retain'' j;
     v11 \<leftarrow> get_bool ''dup'' j;
     Some \<lparr>tp_BrokerID = v0, tp_Type = v1, tp_ClientID = v2, tp_ProductID = v3, tp_Persistent = v4, tp_ID = v5, tp_Topic = v6, tp_Payload = v7, tp_Qos = v8, tp_Direction = v9, tp_Retain = v10, tp_Dup = v11\<rparr> }"

subsection \<open>Messages between brokers\<close>

record BrokerMsg =
  bm_TopicName :: string
  bm_EventType :: "32 word"
  bm_Payload :: "json option"

datatype event_error = ErrEventType "32 word" | ErrUnmarshal

definition decoded_as :: "(json \<Rightarrow> 'a option) \<Rightarrow> ('a \<Rightarrow> event) \<Rightarrow> json option \<Rightarrow> (event_error, event) outcome" where
  "decoded_as f wrap payload = (case Option.bind payload f of None \<Rightarrow> Err ErrUnmarshal | Some e \<Rightarrow> Ok (wrap e))"

definition Decode :: "BrokerMsg \<Rightarrow> (event_error, event) outcome" where
  "Decode re =
     (if bm_EventType re = 1 then decoded_as unmarshal_session SessionCreate (bm_Payload re)
      else if bm_EventType re = 2 then decoded_as unmarshal_session SessionDestroy (bm_Payload re)
      else if bm_EventType re = 4 then decoded_as unmarshal_subscribe TopicSubscribe (bm_Payload re)
      else if bm_EventType re = 5 then decoded_as unmarshal_unsubscribe TopicUnsubscribe (bm_Payload re)
      else if bm_EventType re = 3 then decoded_as unmarshal_publish TopicPublish (bm_Payload re)
      else Err (ErrEventType (bm_EventType re)))"

definition Encode :: "event \<Rightarrow> json" where
  "Encode e = JObj [(''type'', j_word (GetType e)), (''payload'', marshal e)]"

subsection \<open>The event service\<close>

type_synonym handler = nat

record eventService =
  es_brokerId :: string
  es_tenant :: string
  es_subscribers :: "32 word \<Rightarrow> handler list option"
  es_published :: "BrokerMsg list"

definition newEventService :: "string \<Rightarrow> string \<Rightarrow> eventService" where
  "newEventService brokerId tenant =
     \<lparr>es_brokerId = brokerId, es_tenant = tenant, es_subscribers = (\<lambda>_. None), es_published = []\<rparr>"

definition nameOfEventBus :: "eventService \<Rightarrow> event \<Rightarrow> string" where
  "nameOfEventBus p e =
     (if GetType e \<in> {1, 2, 3, 4, 5}
      then ''iot-'' @ es_tenant p @ ''-event-mqtt''
      else ''iot-'' @ es_tenant p @ ''-event-broker'')"

definition es_subscribe :: "32 word \<Rightarrow> handler \<Rightarrow> eventService \<Rightarrow> eventService" where
  "es_subscribe t h p =
     (let l = (case es_subscribers p t of None \<Rightarrow> [] | Some l \<Rightarrow> l) in
      p\<lparr>es_subscribers := (es_subscribers p)(t \<mapsto> l @ [h])\<rparr>)"

definition dispatch :: "eventService \<Rightarrow> event \<Rightarrow> (handler \<times> event) list" where
  "dispatch p e = (case es_subscribers p (GetType e) of
      None \<Rightarrow> []
    | Some hs \<Rightarrow> map (\<lambda>h. (h, e)) hs)"

definition messageHandlerFunc :: "eventService \<Rightarrow> BrokerMsg \<Rightarrow> (handler \<times> event) list" where
  "messageHandlerFunc p msg = (case Decode msg of
      Ok e \<Rightarrow> if GetBrokerId e \<noteq> es_brokerId p then dispatch p e else []
    | _ \<Rightarrow> [])"

definition publishMsg :: "string \<Rightarrow> event \<Rightarrow> eventService \<Rightarrow> eventService" where
  "publishMsg topic e p =
     p\<lparr>es_published := es_published p @ [\<lparr>bm_TopicName = topic, bm_EventType = 0, bm_Payload = Some (Encode e)\<rparr>]\<rparr>"

text \<open>\<^verbatim>\<open>Notify\<close> and the turn of the service's loop that takes the event.\<close>

definition Notify :: "event \<Rightarrow> eventService \<Rightarrow> (handler \<times> event) list \<times> eventService" where
  "Notify e p = (let e' = SetBrokerId (es_brokerId p) e in
     (dispatch p e', publishMsg (nameOfEventBus p e') e' p))"

subsection \<open>Lemmas\<close>

text \<open>The member names of the events, folded.\<close>

lemma event_names [simp]:
  "fold_name ''brokerId'' = ''BROKERID''" "fold_name ''type'' = ''TYPE''"
  "fold_name ''clientId'' = ''CLIENTID''" "fold_name ''persistent'' = ''PERSISTENT''"
  "fold_name ''retain'' = ''RETAIN''" "fold_name ''topic'' = ''TOPIC''"
  "fold_name ''qos'' = ''QOS''" "fold_name ''data'' = ''DATA''"
  "fold_name ''productId'' = ''PRODUCTID''" "fold_name ''id'' = ''ID''"
  "fold_name ''direction'' = ''DIRECTION''" "fold_name ''dup'' = ''DUP''"
  by (simp_all add: fold_name.simps upper_char_def)

lemma SetBrokerId_simps [simp]:
  "GetType (SetBrokerId b e) = GetType e" "GetBrokerId (SetBrokerId b e) = b"
  "GetClientId (SetBrokerId b e) = GetClientId e"
  by (cases e; simp)+

subsection \<open>Properties\<close>

text \<open>The strings an event carries, which JSON keeps only if they are UTF-8.\<close>

fun event_strings :: "event \<Rightarrow> string list" where
  "event_strings (SessionCreate e) = [se_BrokerId e, se_ClientId e]"
| "event_strings (SessionDestroy e) = [se_BrokerId e, se_ClientId e]"
| "event_strings (TopicPublish e) = [tp_BrokerID e, tp_ClientID e, tp_ProductID e, tp_Topic e]"
| "event_strings (TopicSubscribe e) = [ts_BrokerID e, ts_ClientID e, ts_Topic e]"
| "event_strings (TopicUnsubscribe e) = [tu_BrokerID e, tu_ClientID e, tu_Topic e]"
| "event_strings (QutoChange e) = [qc_BrokerId e, qc_ClientId e, qc_QutoId e]"
| "event_strings (SessionResume e) = [sr_BrokerId e, sr_ClientId e]"
| "event_strings (AuthChange e) = [ac_BrokerID e, ac_ClientID e, ac_ProductID e]"

lemmas unmarshal_defs = unmarshal_session_def unmarshal_subscribe_def unmarshal_unsubscribe_def
  unmarshal_publish_def decoded_as_def read_member_def

text \<open>The JSON form of the five event types that brokers exchange is read back to the
  same event, given that its strings are UTF-8 and that the message carries its type.\<close>

theorem event_json_roundtrip:
  assumes "GetType e \<in> {1, 2, 3, 4, 5}" "map json_string (event_strings e) = event_strings e"
  shows "Decode \<lparr>bm_TopicName = topic, bm_EventType = GetType e, bm_Payload = Some (marshal e)\<rparr> = Ok e"
  using assms by (cases e) (simp_all add: Decode_def unmarshal_defs)

definition sample_publish :: TopicPublishEvent where
  "sample_publish = \<lparr>tp_BrokerID = ''b1'', tp_Type = 0, tp_ClientID = ''c1'', tp_ProductID = ''p'',
     tp_Persistent = False, tp_ID = 0, tp_Topic = ''a/b'', tp_Payload = [1], tp_Qos = 1,
     tp_Direction = 0, tp_Retain = False, tp_Dup = False\<rparr>"

theorem event_json_roundtrip_witness:
  "Decode \<lparr>bm_TopicName = ''t'', bm_EventType = GetType (TopicPublish sample_publish),
     bm_Payload = Some (marshal (TopicPublish sample_publish))\<rparr> = Ok (TopicPublish sample_publish)"
  by (rule event_json_roundtrip) (simp_all add: sample_publish_def json_string_ascii)

text \<open>An event notified on a broker is handed to every local subscriber of its type once,
  in the order of subscription and with the broker's identifier, and one message goes to the
  bus.\<close>

theorem notify_dispatches:
  "fst (Notify e p) = map (\<lambda>h. (h, SetBrokerId (es_brokerId p) e))
     (case es_subscribers p (GetType e) of None \<Rightarrow> [] | Some hs \<Rightarrow> hs) \<and>
   length (es_published (snd (Notify e p))) = Suc (length (es_published p)) \<and>
   es_subscribers (snd (Notify e p)) = es_subscribers p"
  by (simp add: Notify_def dispatch_def publishMsg_def Let_def split: option.splits)

text \<open>No event reaches the subscribers of another broker: the message the bus carries
  for a notified event is refused by every broker that receives it.\<close>

theorem remote_events_lost:
  assumes "msg \<in> set (es_published (snd (Notify e (newEventService b tenant))))"
  shows "messageHandlerFunc q msg = []"
  using assms by (simp add: Notify_def publishMsg_def newEventService_def messageHandlerFunc_def
      Decode_def Let_def)

theorem remote_events_lost_witness:
  "\<exists>msg. msg \<in> set (es_published (snd (Notify (TopicPublish sample_publish) (newEventService ''b1'' ''t'')))) \<and>
     messageHandlerFunc (es_subscribe 3 7 (newEventService ''b2'' ''t'')) msg = []"
proof -
  let ?p = "snd (Notify (TopicPublish sample_publish) (newEventService ''b1'' ''t''))"
  have "es_published ?p \<noteq> []" by (simp add: Notify_def publishMsg_def Let_def)
  then have "hd (es_published ?p) \<in> set (es_published ?p)" by simp
  with remote_events_lost [OF this, of "es_subscribe 3 7 (newEventService ''b2'' ''t'')"] show ?thesis by blast
qed

end
