(* ===== verification/Session_Manager.thy ===== *)
theory Session_Manager
  imports Topic_Tree Broker_Event
begin

text \<open>
  The session manager of \<^verbatim>\<open>src/broker/sessionmgr\<close>: the table of sessions, and the handlers
  that turn the broker's events into changes of the subscription tree and of the queues. Its
  state holds the queue service too, which the handlers call. A session is what the table
  needs to know of it; for an MQTT session that is its number, its client and the persistence
  fixed before it is registered.
\<close>

subsection \<open>Sessions\<close>

datatype session =
    VirtualSession (vs_brokerId: string) (vs_clientId: string) (vs_persistent: bool) (vs_queue: qref)
  | MqttSession (ms_ref: observer) (ms_clientID: string) (ms_persistent: bool)

fun session_Id :: "session \<Rightarrow> string" where
  "session_Id (VirtualSession b c p q) = c"
| "session_Id (MqttSession n c p) = c"

fun session_IsPersistent :: "session \<Rightarrow> bool" where
  "session_IsPersistent (VirtualSession b c p q) = p"
| "session_IsPersistent (MqttSession n c p) = p"

record 'db sessionManager =
  sm_self :: string
  sm_tree :: simpleTopicTree
  sm_sessions :: "string \<Rightarrow> session option"
  sm_queues :: "'db qstate"

datatype sm_error = ErrNoSession | ErrSessionExists

definition newSessionManager :: "string \<Rightarrow> 'db qstate \<Rightarrow> 'db sessionManager" where
  "newSessionManager self qs = \<lparr>sm_self = self, sm_tree = newSimpleTopicTree,
     sm_sessions = (\<lambda>_. None), sm_queues = qs\<rparr>"

definition findSession :: "string \<Rightarrow> 'db sessionManager \<Rightarrow> session option" where
  "findSession clientId s = sm_sessions s clientId"

definition removeSession :: "string \<Rightarrow> ('db sessionManager, sm_error, unit) go" where
  "removeSession clientId s = (case sm_sessions s clientId of
      None \<Rightarrow> (Err ErrNoSession, s)
    | Some _ \<Rightarrow> (Ok (), s\<lparr>sm_sessions := (sm_sessions s)(clientId := None)\<rparr>))"

definition registerSession :: "session \<Rightarrow> ('db sessionManager, sm_error, unit) go" where
  "registerSession ss s = (case sm_sessions s (session_Id ss) of
      Some _ \<Rightarrow> (Err ErrSessionExists, s)
    | None \<Rightarrow> (Ok (), s\<lparr>sm_sessions := (sm_sessions s)(session_Id ss \<mapsto> ss)\<rparr>))"

definition newVirtualSession :: "'db mongo \<Rightarrow> string \<Rightarrow> string \<Rightarrow> bool \<Rightarrow> ('db qstate, queue_error, session) go" where
  "newVirtualSession mg brokerId clientId persistent =
     seqM (newQueue mg clientId persistent) (\<lambda>q. retM (VirtualSession brokerId clientId persistent q))"

subsection \<open>Event handlers\<close>

text \<open>\<open>on_queues\<close> and \<open>on_tree\<close> run an operation of a component on its part of the state.\<close>

definition on_queues :: "('db qstate \<Rightarrow> 'a \<times> 'db qstate) \<Rightarrow> 'db sessionManager \<Rightarrow> 'a \<times> 'db sessionManager" where
  "on_queues f s = (case f (sm_queues s) of (a, q) \<Rightarrow> (a, s\<lparr>sm_queues := q\<rparr>))"

definition on_tree :: "(simpleTopicTree \<Rightarrow> simpleTopicTree) \<Rightarrow> 'db sessionManager \<Rightarrow> 'db sessionManager" where
  "on_tree f s = s\<lparr>sm_tree := f (sm_tree s)\<rparr>"

definition onSessionCreate :: "'db mongo \<Rightarrow> SessionEvent \<Rightarrow> ('db sessionManager, queue_error, unit) go" where
  "onSessionCreate mg e s =
     (if se_BrokerId e \<noteq> sm_self s \<and> se_Persistent e \<and> findSession (se_ClientId e) s = None
      then (case on_queues (newVirtualSession mg (se_BrokerId e) (se_ClientId e) True) s of
              (Ok ss, t) \<Rightarrow> (Ok (), snd (registerSession ss t))
            | (Err _, t) \<Rightarrow> (Ok (), t)
            | (Panic, t) \<Rightarrow> (Panic, t))
      else (Ok (), s))"

text \<open>
  The loop of \<^verbatim>\<open>onSessionDestroy\<close> ranges over the client's list of topics while each removal
  shifts that list in place: the element at an index is read when the loop gets there.
\<close>

fun destroy_topics :: "string \<Rightarrow> nat list \<Rightarrow> simpleTopicTree \<Rightarrow> simpleTopicTree" where
  "destroy_topics clientId [] p = p"
| "destroy_topics clientId (i # is) p =
     destroy_topics clientId is (snd (removeSubscription clientId (getSubscriptionTopics clientId p ! i) p))"

definition onSessionDestroy :: "SessionEvent \<Rightarrow> 'db sessionManager \<Rightarrow> 'db sessionManager" where
  "onSessionDestroy e s = (let clientId = se_ClientId e in
     if (case findSession clientId s of Some ss \<Rightarrow> session_IsPersistent ss | None \<Rightarrow> False)
     then (case getQueue clientId (sm_queues s) of
             Some q \<Rightarrow> s\<lparr>sm_queues := q_RegisterObserver q None (sm_queues s)\<rparr>
           | None \<Rightarrow> s)
     else (let topics = getSubscriptionTopics clientId (sm_tree s);
               t = on_tree (destroy_topics clientId [0..<length topics]) s;
               u = snd (removeSession clientId t) in
           u\<lparr>sm_queues := destroyQueue clientId (sm_queues u)\<rparr>))"

definition add_for_queue :: "TopicSubscribeEvent \<Rightarrow> 'db sessionManager \<Rightarrow> 'db sessionManager" where
  "add_for_queue t s = (case getQueue (ts_ClientID t) (sm_queues s) of
      Some q \<Rightarrow> on_tree (addSubscription \<lparr>sub_clientID = ts_ClientID t, sub_topic = ts_Topic t,
                  sub_qos = ts_Qos t, sub_queue = q, sub_retain = False\<rparr>) s
    | None \<Rightarrow> s)"

definition onTopicSubscribe :: "TopicSubscribeEvent \<Rightarrow> 'db sessionManager \<Rightarrow> 'db sessionManager" where
  "onTopicSubscribe t s =
     (if ts_BrokerID t \<noteq> sm_self s \<and> ts_Persistent t then add_for_queue t s
      else if ts_BrokerID t = sm_self s then add_for_queue t s
      else s)"

definition onTopicUnsubscribe :: "TopicUnsubscribeEvent \<Rightarrow> 'db sessionManager \<Rightarrow> 'db sessionManager" where
  "onTopicUnsubscribe t s =
     (let remove = on_tree (\<lambda>p. snd (removeSubscription (tu_ClientID t) (tu_Topic t) p)) in
      if tu_BrokerID t \<noteq> sm_self s \<and> tu_Persistent t then remove s
      else if tu_BrokerID t = sm_self s then remove s
      else s)"

definition published_message :: "TopicPublishEvent \<Rightarrow> Message" where
  "published_message t = \<lparr>m_Topic = tp_Topic t, m_PacketId = 0, m_Direction = 0, m_State = 0,
     m_Qos = tp_Qos t, m_Dup = False, m_Retain = tp_Retain t, m_Payload = tp_Payload t, m_Time = 0\<rparr>"

definition onTopicPublish :: "'db mongo \<Rightarrow> iter_order \<Rightarrow> TopicPublishEvent \<Rightarrow> ('db sessionManager, queue_error, unit) go" where
  "onTopicPublish mg iter t s = on_queues (addMessage mg iter (published_message t) (sm_tree s)) s"

definition sm_handleEvent :: "'db mongo \<Rightarrow> iter_order \<Rightarrow> event \<Rightarrow> ('db sessionManager, queue_error, unit) go" where
  "sm_handleEvent mg iter e s = (case e of
      SessionCreate t \<Rightarrow> onSessionCreate mg t s
    | SessionDestroy t \<Rightarrow> (Ok (), onSessionDestroy t s)
    | TopicSubscribe t \<Rightarrow> (Ok (), onTopicSubscribe t s)
    | TopicUnsubscribe t \<Rightarrow> (Ok (), onTopicUnsubscribe t s)
    | TopicPublish t \<Rightarrow> onTopicPublish mg iter t s
    | _ \<Rightarrow> (Ok (), s))"

definition sm_deleteMessageWithValidator ::
  "iter_order \<Rightarrow> string \<Rightarrow> (Message \<Rightarrow> bool) \<Rightarrow> ('db sessionManager, tree_error, unit) go" where
  "sm_deleteMessageWithValidator iter clientId validator s =
     (case deleteMessageWithValidator iter clientId validator (sm_tree s) of
        (r, p) \<Rightarrow> (r, s\<lparr>sm_tree := p\<rparr>))"

definition sm_deleteMessage :: "iter_order \<Rightarrow> string \<Rightarrow> 16 word \<Rightarrow> byte \<Rightarrow> ('db sessionManager, tree_error, unit) go" where
  "sm_deleteMessage iter clientId mid direction =
     sm_deleteMessageWithValidator iter clientId (\<lambda>msg. m_PacketId msg = mid \<and> m_Direction msg = direction)"

subsection \<open>What can happen to the state\<close>

text \<open>
  The steps of the session manager and of the sessions around it, which register and remove
  themselves, make queues, watch and empty them. A subscription refers to a queue of its client.
\<close>

definition sm_wf :: "'db sessionManager \<Rightarrow> bool" where
  "sm_wf s \<longleftrightarrow> tree_wf (sm_tree s) \<and> qs_wf (sm_queues s) \<and>
     (\<forall>c topic sub. subs_at (sm_tree s) c topic = Some sub \<longrightarrow>
        sub_queue sub < length (qs_heap (sm_queues s)) \<and> q_clientId (q_at (sm_queues s) (sub_queue sub)) = c)"

inductive sm_step :: "'db mongo \<Rightarrow> 'db sessionManager \<Rightarrow> 'db sessionManager \<Rightarrow> bool" for mg where
  sm_event: "iter_ok iter \<Longrightarrow> sm_step mg s (snd (sm_handleEvent mg iter e s))"
| sm_register: "sm_step mg s (snd (registerSession ss s))"
| sm_remove: "sm_step mg s (snd (removeSession c s))"
| sm_delete: "sm_step mg s (snd (sm_deleteMessageWithValidator iter c v s))"
| sm_new_queue: "sm_step mg s (snd (on_queues (newQueue mg c persistent) s))"
| sm_observe: "r < length (qs_heap (sm_queues s)) \<Longrightarrow>
     sm_step mg s (s\<lparr>sm_queues := q_RegisterObserver r ob (sm_queues s)\<rparr>)"
| sm_pop: "r < length (qs_heap (sm_queues s)) \<Longrightarrow> sm_step mg s (snd (on_queues (q_Pop mg r) s))"

inductive sm_reach :: "'db mongo \<Rightarrow> 'db sessionManager \<Rightarrow> bool" for mg where
  sm_start: "sm_reach mg (newSessionManager self (newQueueService db))"
| sm_next: "sm_reach mg s \<Longrightarrow> sm_step mg s t \<Longrightarrow> sm_reach mg t"

subsection \<open>Queues keep their owners\<close>

definition grows :: "'db qstate \<Rightarrow> 'db qstate \<Rightarrow> bool" where
  "grows s t \<longleftrightarrow> length (qs_heap s) \<le> length (qs_heap t) \<and>
     (\<forall>r < length (qs_heap s). q_clientId (q_at t r) = q_clientId (q_at s r))"

lemma grows_refl [simp]: "grows s s"
  by (simp add: grows_def)

lemma grows_trans: "grows s t \<Longrightarrow> grows t u \<Longrightarrow> grows s u"
  by (auto simp: grows_def)

lemma grows_put: "q_clientId q = q_clientId (q_at s r) \<Longrightarrow> grows s (q_put r q s)"
  by (cases "r < length (qs_heap s)") (auto simp: grows_def q_put_def q_at_def nth_list_update)

lemma grows_frame [simp]:
  "grows s (notify_observer r t) = grows s t" "grows s (t\<lparr>qs_db := db\<rparr>) = grows s t"
  "grows s (destroyQueue c t) = grows s t"
  by (simp_all add: grows_def destroyQueue_def q_at_def)

lemma grows_alloc [simp]: "grows s (snd (q_alloc c q s))"
  by (simp add: grows_def q_alloc_def q_at_def nth_append Let_def)

lemma grows_newQueue: "grows s (snd (newQueue mg c p s))"
proof (cases rule: newQueue_cases [of s c mg p])
  case (fresh q t)
  then have "grows s t" by auto
  with fresh grows_trans [OF _ grows_alloc] show ?thesis by metis
qed auto

lemma grows_ops:
  "grows s (q_RegisterObserver r ob s)" "grows s (snd (q_Pushback mg r m s))" "grows s (snd (q_Pop mg r s))"
  by (auto simp: q_RegisterObserver_def q_Pushback_def q_Pop_def grows_put
      split: backend.splits prod.splits outcome.splits option.splits wait.splits)

lemma grows_deliver: "grows s (snd (deliver mg msg subs s))"
proof (induction subs arbitrary: s)
  case (Cons sub subs)
  obtain a t where t: "q_Pushback mg (sub_queue sub) (copy_for sub msg) s = (a, t)" by fastforce
  then have "grows s t" using grows_ops(2) by (metis snd_conv)
  with Cons grows_trans have "grows s (snd (deliver mg msg subs t))" by blast
  with t \<open>grows s t\<close> show ?case by (simp add: seqM_def split: outcome.splits)
qed simp

lemma q_Pushback_Ok:
  assumes "qs_wf s" "r < length (qs_heap s)"
  shows "fst (q_Pushback mg r m s) = Ok ()"
proof (cases "q_backend (q_at s r)")
  case (Transient sq)
  have "sq_inv sq" using qs_wf_sound [OF assms] Transient by (rule q_sound_Transient)
  from sq_push_spec(1) [OF this, of m] Transient show ?thesis
    by (cases "sq_push m sq") (simp add: q_Pushback_def)
qed (simp add: q_Pushback_def)

lemma deliver_wf:
  assumes "qs_wf s" "\<forall>sub \<in> set subs. sub_queue sub < length (qs_heap s)"
  shows "fst (deliver mg msg subs s) = Ok () \<and> qs_wf (snd (deliver mg msg subs s))"
  using assms
proof (induction subs arbitrary: s)
  case (Cons sub subs)
  let ?t = "snd (q_Pushback mg (sub_queue sub) (copy_for sub msg) s)"
  have "deliver mg msg (sub # subs) s = deliver mg msg subs ?t"
    using q_Pushback_Ok [OF Cons.prems(1), of "sub_queue sub" mg "copy_for sub msg"] Cons.prems(2)
    by (cases "q_Pushback mg (sub_queue sub) (copy_for sub msg) s") (simp add: seqM_def)
  moreover have "qs_wf ?t" using Cons.prems by (simp add: qs_wf_Pushback)
  moreover have "grows s ?t" by (rule grows_ops)
  ultimately show ?case using Cons.IH [of ?t] Cons.prems(2) by (fastforce simp: grows_def)
qed simp

subsection \<open>The invariant\<close>

lemma sm_wf_queues: "sm_wf s \<Longrightarrow> qs_wf q \<Longrightarrow> grows (sm_queues s) q \<Longrightarrow> sm_wf (s\<lparr>sm_queues := q\<rparr>)"
  unfolding sm_wf_def grows_def by fastforce

lemma sm_wf_sessions [simp]: "sm_wf (s\<lparr>sm_sessions := x\<rparr>) = sm_wf s"
  by (simp add: sm_wf_def)

lemma sm_wf_tree:
  assumes "sm_wf s" "tree_wf p"
    and "\<And>c topic sub. subs_at p c topic = Some sub \<Longrightarrow> subs_at (sm_tree s) c topic = Some sub \<or>
          sub_queue sub < length (qs_heap (sm_queues s)) \<and> q_clientId (q_at (sm_queues s) (sub_queue sub)) = c"
  shows "sm_wf (s\<lparr>sm_tree := p\<rparr>)"
  using assms unfolding sm_wf_def by fastforce

lemma subs_at_destroy: "subs_at (destroy_topics c is p) c' topic = Some sub \<Longrightarrow> subs_at p c' topic = Some sub"
  by (induction c "is" p rule: destroy_topics.induct) (auto simp: tree.get_remove split: if_splits)

lemma tree_wf_destroy: "tree_wf p \<Longrightarrow> tree_wf (destroy_topics c is p)"
  by (induction c "is" p rule: destroy_topics.induct) (auto simp: tree_wf_removeSubscription)

lemma sm_wf_register: "sm_wf s \<Longrightarrow> sm_wf (snd (registerSession ss s))" "sm_wf s \<Longrightarrow> sm_wf (snd (removeSession c s))"
  by (auto simp: registerSession_def removeSession_def split: option.splits)

lemma snd_on_queues: "snd (on_queues f s) = s\<lparr>sm_queues := snd (f (sm_queues s))\<rparr>"
  by (simp add: on_queues_def split: prod.splits)

lemma recipients_valid:
  assumes "sm_wf s" "iter_ok iter" "sub \<in> set (recipients iter topic (sm_tree s))"
  shows "sub_queue sub < length (qs_heap (sm_queues s)) \<and>
    q_clientId (q_at (sm_queues s) (sub_queue sub)) = sub_clientID sub"
proof -
  have "tree_wf (sm_tree s)" using assms(1) by (simp add: sm_wf_def)
  from recipients_node [OF this assms(2,3)]
  have "subs_at (sm_tree s) (sub_clientID sub) (sub_topic sub) = Some sub" by (auto simp: subs_at_def)
  with assms(1) show ?thesis by (auto simp: sm_wf_def)
qed

lemma onTopicPublish_wf:
  assumes "sm_wf s" "iter_ok iter"
  shows "fst (onTopicPublish mg iter t s) = Ok ()" "sm_wf (snd (onTopicPublish mg iter t s))"
proof -
  let ?m = "published_message t"
  let ?subs = "recipients iter (m_Topic ?m) (sm_tree s)"
  have d: "fst (deliver mg ?m ?subs (sm_queues s)) = Ok ()" "qs_wf (snd (deliver mg ?m ?subs (sm_queues s)))"
    using deliver_wf [of "sm_queues s" ?subs mg ?m] recipients_valid [OF assms] assms(1)
    by (auto simp: sm_wf_def)
  show "fst (onTopicPublish mg iter t s) = Ok ()" "sm_wf (snd (onTopicPublish mg iter t s))"
    using d sm_wf_queues [OF assms(1) d(2) grows_deliver]
    by (auto simp: onTopicPublish_def on_queues_def addMessage_deliver split: prod.splits)
qed

lemma newVirtualSession_queues:
  "snd (newVirtualSession mg b c p q) = snd (newQueue mg c p q)"
  "fst (newVirtualSession mg b c p q) \<noteq> Panic"
proof -
  have "fst (newQueue mg c p q) \<noteq> Panic"
    by (cases rule: newQueue_cases [of q c mg p]) (auto simp: q_alloc_def Let_def)
  then show "snd (newVirtualSession mg b c p q) = snd (newQueue mg c p q)"
    "fst (newVirtualSession mg b c p q) \<noteq> Panic"
    by (auto simp: newVirtualSession_def seqM_def split: prod.splits outcome.splits)
qed

lemma onSessionCreate_wf:
  assumes "sm_wf s"
  shows "fst (onSessionCreate mg e s) = Ok ()" "sm_wf (snd (onSessionCreate mg e s))"
proof -
  let ?q = "newVirtualSession mg (se_BrokerId e) (se_ClientId e) True (sm_queues s)"
  have "sm_wf (s\<lparr>sm_queues := snd ?q\<rparr>)"
    using assms by (intro sm_wf_queues) (auto simp: newVirtualSession_queues grows_newQueue qs_wf_newQueue sm_wf_def)
  then show "fst (onSessionCreate mg e s) = Ok ()" "sm_wf (snd (onSessionCreate mg e s))"
    using assms newVirtualSession_queues(2) [of mg "se_BrokerId e" "se_ClientId e" True "sm_queues s"]
    by (cases ?q, auto simp: onSessionCreate_def on_queues_def sm_wf_register split: outcome.splits)+
qed

lemma onSessionDestroy_wf:
  assumes "sm_wf s"
  shows "sm_wf (onSessionDestroy e s)"
proof -
  let ?c = "se_ClientId e"
  let ?t = "on_tree (destroy_topics ?c [0..<length (getSubscriptionTopics ?c (sm_tree s))]) s"
  have "sm_wf ?t"
    unfolding on_tree_def using assms
    by (intro sm_wf_tree) (auto simp: sm_wf_def tree_wf_destroy dest: subs_at_destroy)
  then have u: "sm_wf (snd (removeSession ?c ?t))" by (rule sm_wf_register)
  then have "sm_wf ((snd (removeSession ?c ?t))\<lparr>sm_queues := destroyQueue ?c (sm_queues (snd (removeSession ?c ?t)))\<rparr>)"
    by (intro sm_wf_queues) (auto simp: qs_wf_destroy sm_wf_def)
  moreover have "sm_wf (s\<lparr>sm_queues := q_RegisterObserver q None (sm_queues s)\<rparr>)"
    if "getQueue ?c (sm_queues s) = Some q" for q
  proof -
    have "qs_wf (sm_queues s)" "q < length (qs_heap (sm_queues s))"
      using assms that by (auto simp: sm_wf_def qs_wf_def getQueue_def)
    then have "qs_wf (q_RegisterObserver q None (sm_queues s))"
      using qs_wf_step [OF step_observe] by blast
    with assms show ?thesis by (intro sm_wf_queues) (auto simp: grows_ops)
  qed
  ultimately show ?thesis using assms by (simp add: onSessionDestroy_def Let_def split: option.splits)
qed

lemma add_for_queue_wf:
  assumes "sm_wf s"
  shows "sm_wf (add_for_queue t s)"
proof (cases "getQueue (ts_ClientID t) (sm_queues s)")
  case (Some q)
  let ?sub = "\<lparr>sub_clientID = ts_ClientID t, sub_topic = ts_Topic t, sub_qos = ts_Qos t, sub_queue = q, sub_retain = False\<rparr>"
  have "q < length (qs_heap (sm_queues s)) \<and> q_clientId (q_at (sm_queues s) q) = ts_ClientID t"
    using assms Some by (auto simp: sm_wf_def qs_wf_def getQueue_def)
  then have "sm_wf (s\<lparr>sm_tree := addSubscription ?sub (sm_tree s)\<rparr>)"
    using assms by (intro sm_wf_tree) (auto simp: sm_wf_def tree_wf_addSubscription tree.get_add split: if_splits)
  with Some show ?thesis by (simp add: add_for_queue_def on_tree_def)
qed (use assms in \<open>simp add: add_for_queue_def\<close>)

lemma onTopicUnsubscribe_wf: "sm_wf s \<Longrightarrow> sm_wf (onTopicUnsubscribe t s)"
  unfolding onTopicUnsubscribe_def on_tree_def
  by (auto simp: Let_def intro!: sm_wf_tree tree_wf_removeSubscription)
     (auto simp: sm_wf_def tree.get_remove split: if_splits)

lemma sm_handleEvent_wf:
  assumes "sm_wf s" "iter_ok iter"
  shows "fst (sm_handleEvent mg iter e s) = Ok () \<and> sm_wf (snd (sm_handleEvent mg iter e s))"
  using assms onTopicPublish_wf [OF assms] onSessionCreate_wf [OF assms(1)]
  by (cases e) (auto simp: sm_handleEvent_def onSessionDestroy_wf onTopicSubscribe_def add_for_queue_wf onTopicUnsubscribe_wf)

lemma sm_wf_delete:
  assumes "sm_wf s"
  shows "sm_wf (snd (sm_deleteMessageWithValidator iter c v s))"
proof -
  have "subs_at (snd (delete_messages iter v ts p)) c' topic = subs_at p c' topic" for ts p c' topic
    by (induction iter v ts p rule: delete_messages.induct)
       (auto simp: subs_at_def node_subs_modify_msgs split: option.splits outcome.splits)
  with assms show ?thesis
    by (auto simp: sm_deleteMessageWithValidator_def deleteMessageWithValidator_def split: prod.splits
        intro!: sm_wf_tree dest: tree_wf_delete_messages [of _ iter v])
       (metis snd_conv sm_wf_def tree_wf_delete_messages)+
qed

lemma sm_wf_step: "sm_step mg s t \<Longrightarrow> sm_wf s \<Longrightarrow> sm_wf t"
proof (induction rule: sm_step.induct)
  case (sm_new_queue s c p)
  then have "qs_wf (snd (newQueue mg c p (sm_queues s)))" by (simp add: sm_wf_def qs_wf_newQueue)
  with sm_new_queue sm_wf_queues [OF _ _ grows_newQueue] show ?case by (simp add: snd_on_queues)
next
  case (sm_observe r s ob)
  then have "qs_wf (q_RegisterObserver r ob (sm_queues s))"
    using qs_wf_step [OF step_observe] by (metis sm_wf_def)
  with sm_observe show ?case by (intro sm_wf_queues) (auto simp: grows_ops)
next
  case (sm_pop r s)
  then have "qs_wf (snd (q_Pop mg r (sm_queues s)))" by (simp add: sm_wf_def qs_wf_Pop)
  with sm_pop sm_wf_queues [OF _ _ grows_ops(3)] show ?case by (simp add: snd_on_queues)
qed (auto simp: sm_handleEvent_wf sm_wf_register sm_wf_delete)

lemma sm_reach_wf: "sm_reach mg s \<Longrightarrow> sm_wf s"
proof (induction rule: sm_reach.induct)
  case (sm_start self db)
  have "subs_at newSimpleTopicTree c topic = None" for c topic
    by (simp add: subs_at_def newSimpleTopicTree_def)
  then show ?case by (simp add: sm_wf_def newSessionManager_def tree_wf_new qs_wf_start)
qed (rule sm_wf_step)

subsection \<open>Delivery to one queue\<close>

lemma tq_other:
  assumes "r \<noteq> r'"
  shows "tq_inv r (snd (q_Pushback mg r' m s)) = tq_inv r s" "tq_elems r (snd (q_Pushback mg r' m s)) = tq_elems r s"
  using assms by (auto simp: q_Pushback_def tq_inv_def tq_elems_def split: backend.splits outcome.splits prod.splits)

lemma push_keeps_list:
  "r' < length (qs_heap s) \<Longrightarrow> q_list (q_at (snd (q_Pushback mg r' m s)) r) = q_list (q_at s r)"
  by (cases "r' = r") (auto simp: q_Pushback_def notify_observer_def split: backend.splits prod.splits outcome.splits
      option.splits wait.splits)

lemma deliver_elems:
  assumes "qs_wf s" "\<forall>sub \<in> set subs. sub_queue sub < length (qs_heap s)" "tq_inv r s"
  shows "tq_elems r (snd (deliver mg msg subs s)) =
    tq_elems r s @ map (\<lambda>sub. copy_for sub msg) (filter (\<lambda>sub. sub_queue sub = r) subs) \<and>
    tq_inv r (snd (deliver mg msg subs s)) \<and> q_list (q_at (snd (deliver mg msg subs s)) r) = q_list (q_at s r)"
  using assms
proof (induction subs arbitrary: s)
  case (Cons sub subs)
  let ?m = "copy_for sub msg"
  let ?t = "snd (q_Pushback mg (sub_queue sub) ?m s)"
  have run: "deliver mg msg (sub # subs) s = deliver mg msg subs ?t"
    using q_Pushback_Ok [OF Cons.prems(1), of "sub_queue sub" mg ?m] Cons.prems(2)
    by (cases "q_Pushback mg (sub_queue sub) ?m s") (simp add: seqM_def)
  have "qs_wf ?t" using Cons.prems by (simp add: qs_wf_Pushback)
  moreover have "grows s ?t" by (rule grows_ops)
  moreover have "tq_inv r ?t \<and> tq_elems r ?t = tq_elems r s @ (if sub_queue sub = r then [?m] else [])"
    using tq.push_law [OF Cons.prems(3), of mg ?m] tq_other [of r "sub_queue sub" mg ?m s] Cons.prems(3) by auto
  moreover have "q_list (q_at ?t r) = q_list (q_at s r)" using Cons.prems(2) by (simp add: push_keeps_list)
  ultimately show ?case
    using Cons.IH [of ?t] Cons.prems(2) unfolding run by (fastforce simp: grows_def)
qed simp

lemma filter_single:
  "distinct (map f xs) \<Longrightarrow> x \<in> set xs \<Longrightarrow> (\<And>y. y \<in> set xs \<Longrightarrow> P y \<longleftrightarrow> f y = f x) \<Longrightarrow> filter P xs = [x]"
proof (induction xs)
  case (Cons y ys)
  show ?case
  proof (cases "x = y")
    case True
    have "\<not> P z" if "z \<in> set ys" for z
    proof -
      have "f z \<noteq> f y" using Cons.prems(1) that by (metis distinct.simps(2) image_eqI list.map(2) set_map)
      with Cons.prems(3) [of z] that True show ?thesis by simp
    qed
    moreover have "P y" using True Cons.prems(3) [of y] by simp
    ultimately show ?thesis using True by (simp add: filter_empty_conv)
  next
    case False
    then have x: "x \<in> set ys" using Cons.prems(2) by simp
    then have "f y \<noteq> f x" using Cons.prems(1) by (metis distinct.simps(2) image_eqI list.map(2) set_map)
    then have "\<not> P y" using Cons.prems(3) [of y] by simp
    with x Cons show ?thesis by simp
  qed
qed simp

subsection \<open>Properties\<close>


definition sample_subscribe :: TopicSubscribeEvent where
  "sample_subscribe = \<lparr>ts_BrokerID = ''b1'', ts_Type = 0, ts_ClientID = ''c1'', ts_Persistent = False,
     ts_Topic = ''a/b'', ts_Qos = 1, ts_Data = [], ts_Retain = True\<rparr>"

definition sample_manager :: "unit sessionManager" where
  "sample_manager = snd (on_queues (newQueue no_mongo ''c1'' False) (newSessionManager ''b1'' (newQueueService ())))"

lemma sample_manager_facts:
  "sm_reach no_mongo sample_manager" "getQueue ''c1'' (sm_queues sample_manager) = Some 0"
  "tq_inv 0 (sm_queues sample_manager)" "tq_elems 0 (sm_queues sample_manager) = []"
  "sm_tree sample_manager = newSimpleTopicTree" "sm_self sample_manager = ''b1''"
proof -
  show "sm_reach no_mongo sample_manager"
    unfolding sample_manager_def by (rule sm_next [OF sm_start sm_new_queue])
  have q: "newQueue no_mongo ''c1'' False (newQueueService ()) =
      (Ok 0, snd (newQueue no_mongo ''c1'' False (newQueueService ())))"
    by (simp add: newQueue_def newQueueService_def q_alloc_def Let_def)
  show "tq_inv 0 (sm_queues sample_manager)" "tq_elems 0 (sm_queues sample_manager) = []"
    using newQueue_fresh_transient [OF q] by (simp_all add: sample_manager_def snd_on_queues newSessionManager_def)
  show "getQueue ''c1'' (sm_queues sample_manager) = Some 0" "sm_tree sample_manager = newSimpleTopicTree"
    "sm_self sample_manager = ''b1''"
    by (simp_all add: sample_manager_def snd_on_queues newSessionManager_def newQueue_def newQueueService_def
        q_alloc_def Let_def getQueue_def)
qed


lemma subscribe_publish_appends:
  assumes "sm_reach mg s" "iter_ok iter" "plain_node (tt_root (sm_tree s))" "plain_levels (topic_levels (ts_Topic se))"
    "getQueue (ts_ClientID se) (sm_queues s) = Some r" "tq_inv r (sm_queues s)"
    "ts_BrokerID se = sm_self s" "tp_Topic pe = ts_Topic se"
  defines "q \<equiv> sm_queues (snd (sm_handleEvent mg iter (TopicPublish pe) (snd (sm_handleEvent mg iter (TopicSubscribe se) s))))"
  shows "tq_elems r q = tq_elems r (sm_queues s) @ [(published_message pe)\<lparr>m_Qos := ts_Qos se\<rparr>] \<and>
    tq_inv r q \<and> q_list (q_at q r) = q_list (q_at (sm_queues s) r)"
proof -
  let ?sub = "\<lparr>sub_clientID = ts_ClientID se, sub_topic = ts_Topic se, sub_qos = ts_Qos se, sub_queue = r, sub_retain = False\<rparr>"
  let ?t = "snd (sm_handleEvent mg iter (TopicSubscribe se) s)" and ?m = "published_message pe"
  let ?rs = "recipients iter (ts_Topic se) (sm_tree ?t)"
  have t: "?t = s\<lparr>sm_tree := addSubscription ?sub (sm_tree s)\<rparr>"
    using assms(5,7) by (simp add: sm_handleEvent_def onTopicSubscribe_def add_for_queue_def on_tree_def)
  have wf: "sm_wf ?t" using sm_handleEvent_wf sm_reach_wf assms(1,2) by blast
  have "plain_node (tt_root (sm_tree ?t))"
    using plain_add_path [OF assms(3,4)] unfolding t by (simp add: addSubscription_def)
  note rec = recipients_plain [OF _ this assms(2), of "ts_Topic se"]
  have rs: "set ?rs = {sub. \<exists>c. subs_at (sm_tree ?t) c (ts_Topic se) = Some sub}" "distinct (map sub_clientID ?rs)"
    using rec wf by (simp_all add: sm_wf_def)
  have mine: "subs_at (sm_tree ?t) (ts_ClientID se) (ts_Topic se) = Some ?sub"
    unfolding t by (simp add: tree.get_add)
  have "filter (\<lambda>sub. sub_queue sub = r) ?rs = [?sub]"
  proof (rule filter_single [where f = sub_clientID])
    show "?sub \<in> set ?rs" using rs(1) mine by blast
    fix y assume y: "y \<in> set ?rs"
    then obtain c where c: "subs_at (sm_tree ?t) c (ts_Topic se) = Some y" using rs(1) by blast
    then have id: "sub_clientID y = c" "q_clientId (q_at (sm_queues ?t) (sub_queue y)) = c"
      using wf by (auto simp: sm_wf_def tree_wf_def subs_at_def)
    have "q_clientId (q_at (sm_queues ?t) (sub_queue ?sub)) = ts_ClientID se"
      using wf mine unfolding sm_wf_def by blast
    with id c mine show "(sub_queue y = r) = (sub_clientID y = sub_clientID ?sub)" by auto
  qed (rule rs(2))
  moreover have "tq_elems r (snd (deliver mg ?m ?rs (sm_queues ?t))) = tq_elems r (sm_queues ?t) @
      map (\<lambda>sub. copy_for sub ?m) (filter (\<lambda>sub. sub_queue sub = r) ?rs) \<and>
      tq_inv r (snd (deliver mg ?m ?rs (sm_queues ?t))) \<and>
      q_list (q_at (snd (deliver mg ?m ?rs (sm_queues ?t))) r) = q_list (q_at (sm_queues ?t) r)"
    using wf recipients_valid [OF wf assms(2)] assms(6)
    by (intro deliver_elems) (auto simp: sm_wf_def t)
  ultimately have "tq_elems r (snd (deliver mg ?m ?rs (sm_queues ?t))) = tq_elems r (sm_queues s) @ [copy_for ?sub ?m] \<and>
      tq_inv r (snd (deliver mg ?m ?rs (sm_queues ?t))) \<and>
      q_list (q_at (snd (deliver mg ?m ?rs (sm_queues ?t))) r) = q_list (q_at (sm_queues s) r)"
    by (simp add: t)
  then show ?thesis
    using assms(8) unfolding q_def by (simp add: sm_handleEvent_def [of mg iter "TopicPublish pe"] onTopicPublish_def snd_on_queues
        addMessage_deliver published_message_def copy_for_def)
qed



lemma shift_out_facts: "length (shift_out t xs) = length xs" "set (shift_out t xs) \<subseteq> set xs"
  by (induction xs) auto

lemma topics_remove:
  "getSubscriptionTopics c (snd (removeSubscription c t p)) =
     (if subs_at p c t = None then getSubscriptionTopics c p else shift_out t (getSubscriptionTopics c p))"
  by (auto simp: removeSubscription_def subs_at_def node_subs_def getSubscriptionTopics_def split: option.splits)

lemma destroy_skips:
  assumes "getSubscriptionTopics c p = b # rest" "b \<notin> set rest" "\<forall>i \<in> set is. 1 \<le> i \<and> i \<le> length rest"
  shows "subs_at (destroy_topics c is p) c b = subs_at p c b"
  using assms
proof (induction "is" arbitrary: p rest)
  case (Cons i "is")
  let ?t = "rest ! (i - 1)"
  let ?q = "snd (removeSubscription c ?t p)"
  have t: "(b # rest) ! i = ?t" "?t \<in> set rest" using Cons.prems(3) by (auto simp: nth_Cons')
  then have ne: "?t \<noteq> b" using Cons.prems(2) by auto
  have "getSubscriptionTopics c ?q = b # (if subs_at p c ?t = None then rest else shift_out ?t rest)"
    using Cons.prems(1) ne by (simp add: topics_remove)
  then have "subs_at (destroy_topics c is ?q) c b = subs_at ?q c b"
    by (rule Cons.IH) (use Cons.prems(2,3) shift_out_facts [of ?t rest] in auto)
  with ne t(1) show ?case by (simp add: Cons.prems(1) tree.get_remove)
qed simp

text \<open>The end of a transient session leaves subscriptions behind: of a client with three
  or more subscriptions the second one survives, while the session and the queue it feeds are
  gone from their tables.\<close>

theorem session_destroy_leaks:
  assumes "findSession c s = Some ss" "\<not> session_IsPersistent ss" "se_ClientId e = c"
    "getSubscriptionTopics c (sm_tree s) = a # b # ts" "ts \<noteq> []" "a \<noteq> b" "b \<notin> set ts"
    "getSubscription c a (sm_tree s) = Ok sub1" "getSubscription c b (sm_tree s) = Ok sub2"
  shows "getSubscription c b (sm_tree (onSessionDestroy e s)) = Ok sub2 \<and>
    findSession c (onSessionDestroy e s) = None \<and> getQueue c (sm_queues (onSessionDestroy e s)) = None"
proof -
  let ?p = "sm_tree s" and ?q = "snd (removeSubscription c a (sm_tree s))"
  have a: "subs_at ?p c a = Some sub1" and b: "subs_at ?p c b = Some sub2"
    using assms(8,9) by (simp_all add: getSubscription_subs_at)
  have topics: "getSubscriptionTopics c ?q = b # (ts @ [last ts])"
    using a assms(4,5) by (simp add: topics_remove)
  have tree: "destroy_topics c [0..<length (a # b # ts)] ?p = destroy_topics c [1..<length (a # b # ts)] ?q"
    by (subst upt_conv_Cons) (simp_all add: assms(4))
  have "subs_at (destroy_topics c [1..<length (a # b # ts)] ?q) c b = subs_at ?q c b"
    by (rule destroy_skips [OF topics]) (use assms(5,7) in auto)
  also have "\<dots> = Some sub2" using assms(6) b by (simp add: tree.get_remove)
  finally have "subs_at (destroy_topics c [0..<length (a # b # ts)] ?p) c b = Some sub2" unfolding tree .
  then show ?thesis
    using assms(1-4) unfolding getSubscription_subs_at
    by (simp add: onSessionDestroy_def findSession_def removeSession_def on_tree_def destroyQueue_def getQueue_def Let_def)
qed

definition subscribe_to :: "string \<Rightarrow> unit sessionManager \<Rightarrow> unit sessionManager" where
  "subscribe_to topic s = snd (sm_handleEvent no_mongo (\<lambda>ks. ks) (TopicSubscribe (sample_subscribe\<lparr>ts_Topic := topic\<rparr>)) s)"

definition three_topics :: "unit sessionManager" where
  "three_topics = subscribe_to ''c'' (subscribe_to ''b'' (subscribe_to ''a''
     (snd (registerSession (MqttSession 0 ''c1'' False) sample_manager))))"

definition sample_session_event :: SessionEvent where
  "sample_session_event = \<lparr>se_BrokerId = ''b1'', se_Type = 0, se_ClientId = ''c1'', se_Persistent = False, se_Retain = False\<rparr>"

theorem session_destroy_leaks_witness:
  "getSubscription ''c1'' ''b'' (sm_tree (onSessionDestroy sample_session_event three_topics)) =
     Ok \<lparr>sub_clientID = ''c1'', sub_topic = ''b'', sub_qos = 1, sub_queue = 0, sub_retain = False\<rparr> \<and>
   findSession ''c1'' (onSessionDestroy sample_session_event three_topics) = None \<and>
   getQueue ''c1'' (sm_queues (onSessionDestroy sample_session_event three_topics)) = None"
proof -
  let ?sub = "\<lambda>t. \<lparr>sub_clientID = ''c1'', sub_topic = t, sub_qos = 1, sub_queue = 0, sub_retain = False\<rparr> :: subscription"
  have "sm_sessions sample_manager = (\<lambda>_. None)"
    by (simp add: sample_manager_def snd_on_queues newSessionManager_def)
  then have s: "three_topics = sample_manager\<lparr>sm_sessions := [''c1'' \<mapsto> MqttSession 0 ''c1'' False],
      sm_tree := addSubscription (?sub ''c'') (addSubscription (?sub ''b'') (addSubscription (?sub ''a'') newSimpleTopicTree))\<rparr>"
    using sample_manager_facts
    by (cases sample_manager) (simp add: three_topics_def subscribe_to_def registerSession_def sm_handleEvent_def
        onTopicSubscribe_def add_for_queue_def on_tree_def sample_subscribe_def)
  have g: "getSubscription ''c1'' ''a'' (sm_tree three_topics) = Ok (?sub ''a'')"
    "getSubscription ''c1'' ''b'' (sm_tree three_topics) = Ok (?sub ''b'')"
    unfolding s getSubscription_subs_at by (simp_all add: tree.get_add)
  have t: "getSubscriptionTopics ''c1'' (sm_tree three_topics) = ''a'' # ''b'' # [''c'']"
    unfolding s by (simp add: addSubscription_def getSubscriptionTopics_def newSimpleTopicTree_def)
  have "findSession ''c1'' three_topics = Some (MqttSession 0 ''c1'' False)"
    unfolding s by (simp add: findSession_def)
  from session_destroy_leaks [OF this _ _ t _ _ _ g, of sample_session_event] show ?thesis
    by (simp add: sample_session_event_def)
qed

end
