(* ===== verification/Go_Sha1.thy ===== *)
theory Go_Sha1
  imports Sentel_Prelude
begin

unbundle bit_operations_syntax

text \<open>
  What the authentication service uses of \<^verbatim>\<open>crypto/sha1\<close> and \<^verbatim>\<open>crypto/hmac\<close>: the digest of a
  byte sequence (FIPS 180-4) and the keyed digest over it (FIPS 198-1).
\<close>

subsection \<open>SHA-1\<close>

definition be_bytes :: "nat \<Rightarrow> nat \<Rightarrow> bytes" where
  "be_bytes k n = map (\<lambda>i. word_of_nat (n div 256 ^ i)) (rev [0..<k])"

definition be_word :: "bytes \<Rightarrow> 32 word" where
  "be_word bs = foldl (\<lambda>w b. push_bit 8 w OR ucast b) 0 bs"

definition sha1_pad :: "bytes \<Rightarrow> bytes" where
  "sha1_pad msg = msg @ [0x80] @ replicate ((119 - length msg mod 64) mod 64) 0 @ be_bytes 8 (8 * length msg)"

function chunks :: "nat \<Rightarrow> 'a list \<Rightarrow> 'a list list" where
  "chunks k xs = (if k = 0 \<or> xs = [] then [] else take k xs # chunks k (drop k xs))"
  by pat_completeness auto
termination by (relation "measure (\<lambda>(k, xs). length xs)") auto

declare chunks.simps [simp del]

fun sha1_expand :: "nat \<Rightarrow> 32 word list \<Rightarrow> 32 word list" where
  "sha1_expand 0 w = w"
| "sha1_expand (Suc n) w = (let t = length w in
     sha1_expand n (w @ [word_rotl 1 (w ! (t - 3) XOR w ! (t - 8) XOR w ! (t - 14) XOR w ! (t - 16))]))"

record sha1_state =
  h0 :: "32 word"
  h1 :: "32 word"
  h2 :: "32 word"
  h3 :: "32 word"
  h4 :: "32 word"

definition sha1_init :: sha1_state where
  "sha1_init = \<lparr>h0 = 0x67452301, h1 = 0xEFCDAB89, h2 = 0x98BADCFE, h3 = 0x10325476, h4 = 0xC3D2E1F0\<rparr>"

definition sha1_round :: "nat \<Rightarrow> 32 word \<Rightarrow> sha1_state \<Rightarrow> sha1_state" where
  "sha1_round i w s =
     (let b = h1 s; c = h2 s; d = h3 s;
          (f, k) = (if i < 20 then ((b AND c) OR (NOT b AND d), 0x5A827999)
                    else if i < 40 then (b XOR c XOR d, 0x6ED9EBA1)
                    else if i < 60 then ((b AND c) OR (b AND d) OR (c AND d), 0x8F1BBCDC)
                    else (b XOR c XOR d, 0xCA62C1D6)) in
      \<lparr>h0 = word_rotl 5 (h0 s) + f + h4 s + w + k, h1 = h0 s, h2 = word_rotl 30 b, h3 = c, h4 = d\<rparr>)"

fun sha1_rounds :: "nat \<Rightarrow> 32 word list \<Rightarrow> sha1_state \<Rightarrow> sha1_state" where
  "sha1_rounds i [] s = s"
| "sha1_rounds i (w # ws) s = sha1_rounds (Suc i) ws (sha1_round i w s)"

definition sha1_block :: "sha1_state \<Rightarrow> bytes \<Rightarrow> sha1_state" where
  "sha1_block s blk =
     (let r = sha1_rounds 0 (sha1_expand 64 (map be_word (chunks 4 blk))) s in
      \<lparr>h0 = h0 s + h0 r, h1 = h1 s + h1 r, h2 = h2 s + h2 r, h3 = h3 s + h3 r, h4 = h4 s + h4 r\<rparr>)"

definition sha1 :: "bytes \<Rightarrow> bytes" where
  "sha1 msg = (let s = foldl sha1_block sha1_init (chunks 64 (sha1_pad msg)) in
     concat (map (\<lambda>h. be_bytes 4 (unat h)) [h0 s, h1 s, h2 s, h3 s, h4 s]))"

subsection \<open>HMAC\<close>

definition hmac_key :: "bytes \<Rightarrow> bytes" where
  "hmac_key key = (let k = (if length key > 64 then sha1 key else key) in k @ replicate (64 - length k) 0)"

definition hmac_sha1 :: "bytes \<Rightarrow> bytes \<Rightarrow> bytes" where
  "hmac_sha1 key msg =
     sha1 (map (\<lambda>b. b XOR 0x5C) (hmac_key key) @ sha1 (map (\<lambda>b. b XOR 0x36) (hmac_key key) @ msg))"

lemma length_sha1 [simp]: "length (sha1 msg) = 20"
  by (simp add: sha1_def Let_def be_bytes_def)

lemma length_hmac_sha1 [simp]: "length (hmac_sha1 key msg) = 20"
  by (simp add: hmac_sha1_def)

lemma sha1_pad_blocks: "64 dvd length (sha1_pad msg)"
proof -
  define q r where "q = length msg div 64" and "r = length msg mod 64"
  have r: "r < 64" and n: "length msg = 64 * q + r" by (simp_all add: q_def r_def)
  have "length (sha1_pad msg) = 64 * q + (r + 9 + (119 - r) mod 64)"
    using r by (simp add: sha1_pad_def be_bytes_def n)
  moreover have "r + 9 + (119 - r) mod 64 = (if r \<le> 55 then 64 else 128)"
  proof (cases "r \<le> 55")
    case True
    then have "119 - r = 64 + (55 - r)" by simp
    then have "(119 - r) mod 64 = (55 - r) mod 64" by (metis mod_add_self1)
    with True show ?thesis by simp
  next
    case False
    with r show ?thesis by simp
  qed
  ultimately show ?thesis by (auto split: if_splits)
qed

end
