(* ===== verification/Broker_Auth.thy ===== *)
theory Broker_Auth
  imports Broker_Event Go_Sha1
begin

text \<open>
  The authentication service of the broker (\<^verbatim>\<open>src/broker/auth\<close>): topic flavors and the
  access check over them, device secrets with their cache, and the signature check. The redis
  client is a parameter, a pair of functions over a state of the server; the registry is a
  parameter too, the secret it has for a product and a device, \<open>None\<close> for every error.
\<close>

unbundle bit_operations_syntax

subsection \<open>State\<close>

abbreviation (input) AclRead :: byte where "AclRead \<equiv> 0x01"
abbreviation (input) AclWrite :: byte where "AclWrite \<equiv> 0x02 OR AclRead"

record Context =
  cx_ClientID :: string
  cx_DeviceName :: string
  cx_ProductID :: string
  cx_SecurityMode :: int
  cx_SignMethod :: string
  cx_Timestamp :: string
  cx_Password :: string
  cx_DeviceSecret :: string

datatype auth_error = ErrUnauthorized | ErrSignMethod string | ErrSecretKey string | ErrRegistry

record 'r redis =
  rd_get :: "string \<Rightarrow> 'r \<Rightarrow> string option"
  rd_set :: "string \<Rightarrow> string \<Rightarrow> 'r \<Rightarrow> 'r"

record 'r authService =
  as_redis :: "'r option"
  as_flavors :: "string \<Rightarrow> TopicFlavor list option"

type_synonym device_registry = "string \<Rightarrow> string \<Rightarrow> string option"

definition newAuthService :: "'r option \<Rightarrow> 'r authService" where
  "newAuthService rc = \<lparr>as_redis = rc, as_flavors = (\<lambda>_. None)\<rparr>"

subsection \<open>Topic flavors\<close>

text \<open>\<open>products\<close> is what the registry answers for the tenant: its product identifiers.\<close>

definition auth_Initialize :: "string list option \<Rightarrow> (string \<Rightarrow> TopicFlavor list) \<Rightarrow> 'r authService \<Rightarrow> 'r authService" where
  "auth_Initialize products flavors_of s = (case products of
      None \<Rightarrow> s
    | Some ps \<Rightarrow> foldl (\<lambda>s p. if flavors_of p \<noteq> []
                          then s\<lparr>as_flavors := (as_flavors s)(p \<mapsto> flavors_of p)\<rparr> else s) s ps)"

definition updateTopicFlavor :: "string \<Rightarrow> TopicFlavor \<Rightarrow> 'r authService \<Rightarrow> 'r authService" where
  "updateTopicFlavor productId flavor s = (case as_flavors s productId of
      None \<Rightarrow> s\<lparr>as_flavors := (as_flavors s)(productId \<mapsto> [flavor])\<rparr>
    | Some fs \<Rightarrow> s\<lparr>as_flavors := (as_flavors s)(productId \<mapsto> fs @ [flavor])\<rparr>)"

definition auth_handleEvent :: "event \<Rightarrow> ('r authService, auth_error, unit) go" where
  "auth_handleEvent e s = (case e of
      AuthChange t \<Rightarrow> (Ok (), updateTopicFlavor (ac_ProductID t) (ac_TopicFlavor t) s)
    | _ \<Rightarrow> (Panic, s))"

definition authorize :: "Context \<Rightarrow> string \<Rightarrow> byte \<Rightarrow> 'r authService \<Rightarrow> (auth_error, unit) outcome" where
  "authorize ctx topic access s = (case as_flavors s (cx_ProductID ctx) of
      None \<Rightarrow> Ok ()
    | Some flavors \<Rightarrow>
        (if list_ex (\<lambda>flavor. list_ex (\<lambda>(t, right). t = topic \<and> right AND access \<noteq> 0) (tf_Topics flavor)) flavors
         then Ok () else Err ErrUnauthorized))"

subsection \<open>Authentication\<close>

definition sign_content :: "Context \<Rightarrow> string" where
  "sign_content ctx = ''clientId'' @ cx_ClientID ctx @ ''deviceName'' @ cx_DeviceName ctx @
     ''productId'' @ cx_ProductID ctx @ ''timestamp'' @ cx_Timestamp ctx"

definition sha1mac :: "Context \<Rightarrow> (auth_error, unit) outcome" where
  "sha1mac ctx =
     (if cx_Password ctx = string_of_bytes (hmac_sha1 (bytes_of_string (cx_DeviceSecret ctx)) (bytes_of_string (sign_content ctx)))
      then Ok () else Err ErrUnauthorized)"

definition sign :: "Context \<Rightarrow> (auth_error, unit) outcome" where
  "sign ctx = (if cx_SignMethod ctx = ''sha1mac'' then sha1mac ctx else Err (ErrSignMethod (cx_SignMethod ctx)))"

definition cache_key :: "Context \<Rightarrow> string" where
  "cache_key ctx = cx_ProductID ctx @ ''/'' @ cx_DeviceName ctx"

definition getDeviceSecretKey ::
  "'r redis \<Rightarrow> device_registry \<Rightarrow> Context \<Rightarrow> ('r authService, auth_error, string) go" where
  "getDeviceSecretKey rd reg ctx s =
     (case Option.bind (as_redis s) (rd_get rd (cache_key ctx)) of
        Some val \<Rightarrow> (Ok val, s)
      | None \<Rightarrow>
        (case reg (cx_ProductID ctx) (cx_DeviceName ctx) of
           None \<Rightarrow> (Err ErrRegistry, s)
         | Some secret \<Rightarrow>
             (Ok secret, s\<lparr>as_redis := map_option (rd_set rd (cache_key ctx) secret) (as_redis s)\<rparr>)))"

definition authenticate ::
  "'r redis \<Rightarrow> device_registry \<Rightarrow> Context \<Rightarrow> ('r authService, auth_error, unit) go" where
  "authenticate rd reg ctx s =
     (case getDeviceSecretKey rd reg ctx s of
        (Ok key, t) \<Rightarrow> (sign (ctx\<lparr>cx_DeviceSecret := key\<rparr>), t)
      | (Panic, t) \<Rightarrow> (Panic, t)
      | (Err _, t) \<Rightarrow> (Err (ErrSecretKey (cx_DeviceName ctx)), t))"

subsection \<open>The cache holds what the registry holds\<close>

definition redis_laws :: "'r redis \<Rightarrow> bool" where
  "redis_laws rd \<longleftrightarrow> (\<forall>k v k' r. rd_get rd k' (rd_set rd k v r) = (if k' = k then Some v else rd_get rd k' r))"

definition plain_product :: "string \<Rightarrow> bool" where
  "plain_product p \<longleftrightarrow> CHR ''/'' \<notin> set p"

definition cache_ok :: "'r redis \<Rightarrow> device_registry \<Rightarrow> 'r authService \<Rightarrow> bool" where
  "cache_ok rd reg s \<longleftrightarrow> (\<forall>r k v. as_redis s = Some r \<longrightarrow> rd_get rd k r = Some v \<longrightarrow>
     (\<exists>p d. plain_product p \<and> k = p @ ''/'' @ d \<and> reg p d = Some v))"

lemma key_inj: "plain_product p \<Longrightarrow> plain_product p' \<Longrightarrow> p @ ''/'' @ d = p' @ ''/'' @ d' \<Longrightarrow> p = p' \<and> d = d'"
  by (auto simp: plain_product_def append_eq_append_conv2 append_eq_Cons_conv Cons_eq_append_conv)

lemma cached_secret:
  assumes "cache_ok rd reg s" "plain_product (cx_ProductID ctx)"
    "Option.bind (as_redis s) (rd_get rd (cache_key ctx)) = Some v"
  shows "reg (cx_ProductID ctx) (cx_DeviceName ctx) = Some v"
proof -
  obtain p d where "plain_product p" "cache_key ctx = p @ ''/'' @ d" "reg p d = Some v"
    using assms(1,3) unfolding cache_ok_def bind_eq_Some_conv by blast
  then show ?thesis using key_inj [OF assms(2)] by (metis cache_key_def)
qed

lemma getDeviceSecretKey_spec:
  assumes "cache_ok rd reg s" "plain_product (cx_ProductID ctx)"
  shows "fst (getDeviceSecretKey rd reg ctx s) =
    (case reg (cx_ProductID ctx) (cx_DeviceName ctx) of None \<Rightarrow> Err ErrRegistry | Some k \<Rightarrow> Ok k)"
  using cached_secret [OF assms] by (auto simp: getDeviceSecretKey_def split: option.splits)

lemma getDeviceSecretKey_cache:
  assumes "redis_laws rd" "cache_ok rd reg s" "plain_product (cx_ProductID ctx)"
  shows "cache_ok rd reg (snd (getDeviceSecretKey rd reg ctx s))"
proof (cases "snd (getDeviceSecretKey rd reg ctx s) = s")
  case False
  then obtain r v where r: "as_redis s = Some r" "reg (cx_ProductID ctx) (cx_DeviceName ctx) = Some v"
    and s: "as_redis (snd (getDeviceSecretKey rd reg ctx s)) = Some (rd_set rd (cache_key ctx) v r)"
    by (cases "as_redis s") (auto simp: getDeviceSecretKey_def split: option.splits)
  show ?thesis
    unfolding cache_ok_def
  proof (intro allI impI)
    fix r' k v' assume "as_redis (snd (getDeviceSecretKey rd reg ctx s)) = Some r'" "rd_get rd k r' = Some v'"
    then have "(if k = cache_key ctx then Some v else rd_get rd k r) = Some v'"
      using s assms(1) unfolding redis_laws_def by (metis option.inject)
    then show "\<exists>p d. plain_product p \<and> k = p @ ''/'' @ d \<and> reg p d = Some v'"
      using assms(2,3) r unfolding cache_ok_def by (metis cache_key_def option.inject)
  qed
qed (use assms(2) in simp)

lemma snd_authenticate: "snd (authenticate rd reg ctx s) = snd (getDeviceSecretKey rd reg ctx s)"
  by (simp add: authenticate_def split: prod.splits outcome.splits)

definition auth_run :: "'r redis \<Rightarrow> device_registry \<Rightarrow> Context list \<Rightarrow> 'r authService \<Rightarrow> 'r authService" where
  "auth_run rd reg ctxs s = foldl (\<lambda>s ctx. snd (authenticate rd reg ctx s)) s ctxs"

lemma auth_run_cache:
  assumes "redis_laws rd"
  shows "cache_ok rd reg s \<Longrightarrow> list_all (\<lambda>c. plain_product (cx_ProductID c)) ctxs \<Longrightarrow>
    cache_ok rd reg (auth_run rd reg ctxs s)"
  by (induction ctxs arbitrary: s)
     (auto simp: auth_run_def snd_authenticate intro: getDeviceSecretKey_cache [OF assms])

subsection \<open>Properties\<close>

definition right_password :: "string \<Rightarrow> Context \<Rightarrow> string" where
  "right_password secret ctx = string_of_bytes (hmac_sha1 (bytes_of_string secret) (bytes_of_string (sign_content ctx)))"

lemma authenticate_spec:
  assumes "cache_ok rd reg s" "plain_product (cx_ProductID ctx)"
  shows "fst (authenticate rd reg ctx s) = Ok () \<longleftrightarrow>
    (\<exists>secret. reg (cx_ProductID ctx) (cx_DeviceName ctx) = Some secret \<and> cx_SignMethod ctx = ''sha1mac'' \<and>
       cx_Password ctx = right_password secret ctx)"
  using getDeviceSecretKey_spec [OF assms]
  by (cases "getDeviceSecretKey rd reg ctx s")
     (auto simp: authenticate_def sign_def sha1mac_def right_password_def sign_content_def split: option.splits)

lemma cache_ok_fresh: "(\<And>k. rd_get rd k r = None) \<Longrightarrow> cache_ok rd reg (newAuthService (Some r))"
  by (simp add: cache_ok_def newAuthService_def)


definition map_redis :: "(string \<times> string) list redis" where
  "map_redis = \<lparr>rd_get = (\<lambda>k r. map_of r k), rd_set = (\<lambda>k v r. (k, v) # r)\<rparr>"

definition sample_context :: Context where
  "sample_context = \<lparr>cx_ClientID = ''c1'', cx_DeviceName = ''d1'', cx_ProductID = ''p1'', cx_SecurityMode = 2,
     cx_SignMethod = ''sha1mac'', cx_Timestamp = ''1'', cx_Password = '''', cx_DeviceSecret = ''''\<rparr>"

definition signed_context :: Context where
  "signed_context = sample_context\<lparr>cx_Password := right_password ''key'' sample_context\<rparr>"


text \<open>With a slash in a product identifier the cache gives one device the secret of
  another: after the device \<^verbatim>\<open>b/c\<close> of the product \<^verbatim>\<open>a\<close> was looked up, the device \<^verbatim>\<open>c\<close> of the
  product \<^verbatim>\<open>a/b\<close> gets that device's secret, whatever the registry has for it.\<close>

theorem cache_key_collision:
  assumes "redis_laws rd" "rd_get rd ''a/b/c'' r = None" "reg ''a'' ''b/c'' = Some secret"
    "cx_ProductID c1 = ''a''" "cx_DeviceName c1 = ''b/c''" "cx_ProductID c2 = ''a/b''" "cx_DeviceName c2 = ''c''"
  shows "fst (getDeviceSecretKey rd reg c2 (snd (authenticate rd reg c1 (newAuthService (Some r))))) = Ok secret"
  using assms by (simp add: snd_authenticate getDeviceSecretKey_def newAuthService_def cache_key_def redis_laws_def)

theorem cache_key_collision_witness:
  "fst (getDeviceSecretKey map_redis (\<lambda>p d. if p = ''a'' then Some ''s1'' else Some ''s2'')
     (sample_context\<lparr>cx_ProductID := ''a/b'', cx_DeviceName := ''c''\<rparr>)
     (snd (authenticate map_redis (\<lambda>p d. if p = ''a'' then Some ''s1'' else Some ''s2'')
        (sample_context\<lparr>cx_ProductID := ''a'', cx_DeviceName := ''b/c''\<rparr>) (newAuthService (Some []))))) = Ok ''s1''"
  by (rule cache_key_collision) (simp_all add: map_redis_def redis_laws_def)

lemma authorize_update:
  assumes "as_flavors s (cx_ProductID ctx) \<noteq> None" "authorize ctx topic access s = Ok ()"
  shows "as_flavors (updateTopicFlavor p f s) (cx_ProductID ctx) \<noteq> None \<and>
    authorize ctx topic access (updateTopicFlavor p f s) = Ok ()"
  using assms by (auto simp: authorize_def updateTopicFlavor_def list_ex_iff split: option.splits if_splits)

text \<open>A right once granted to a product that has topic flavors is never taken back: after
  any sequence of flavor changes the access is still authorized.\<close>

theorem rights_never_revoked:
  assumes "as_flavors s (cx_ProductID ctx) \<noteq> None" "authorize ctx topic access s = Ok ()"
  shows "authorize ctx topic access (foldl (\<lambda>s e. snd (auth_handleEvent e s)) s events) = Ok ()"
  using assms
proof (induction events arbitrary: s)
  case (Cons e es)
  have "as_flavors (snd (auth_handleEvent e s)) (cx_ProductID ctx) \<noteq> None \<and>
      authorize ctx topic access (snd (auth_handleEvent e s)) = Ok ()"
    using Cons.prems by (cases e) (simp_all add: auth_handleEvent_def authorize_update)
  then show ?case using Cons.IH by simp
qed simp

definition flavor :: "byte \<Rightarrow> TopicFlavor" where
  "flavor right = \<lparr>tf_FlavorName = ''f'', tf_Builtin = False, tf_TenantId = ''t'', tf_Topics = [(''a'', right)]\<rparr>"

definition flavor_change :: "byte \<Rightarrow> event" where
  "flavor_change right = AuthChange \<lparr>ac_BrokerID = '''', ac_Type = 0, ac_ClientID = '''', ac_Persistent = False,
     ac_ProductID = ''p1'', ac_TopicFlavor = flavor right\<rparr>"

theorem rights_never_revoked_witness:
  "authorize sample_context ''a'' AclWrite (foldl (\<lambda>s e. snd (auth_handleEvent e s))
     (updateTopicFlavor ''p1'' (flavor AclWrite) (newAuthService (None :: unit option))) [flavor_change 0]) = Ok ()"
  by (rule rights_never_revoked)
     (simp_all add: updateTopicFlavor_def newAuthService_def authorize_def flavor_def sample_context_def)

text \<open>The access check: without flavors everything is authorized, otherwise a topic is
  authorized if some flavor names it with a right that shares a bit with the access.\<close>

lemma authorize_iff:
  "authorize ctx topic access s = Ok () \<longleftrightarrow>
     (case as_flavors s (cx_ProductID ctx) of None \<Rightarrow> True
      | Some fs \<Rightarrow> \<exists>f \<in> set fs. \<exists>right. (topic, right) \<in> set (tf_Topics f) \<and> right AND access \<noteq> 0)"
  by (auto simp: authorize_def list_ex_iff split: option.splits)

lemma read_write_bits:
  fixes right :: byte
  assumes "right AND AclRead \<noteq> 0"
  shows "right AND AclWrite \<noteq> 0"
proof
  assume "right AND AclWrite = 0"
  moreover have "right AND AclRead = (right AND AclWrite) AND AclRead" by (simp add: and.assoc)
  ultimately show False using assms by simp
qed

text \<open>A topic flavor whose right has only the read bit authorizes publishing to the topic,
  since the write access includes the read bit and one common bit is enough.\<close>

theorem read_right_authorizes_publish:
  assumes "as_flavors s (cx_ProductID ctx) = Some fs" "f \<in> set fs" "(topic, right) \<in> set (tf_Topics f)"
    "right AND AclRead \<noteq> 0"
  shows "authorize ctx topic AclWrite s = Ok ()"
  using assms read_write_bits [OF assms(4)] by (auto simp: authorize_iff)

theorem read_right_authorizes_publish_witness:
  "authorize sample_context ''a'' AclWrite (updateTopicFlavor ''p1'' (flavor AclRead) (newAuthService (None :: unit option))) = Ok ()"
  by (rule read_right_authorizes_publish [where fs = "[flavor AclRead]" and f = "flavor AclRead" and right = AclRead])
     (simp_all add: updateTopicFlavor_def newAuthService_def flavor_def sample_context_def)

end
