(* ===== verification/Broker_Metric.thy ===== *)
theory Broker_Metric
  imports Sentel_Prelude
begin

text \<open>
  The counters of the broker (\<^verbatim>\<open>src/broker/metric\<close>). A counter object is a map from names to
  64-bit numbers; sessions hold a reference to theirs, and the service keeps one list of
  references for every service name. Counters wrap at their width.
\<close>

type_synonym metric = "(string \<times> 64 word) list"
type_synonym mref = nat

record metricService =
  mt_heap :: "metric list"
  mt_metrics :: "string \<Rightarrow> mref list option"
  mt_stats :: "string \<Rightarrow> mref list option"

definition newMetricService :: metricService where
  "newMetricService = \<lparr>mt_heap = [], mt_metrics = (\<lambda>_. None), mt_stats = (\<lambda>_. None)\<rparr>"

definition counter :: "metric \<Rightarrow> string \<Rightarrow> 64 word" where
  "counter m name = (case map_of m name of None \<Rightarrow> 0 | Some v \<Rightarrow> v)"

definition metric_Add :: "string \<Rightarrow> 64 word \<Rightarrow> metric \<Rightarrow> metric" where
  "metric_Add name value m = AList.update name (counter m name + value) m"

definition metric_Sub :: "string \<Rightarrow> 64 word \<Rightarrow> metric \<Rightarrow> metric" where
  "metric_Sub name value m = AList.update name (counter m name - value) m"

text \<open>The loop over the entries of the other object, in the order they are ranged over.\<close>

fun AddMetric :: "metric \<Rightarrow> metric \<Rightarrow> metric" where
  "AddMetric [] m = m"
| "AddMetric ((k, v) # kvs) m = AddMetric kvs (AList.update k (case map_of m k of None \<Rightarrow> v | Some w \<Rightarrow> w + v) m)"

definition newMetric :: "string \<Rightarrow> metricService \<Rightarrow> mref \<times> metricService" where
  "newMetric service s = (let r = length (mt_heap s); l = (case mt_metrics s service of None \<Rightarrow> [] | Some l \<Rightarrow> l) in
     (r, s\<lparr>mt_heap := mt_heap s @ [[]], mt_metrics := (mt_metrics s)(service \<mapsto> l @ [r])\<rparr>))"

definition newStats :: "string \<Rightarrow> metricService \<Rightarrow> mref \<times> metricService" where
  "newStats service s = (let r = length (mt_heap s); l = (case mt_stats s service of None \<Rightarrow> [] | Some l \<Rightarrow> l) in
     (r, s\<lparr>mt_heap := mt_heap s @ [[]], mt_stats := (mt_stats s)(service \<mapsto> l @ [r])\<rparr>))"

definition sum_metrics :: "metricService \<Rightarrow> mref list \<Rightarrow> metric" where
  "sum_metrics s rs = foldl (\<lambda>m r. AddMetric (mt_heap s ! r) m) [] rs"

definition getMetric :: "string \<Rightarrow> metricService \<Rightarrow> metric" where
  "getMetric service s = (case mt_metrics s service of None \<Rightarrow> [] | Some rs \<Rightarrow> sum_metrics s rs)"

definition getStats :: "string \<Rightarrow> metricService \<Rightarrow> metric" where
  "getStats service s = (case mt_stats s service of None \<Rightarrow> [] | Some rs \<Rightarrow> sum_metrics s rs)"

text \<open>\<^verbatim>\<open>Remove\<close> takes the element out of the list it is in, and does nothing if it is in another.\<close>

definition freeMetric :: "string \<Rightarrow> mref \<Rightarrow> metricService \<Rightarrow> metricService" where
  "freeMetric service r s = (case mt_metrics s service of
      None \<Rightarrow> s
    | Some rs \<Rightarrow> s\<lparr>mt_metrics := (mt_metrics s)(service \<mapsto> remove1 r rs)\<rparr>)"

definition at_metric :: "mref \<Rightarrow> (metric \<Rightarrow> metric) \<Rightarrow> metricService \<Rightarrow> metricService" where
  "at_metric r f s = s\<lparr>mt_heap := (mt_heap s)[r := f (mt_heap s ! r)]\<rparr>"

subsection \<open>Sums\<close>

lemma counter_update [simp]: "counter (AList.update k v m) name = (if name = k then v else counter m name)"
  by (simp add: counter_def update_conv)

lemma counter_Add: "counter (metric_Add k v m) name = counter m name + (if name = k then v else 0)"
  by (simp add: metric_Add_def)

lemma counter_AddMetric:
  "distinct (map fst m') \<Longrightarrow> counter (AddMetric m' m) name = counter m name + counter m' name"
proof (induction m' m rule: AddMetric.induct)
  case (2 k v kvs m)
  have "counter kvs k = 0" using 2(2) by (force simp: counter_def split: option.splits dest: map_of_SomeD)
  moreover have "(case map_of m k of None \<Rightarrow> v | Some w \<Rightarrow> w + v) = counter m k + v"
    by (simp add: counter_def split: option.splits)
  moreover have "counter ((k, v) # kvs) name = (if name = k then v else counter kvs name)"
    by (simp add: counter_def)
  ultimately show ?case using 2 by simp
qed (simp add: counter_def)

definition metrics_wf :: "metricService \<Rightarrow> bool" where
  "metrics_wf s \<longleftrightarrow> (\<forall>m \<in> set (mt_heap s). distinct (map fst m)) \<and>
     (\<forall>service rs. mt_metrics s service = Some rs \<longrightarrow> distinct rs \<and> (\<forall>r \<in> set rs. r < length (mt_heap s)))"

lemma counter_sum:
  assumes "\<forall>m \<in> set (mt_heap s). distinct (map fst m)" "\<forall>r \<in> set rs. r < length (mt_heap s)"
  shows "counter (sum_metrics s rs) name = (\<Sum>r \<leftarrow> rs. counter (mt_heap s ! r) name)"
proof -
  have "counter (foldl (\<lambda>m r. AddMetric (mt_heap s ! r) m) m rs) name =
      counter m name + (\<Sum>r \<leftarrow> rs. counter (mt_heap s ! r) name)" for m
    using assms(2)
  proof (induction rs arbitrary: m)
    case (Cons r rs)
    then have "distinct (map fst (mt_heap s ! r))" using assms(1) by simp
    with Cons show ?case by (simp add: counter_AddMetric add.assoc)
  qed simp
  from this [of "[]"] show ?thesis by (simp add: sum_metrics_def counter_def)
qed

inductive metric_step :: "metricService \<Rightarrow> metricService \<Rightarrow> bool" where
  "metric_step s (snd (newMetric service s))"
| "metric_step s (snd (newStats service s))"
| "metric_step s (freeMetric service r s)"
| "r < length (mt_heap s) \<Longrightarrow> metric_step s (at_metric r (metric_Add k v) s)"
| "r < length (mt_heap s) \<Longrightarrow> metric_step s (at_metric r (metric_Sub k v) s)"

inductive metric_reach :: "metricService \<Rightarrow> bool" where
  metric_start: "metric_reach newMetricService"
| metric_next: "metric_reach s \<Longrightarrow> metric_step s t \<Longrightarrow> metric_reach t"

lemma metrics_wf_at:
  assumes "metrics_wf s" "r < length (mt_heap s)" "\<And>m. distinct (map fst m) \<Longrightarrow> distinct (map fst (f m))"
  shows "metrics_wf (at_metric r f s)"
  using assms unfolding metrics_wf_def at_metric_def
  by (auto dest!: set_update_subset_insert [THEN subsetD])

lemma metrics_wf_step: "metric_step s t \<Longrightarrow> metrics_wf s \<Longrightarrow> metrics_wf t"
proof (induction rule: metric_step.induct)
  case (1 s service)
  then show ?case by (fastforce simp: metrics_wf_def newMetric_def Let_def split: option.splits if_splits)
next
  case (2 s service)
  then show ?case by (fastforce simp: metrics_wf_def newStats_def Let_def)
next
  case (3 s service r)
  then show ?case
    by (auto simp: metrics_wf_def freeMetric_def split: option.splits if_splits dest: notin_set_remove1 set_remove1_subset [THEN subsetD])
qed (auto intro!: metrics_wf_at simp: metric_Add_def metric_Sub_def distinct_update)

lemma metric_reach_wf: "metric_reach s \<Longrightarrow> metrics_wf s"
  by (induction rule: metric_reach.induct) (auto simp: metrics_wf_step, simp add: metrics_wf_def newMetricService_def)

subsection \<open>Properties\<close>

text \<open>What the service reports for a counter is the sum, modulo the width of the counter,
  over the counter objects of the sessions that are alive; releasing a session's object takes
  its share back out of the report.\<close>

theorem metric_report_is_sum:
  assumes "metric_reach s" "mt_metrics s service = Some rs"
  shows "counter (getMetric service s) name = (\<Sum>r \<leftarrow> rs. counter (mt_heap s ! r) name) \<and>
    (r \<in> set rs \<longrightarrow> counter (getMetric service (freeMetric service r s)) name =
       counter (getMetric service s) name - counter (mt_heap s ! r) name)"
proof -
  have wf: "\<forall>m \<in> set (mt_heap s). distinct (map fst m)" "\<forall>r \<in> set rs. r < length (mt_heap s)"
    using metric_reach_wf [OF assms(1)] assms(2) by (auto simp: metrics_wf_def)
  let ?c = "\<lambda>r. counter (mt_heap s ! r) name"
  have sum: "counter (sum_metrics s xs) name = sum_list (map ?c xs)" if "set xs \<subseteq> set rs" for xs
    using counter_sum [OF wf(1)] wf(2) that by blast
  have heap: "sum_metrics (freeMetric service r s) xs = sum_metrics s xs" for xs
    using assms(2) by (simp add: sum_metrics_def freeMetric_def)
  have "sum_list (map ?c (remove1 r rs)) = sum_list (map ?c rs) - ?c r" if "r \<in> set rs"
    using sum_list_map_remove1 [OF that, of ?c] by (simp add: algebra_simps)
  moreover have "getMetric service (freeMetric service r s) = sum_metrics (freeMetric service r s) (remove1 r rs)"
    using assms(2) by (simp add: getMetric_def freeMetric_def)
  ultimately show ?thesis
    using sum [of rs] sum [of "remove1 r rs"] set_remove1_subset [of r rs] assms(2)
    by (simp add: heap getMetric_def)
qed

definition sample_metrics :: metricService where
  "sample_metrics = at_metric 1 (metric_Add ''a'' 2) (at_metric 0 (metric_Add ''a'' 3)
     (snd (newMetric ''mqtt'' (snd (newMetric ''mqtt'' newMetricService)))))"

theorem metric_report_is_sum_witness:
  "counter (getMetric ''mqtt'' sample_metrics) ''a'' = 5 \<and>
   counter (getMetric ''mqtt'' (freeMetric ''mqtt'' 0 sample_metrics)) ''a'' = 2"
proof -
  have "metric_reach (snd (newMetric ''mqtt'' (snd (newMetric ''mqtt'' newMetricService))))"
    by (meson metric_start metric_next metric_step.intros(1))
  then have r: "metric_reach sample_metrics"
    unfolding sample_metrics_def
    by (elim metric_next [OF metric_next, OF _ metric_step.intros(4) metric_step.intros(4)])
       (simp_all add: newMetricService_def newMetric_def Let_def at_metric_def)
  have s: "mt_metrics sample_metrics ''mqtt'' = Some [0, 1]" "counter (mt_heap sample_metrics ! 0) ''a'' = 3"
    "counter (mt_heap sample_metrics ! 1) ''a'' = 2"
    by (simp_all add: sample_metrics_def newMetricService_def newMetric_def Let_def at_metric_def counter_Add)
       (simp_all add: counter_def)
  from metric_report_is_sum [OF r s(1), of "''a''" 0] s(2,3) show ?thesis by simp
qed

end
