(* ===== verification/Mqtt_Session.thy ===== *)
theory Mqtt_Session
  imports Mqtt_Packet Session_Manager Broker_Auth Broker_Metric
begin

text \<open>
  The MQTT session of \<^verbatim>\<open>src/broker/mqtt/mqtt_session.go\<close>: the handlers of the packets a client
  sends, what they write to the connection, and the loop that delivers queued messages. The
  state of a handler is a node: the session, and the services of the broker it calls. An event
  it notifies is recorded, since the event service takes it up on its own. The connection is a
  parameter, a function that writes bytes and says how many it wrote and whether it failed; the
  session keeps the state of the connection and whether it still holds it, which it does not
  once it is closed.
\<close>

unbundle bit_operations_syntax

subsection \<open>State\<close>

abbreviation (input) mqttStateNew :: byte where "mqttStateNew \<equiv> 1"
abbreviation (input) mqttStateConnected :: byte where "mqttStateConnected \<equiv> 2"
abbreviation (input) mqttStateDisconnecting :: byte where "mqttStateDisconnecting \<equiv> 3"
abbreviation (input) mqttStateDisconnected :: byte where "mqttStateDisconnected \<equiv> 8"
abbreviation (input) mqttProtocolInvalid :: byte where "mqttProtocolInvalid \<equiv> 0"
abbreviation (input) mqttProtocol31 :: byte where "mqttProtocol31 \<equiv> 1"
abbreviation (input) mqttProtocol311 :: byte where "mqttProtocol311 \<equiv> 2"
abbreviation (input) mqttMsgStateQueued :: byte where "mqttMsgStateQueued \<equiv> 11"
abbreviation (input) availableQueue :: "16 word" where "availableQueue \<equiv> 1"
abbreviation (input) availableList :: "16 word" where "availableList \<equiv> 2"
abbreviation (input) availableAll :: "16 word" where "availableAll \<equiv> availableQueue OR availableList"

datatype mqtt_error =
    MPacket packet_error | MState byte byte | MConnectRefused | MBadVersion byte | MBadName string
  | MBadFlags | MBadWill | MBadClientId | MBadUser string | MBadOption string | MAuth auth_error
  | MQueue queue_error | MBadQos | MBadTopic | MQos2 | MPubAckLength | MUnrecognized byte
  | MTimeout string | MDecoder packet_error | MWrite | MSendFailed | MSpin

abbreviation (input) mqttErrorInvalidProtocol :: mqtt_error where
  "mqttErrorInvalidProtocol \<equiv> MPacket ErrInvalidProtocol"

record 'c net =
  nc_write :: "bytes \<Rightarrow> 'c \<Rightarrow> (int \<times> bool) \<times> 'c"
  nc_close :: "'c \<Rightarrow> 'c"

text \<open>
  What the session uses of other code: the database, the cache, the registry, the network, the
  configured size limit (0 where there is none), and the number of turns its delivery loop is
  followed for.
\<close>

record ('db, 'r, 'c) deps =
  d_mongo :: "'db mongo"
  d_redis :: "'r redis"
  d_registry :: device_registry
  d_net :: "'c net"
  d_limit :: int
  d_fuel :: nat

record 'c mqttSession =
  s_ref :: observer
  s_conn :: 'c
  s_connOpen :: bool
  s_clientID :: string
  s_keepalive :: "16 word"
  s_protocol :: byte
  s_cleanSession :: byte
  s_willMsg :: "Message option"
  s_mountpoint :: string
  s_msgState :: byte
  s_sessionState :: byte
  s_authctx :: Context
  s_aliveTimer :: bool
  s_queue :: "qref option"
  s_nextPacketID :: "16 word"
  s_authNeed :: bool
  s_metrics :: mref
  s_productID :: string
  s_chansOpen :: bool

record ('db, 'r, 'c) node =
  nd_s :: "'c mqttSession"
  nd_sm :: "'db sessionManager"
  nd_auth :: "'r authService"
  nd_metrics :: metricService
  nd_events :: "event list"

type_synonym ('db, 'r, 'c) handling = "(('db, 'r, 'c) node, mqtt_error, unit) go"

definition emptyContext :: Context where
  "emptyContext = \<lparr>cx_ClientID = [], cx_DeviceName = [], cx_ProductID = [], cx_SecurityMode = 0,
     cx_SignMethod = [], cx_Timestamp = [], cx_Password = [], cx_DeviceSecret = []\<rparr>"

text \<open>\<open>auth\<close> is the configured value of \<^verbatim>\<open>auth\<close>; without one authentication is needed.\<close>

definition newMqttSession :: "observer \<Rightarrow> bool option \<Rightarrow> 'c \<Rightarrow> metricService \<Rightarrow> 'c mqttSession \<times> metricService" where
  "newMqttSession ref auth conn ms = (let (m, ms') = newMetric ''mqtt'' ms in
     (\<lparr>s_ref = ref, s_conn = conn, s_connOpen = True, s_clientID = [], s_keepalive = 0, s_protocol = mqttProtocolInvalid,
       s_cleanSession = 0, s_willMsg = None, s_mountpoint = [], s_msgState = mqttMsgStateQueued,
       s_sessionState = mqttStateNew, s_authctx = emptyContext, s_aliveTimer = False, s_queue = None,
       s_nextPacketID = 0, s_authNeed = (case auth of None \<Rightarrow> True | Some b \<Rightarrow> b), s_metrics = m,
       s_productID = [], s_chansOpen = True\<rparr>, ms'))"

subsection \<open>Sequencing\<close>

definition thenM :: "('s, 'e, 'a) go \<Rightarrow> ('s, 'e, 'b) go \<Rightarrow> ('s, 'e, 'b) go" where
  "thenM m k = seqM m (\<lambda>_. k)"

definition doM :: "('s \<Rightarrow> 's) \<Rightarrow> ('s, 'e, unit) go" where
  "doM f s = (Ok (), f s)"

text \<open>A call whose error is not looked at.\<close>

definition ignoreM :: "('s, 'e, 'a) go \<Rightarrow> ('s, 'f, unit) go" where
  "ignoreM m s = (case m s of (Panic, t) \<Rightarrow> (Panic, t) | (_, t) \<Rightarrow> (Ok (), t))"

text \<open>A read from the packet, whose error the handler returns, or answers with \<open>h\<close>.\<close>

definition readM :: "(mqttPacket, 'p, 'a) go \<Rightarrow> mqttPacket \<Rightarrow> ('p \<Rightarrow> ('s, 'e, 'b) go) \<Rightarrow>
    ('a \<Rightarrow> mqttPacket \<Rightarrow> ('s, 'e, 'b) go) \<Rightarrow> ('s, 'e, 'b) go" where
  "readM r pk h k = (case r pk of
      (Ok a, pk') \<Rightarrow> k a pk'
    | (Err e, pk') \<Rightarrow> h e
    | (Panic, pk') \<Rightarrow> panicM)"

definition updS :: "('c mqttSession \<Rightarrow> 'c mqttSession) \<Rightarrow> ('db, 'r, 'c) node \<Rightarrow> ('db, 'r, 'c) node" where
  "updS f n = n\<lparr>nd_s := f (nd_s n)\<rparr>"

definition notifyEvent :: "event \<Rightarrow> ('db, 'r, 'c) node \<Rightarrow> ('db, 'r, 'c) node" where
  "notifyEvent e n = n\<lparr>nd_events := nd_events n @ [SetBrokerId (sm_self (nd_sm n)) e]\<rparr>"

definition addMetricOf :: "string \<Rightarrow> ('db, 'r, 'c) node \<Rightarrow> ('db, 'r, 'c) node" where
  "addMetricOf name n = n\<lparr>nd_metrics := at_metric (s_metrics (nd_s n)) (metric_Add name 1) (nd_metrics n)\<rparr>"

definition setSessionState :: "byte \<Rightarrow> ('db, 'r, 'c) node \<Rightarrow> ('db, 'r, 'c) node" where
  "setSessionState state = updS (\<lambda>p. p\<lparr>s_sessionState := state\<rparr>)"

definition checkSessionState :: "byte \<Rightarrow> ('db, 'r, 'c) handling" where
  "checkSessionState state n =
     (if s_sessionState (nd_s n) \<noteq> state then (Err (MState state (s_sessionState (nd_s n))), n) else (Ok (), n))"

subsection \<open>Writing packets\<close>

function write_loop_conn :: "'c net \<Rightarrow> slice \<Rightarrow> int \<Rightarrow> int \<Rightarrow> ('c, mqtt_error, unit) go" where
  "write_loop_conn net payload pos toprocess c =
     (if toprocess > 0 then
        case slice_sub payload pos toprocess of
          None \<Rightarrow> (Panic, c)
        | Some s \<Rightarrow>
            (case nc_write net (slice_view s) c of ((len, failed), c') \<Rightarrow>
               if failed then (Err MWrite, c')
               else if len > 0 then write_loop_conn net payload (pos + len) (toprocess - len) c'
               else (Err MSendFailed, c'))
      else (Ok (), c))"
  by pat_completeness auto
termination by (relation "measure (\<lambda>(net, payload, pos, toprocess, c). nat toprocess)") auto

definition writePacket :: "('db, 'r, 'c) deps \<Rightarrow> mqttPacket \<Rightarrow> ('db, 'r, 'c) handling" where
  "writePacket d packet n =
     (if \<not> s_connOpen (nd_s n) then if p_length packet > 0 then (Panic, n) else (Ok (), n)
      else case write_loop_conn (d_net d) (p_payload packet) 0 (p_length packet) (s_conn (nd_s n)) of
          (r, c') \<Rightarrow> (r, updS (\<lambda>p. p\<lparr>s_conn := c'\<rparr>) n))"

definition fresh_packet :: "byte \<Rightarrow> int \<Rightarrow> mqttPacket" where
  "fresh_packet cmd len = newMqttPacket\<lparr>p_remainingMult := 0, p_command := cmd, p_remainingLength := len\<rparr>"

text \<open>\<^verbatim>\<open>packet.payload[packet.pos+i] = b\<close>\<close>

definition setAt :: "int \<Rightarrow> byte \<Rightarrow> (mqttPacket, packet_error, unit) go" where
  "setAt i b p = (case slice_set (p_payload p) (p_pos p + i) b of
      None \<Rightarrow> (Panic, p)
    | Some s \<Rightarrow> (Ok (), p\<lparr>p_payload := s\<rparr>))"

definition sendBuilt :: "('db, 'r, 'c) deps \<Rightarrow> (mqttPacket, packet_error, unit) go \<Rightarrow> mqttPacket \<Rightarrow> ('db, 'r, 'c) handling" where
  "sendBuilt d build packet n = (case build packet of
      (Ok _, pk) \<Rightarrow> writePacket d pk n
    | (_, pk) \<Rightarrow> (Panic, n))"

definition sendSimpleCommand :: "('db, 'r, 'c) deps \<Rightarrow> byte \<Rightarrow> ('db, 'r, 'c) handling" where
  "sendSimpleCommand d cmd = sendBuilt d (ignoreM initializePacket) (fresh_packet cmd 1)"

definition sendConnAck :: "('db, 'r, 'c) deps \<Rightarrow> byte \<Rightarrow> byte \<Rightarrow> ('db, 'r, 'c) handling" where
  "sendConnAck d ack result =
     sendBuilt d (thenM (ignoreM initializePacket) (thenM (setAt 0 ack) (setAt 1 result))) (fresh_packet CONNACK 2)"

definition sendSubAck :: "('db, 'r, 'c) deps \<Rightarrow> 16 word \<Rightarrow> bytes \<Rightarrow> ('db, 'r, 'c) handling" where
  "sendSubAck d pid payload =
     sendBuilt d (thenM (ignoreM initializePacket) (thenM (ignoreM (writeUint16 pid))
         (if payload \<noteq> [] then ignoreM (writeBytes payload) else retM ())))
       (fresh_packet SUBACK (2 + int (length payload)))"

definition sendCommandWithPacketID :: "('db, 'r, 'c) deps \<Rightarrow> byte \<Rightarrow> 16 word \<Rightarrow> bool \<Rightarrow> ('db, 'r, 'c) handling" where
  "sendCommandWithPacketID d command pid dup =
     sendBuilt d (thenM (ignoreM initializePacket)
         (thenM (setAt 0 (ucast (drop_bit 8 (pid AND 0xFF00)))) (setAt 1 (ucast (pid AND 0xFF)))))
       (fresh_packet (if dup then command OR 8 else command) 2)"

definition sendPubAck :: "('db, 'r, 'c) deps \<Rightarrow> 16 word \<Rightarrow> ('db, 'r, 'c) handling" where
  "sendPubAck d pid = sendCommandWithPacketID d PUBACK pid False"

definition sendPubRec :: "('db, 'r, 'c) deps \<Rightarrow> 16 word \<Rightarrow> ('db, 'r, 'c) handling" where
  "sendPubRec d pid = sendCommandWithPacketID d PUBREC pid False"

definition sendPubComp :: "('db, 'r, 'c) deps \<Rightarrow> 16 word \<Rightarrow> ('db, 'r, 'c) handling" where
  "sendPubComp d pid = sendCommandWithPacketID d PUBCOMP pid False"

definition sendPingRsp :: "('db, 'r, 'c) deps \<Rightarrow> ('db, 'r, 'c) handling" where
  "sendPingRsp d = sendSimpleCommand d PINGRESP"

definition handlePingReq :: "('db, 'r, 'c) deps \<Rightarrow> ('db, 'r, 'c) handling" where
  "handlePingReq d = sendPingRsp d"

definition makePacketID :: "16 word \<Rightarrow> 16 word \<times> 16 word" where
  "makePacketID nextPacketID = (if nextPacketID < 65535 then (nextPacketID, nextPacketID + 1) else (0, 0))"

definition publish_body :: "Message \<Rightarrow> 16 word \<Rightarrow> (mqttPacket, packet_error, unit) go" where
  "publish_body msg pid =
     thenM (ignoreM initializePacket) (thenM (ignoreM (writeString (m_Topic msg)))
       (thenM (if m_Qos msg > 0 then ignoreM (writeUint16 pid) else retM ())
         (ignoreM (writeBytes (m_Payload msg)))))"

definition publish_packet :: "Message \<Rightarrow> mqttPacket" where
  "publish_packet msg = newMqttPacket\<lparr>p_command := PUBLISH, p_qos := m_Qos msg, p_dup := m_Dup msg,
     p_remainingLength := 2 + int (length (m_Topic msg)) + int (length (m_Payload msg)) + (if m_Qos msg > 0 then 2 else 0)\<rparr>"

definition sendPublish :: "('db, 'r, 'c) deps \<Rightarrow> Message \<Rightarrow> ('db, 'r, 'c) handling" where
  "sendPublish d msg n =
     (if m_Qos msg > 0
      then let (pid, nxt) = makePacketID (s_nextPacketID (nd_s n)) in
           sendBuilt d (publish_body msg pid) (publish_packet msg) (updS (\<lambda>p. p\<lparr>s_nextPacketID := nxt\<rparr>) n)
      else sendBuilt d (publish_body msg 0) (publish_packet msg) n)"

subsection \<open>Delivering queued messages\<close>

definition resend :: "('db, 'r, 'c) deps \<Rightarrow> qref \<Rightarrow> nat \<Rightarrow> ('db, 'r, 'c) handling" where
  "resend d r i n = (case tl_Get (int i) (q_list (q_at (sm_queues (nd_sm n)) r)) of
      Ok (Some msg) \<Rightarrow>
        (case sendPublish d msg n of
           (Ok _, t) \<Rightarrow> (Ok (), addMetricOf ''packets/publish/sent'' (addMetricOf ''messages/sent'' t))
         | (Err _, t) \<Rightarrow> (Ok (), t)
         | (Panic, t) \<Rightarrow> (Panic, t))
    | Ok None \<Rightarrow> (Ok (), n)
    | _ \<Rightarrow> (Panic, n))"

fun resend_all :: "('db, 'r, 'c) deps \<Rightarrow> qref \<Rightarrow> nat list \<Rightarrow> ('db, 'r, 'c) handling" where
  "resend_all d r [] n = (Ok (), n)"
| "resend_all d r (i # is) n = thenM (resend d r i) (resend_all d r is) n"

definition on_q :: "('db qstate \<Rightarrow> 'a \<times> 'db qstate) \<Rightarrow> ('db, 'r, 'c) node \<Rightarrow> 'a \<times> ('db, 'r, 'c) node" where
  "on_q f n = (case on_queues f (nd_sm n) of (a, m) \<Rightarrow> (a, n\<lparr>nd_sm := m\<rparr>))"

definition on_list :: "qref \<Rightarrow> (transientList, unit, unit) go \<Rightarrow> ('db, 'r, 'c) handling" where
  "on_list r f n = (let q = q_at (sm_queues (nd_sm n)) r in
     case f (q_list q) of
       (Panic, l) \<Rightarrow> (Panic, n)
     | (_, l) \<Rightarrow> (Ok (), snd (on_q (\<lambda>s. ((), q_put r (q\<lparr>q_list := l\<rparr>) s)) n)))"

text \<open>One message that was sent: it leaves the queue, and waits in the list if its delivery is
  to be acknowledged. Taking from an empty queue does not return.\<close>

definition sent_one :: "('db, 'r, 'c) deps \<Rightarrow> qref \<Rightarrow> Message \<Rightarrow> ('db, 'r, 'c) handling" where
  "sent_one d r msg n = (case on_q (q_Pop (d_mongo d) r) n of
      (Ok _, t) \<Rightarrow>
        (let u = addMetricOf ''packets/publish/sent'' (addMetricOf ''messages/sent'' t) in
         if m_Qos msg = 1 then on_list r (tl_Pushback (msg\<lparr>m_Dup := True\<rparr>)) u else (Ok (), u))
    | (Err _, t) \<Rightarrow> (Err MSpin, t)
    | (Panic, t) \<Rightarrow> (Panic, t))"

fun drain :: "('db, 'r, 'c) deps \<Rightarrow> qref \<Rightarrow> nat \<Rightarrow> ('db, 'r, 'c) handling" where
  "drain d r fuel n =
     (if q_Length (d_mongo d) r (sm_queues (nd_sm n)) > 0 then
        case fuel of
          0 \<Rightarrow> (Err MSpin, n)
        | Suc k \<Rightarrow>
            (case q_Front (d_mongo d) r (sm_queues (nd_sm n)) of
               Ok (Some msg) \<Rightarrow>
                 (case sendPublish d msg n of
                    (Ok _, t) \<Rightarrow> thenM (sent_one d r msg) (drain d r k) t
                  | (Err _, t) \<Rightarrow> drain d r k t
                  | (Panic, t) \<Rightarrow> (Panic, t))
             | Ok None \<Rightarrow> drain d r k n
             | _ \<Rightarrow> (Panic, n))
      else (Ok (), n))"

declare drain.simps [simp del]

definition handleDataAvailableNotification :: "('db, 'r, 'c) deps \<Rightarrow> 16 word \<Rightarrow> ('db, 'r, 'c) handling" where
  "handleDataAvailableNotification d t n = (case s_queue (nd_s n) of
      None \<Rightarrow> if t AND availableAll = 0 then (Ok (), n) else (Panic, n)
    | Some r \<Rightarrow>
        thenM (if t AND availableList = availableList
               then resend_all d r [0..<tl_Length (q_list (q_at (sm_queues (nd_sm n)) r))] else retM ())
          (if t AND availableQueue = availableQueue then drain d r (d_fuel d) else retM ()) n)"

subsection \<open>Ending a session\<close>

definition will_event :: "string \<Rightarrow> string \<Rightarrow> Message \<Rightarrow> event" where
  "will_event clientID productID msg = TopicPublish \<lparr>tp_BrokerID = [], tp_Type = 0, tp_ClientID = clientID,
     tp_ProductID = productID, tp_Persistent = False, tp_ID = 0, tp_Topic = m_Topic msg, tp_Payload = m_Payload msg,
     tp_Qos = m_Qos msg, tp_Direction = 0, tp_Retain = m_Retain msg, tp_Dup = False\<rparr>"

definition session_event :: "string \<Rightarrow> bool \<Rightarrow> SessionEvent" where
  "session_event clientID persistent = \<lparr>se_BrokerId = [], se_Type = 0, se_ClientId = clientID,
     se_Persistent = persistent, se_Retain = False\<rparr>"

text \<open>\<open>reason\<close> says whether the session ends because of an error.\<close>

definition disconnect :: "('db, 'r, 'c) deps \<Rightarrow> bool \<Rightarrow> ('db, 'r, 'c) handling" where
  "disconnect d reason n = (let p = nd_s n in
     if s_sessionState p = mqttStateDisconnected then (Ok (), n)
     else
       let n1 = (case s_willMsg p of
                   Some msg \<Rightarrow> if reason then notifyEvent (will_event (s_clientID p) (s_productID p) msg) n else n
                 | None \<Rightarrow> n);
           n2 = notifyEvent (SessionDestroy (session_event (s_clientID p) False)) n1;
           n3 = setSessionState mqttStateDisconnected n2;
           n4 = updS (\<lambda>p. p\<lparr>s_aliveTimer := False\<rparr>) n3 in
       if \<not> s_connOpen p then (Panic, n4)
       else (Ok (), (updS (\<lambda>p. p\<lparr>s_conn := nc_close (d_net d) (s_conn p), s_connOpen := False, s_chansOpen := False\<rparr>) n4)
         \<lparr>nd_metrics := freeMetric ''mqtt'' (s_metrics p) (nd_metrics n4)\<rparr>))"

definition handleDisconnect :: "('db, 'r, 'c) deps \<Rightarrow> mqttPacket \<Rightarrow> ('db, 'r, 'c) handling" where
  "handleDisconnect d packet n =
     (if p_remainingLength packet \<noteq> 0 then (Err mqttErrorInvalidProtocol, n)
      else if s_protocol (nd_s n) = mqttProtocol311 \<and> p_command packet AND 0x0F \<noteq> 0 then (Err mqttErrorInvalidProtocol, n)
      else disconnect d False (setSessionState mqttStateDisconnecting (updS (\<lambda>p. p\<lparr>s_willMsg := None\<rparr>) n)))"

subsection \<open>Request options\<close>

text \<open>The context is returned with the error, filled as far as the parsing got.\<close>

fun parse_pairs :: "string list \<Rightarrow> Context \<Rightarrow> Context \<times> mqtt_error option" where
  "parse_pairs [] ctx = (ctx, None)"
| "parse_pairs (pair # pairs) ctx = (case split_on CHR ''='' pair of
      [key, val] \<Rightarrow>
        if key = ''securemode'' then
          (case Atoi val of
             None \<Rightarrow> (ctx, Some (MBadOption pair))
           | Some v \<Rightarrow> parse_pairs pairs (ctx\<lparr>cx_SecurityMode := v\<rparr>))
        else if key = ''signmethod'' then parse_pairs pairs (ctx\<lparr>cx_SignMethod := val\<rparr>)
        else if key = ''timestamp'' then
          (case ParseUint val of
             None \<Rightarrow> (ctx, Some (MBadOption pair))
           | Some _ \<Rightarrow> parse_pairs pairs (ctx\<lparr>cx_Timestamp := val\<rparr>))
        else (ctx, Some (MBadOption pair))
    | _ \<Rightarrow> (ctx, Some (MBadOption pair)))"

definition parseRequestOptions :: "string \<Rightarrow> string \<Rightarrow> string \<Rightarrow> Context \<times> mqtt_error option" where
  "parseRequestOptions clientID userName password =
     (case split_on CHR ''&'' userName of
        [device, product] \<Rightarrow>
          (let ctx = emptyContext\<lparr>cx_DeviceName := device, cx_ProductID := product\<rparr> in
           case split_on CHR ''|'' clientID of
             [name, options] \<Rightarrow> parse_pairs (split_on CHR '','' options) (ctx\<lparr>cx_ClientID := name\<rparr>)
           | _ \<Rightarrow> (ctx, Some (MBadOption clientID)))
      | _ \<Rightarrow> (emptyContext, Some (MBadUser userName)))"

subsection \<open>Connecting\<close>

definition connect_protocol :: "('db, 'r, 'c) deps \<Rightarrow> string \<Rightarrow> byte \<Rightarrow> byte \<Rightarrow> byte \<Rightarrow> ('db, 'r, 'c) handling" where
  "connect_protocol d name version cflags command =
     (if name = ''MQIsdp'' then
        if version AND 0x7F \<noteq> 3
        then thenM (ignoreM (sendConnAck d 0 1)) (errM (MBadVersion version))
        else doM (updS (\<lambda>p. p\<lparr>s_protocol := mqttProtocol31\<rparr>))
      else if name = ''MQTT'' then
        if version AND 0x7F \<noteq> 4
        then thenM (ignoreM (sendConnAck d 0 1)) (errM (MBadVersion version))
        else if command AND 0x0F \<noteq> 0 then errM (MBadVersion version)
        else thenM (doM (updS (\<lambda>p. p\<lparr>s_protocol := mqttProtocol311\<rparr>)))
          (if cflags AND 0x01 \<noteq> 0 then errM MBadFlags else retM ())
      else errM (MBadName name))"

definition will_message :: "string \<Rightarrow> byte \<Rightarrow> bool \<Rightarrow> bytes \<Rightarrow> Message" where
  "will_message topic qos retain payload = \<lparr>m_Topic = topic, m_PacketId = 0, m_Direction = 0, m_State = 0,
     m_Qos = qos, m_Dup = False, m_Retain = retain, m_Payload = payload, m_Time = 0\<rparr>"

definition read_will :: "byte \<Rightarrow> string \<Rightarrow> byte \<Rightarrow> (mqttPacket, mqtt_error, Message option) go" where
  "read_will protocol mountpoint cflags pk =
     (let willQos = drop_bit 3 (cflags AND 0x18); willRetain = (cflags AND 0x20 = 0x20) in
      if cflags AND 0x04 > 0 then
        (case readString pk of
           (Ok topic, pk1) \<Rightarrow>
             if topic = [] then (Err mqttErrorInvalidProtocol, pk1)
             else (case readUint16 pk1 of
                 (Ok len, pk2) \<Rightarrow>
                   if len > 0 then
                     (case readBytes (uint len) pk2 of
                        (Ok payload, pk3) \<Rightarrow> (Ok (Some (will_message (mountpoint @ topic) willQos willRetain payload)), pk3)
                      | (Err _, pk3) \<Rightarrow> (Err mqttErrorInvalidProtocol, pk3)
                      | (Panic, pk3) \<Rightarrow> (Panic, pk3))
                   else (Ok (Some (will_message (mountpoint @ topic) willQos willRetain [])), pk2)
               | (Err _, pk2) \<Rightarrow> (Err mqttErrorInvalidProtocol, pk2)
               | (Panic, pk2) \<Rightarrow> (Panic, pk2))
         | (Err _, pk1) \<Rightarrow> (Err mqttErrorInvalidProtocol, pk1)
         | (Panic, pk1) \<Rightarrow> (Panic, pk1))
      else if protocol = mqttProtocol311 \<and> (willQos \<noteq> 0 \<or> willRetain) then (Err mqttErrorInvalidProtocol, pk)
      else (Ok None, pk))"

text \<open>Both strings are read before their errors are looked at.\<close>

definition read_credentials :: "(mqttPacket, unit, string \<times> string) go" where
  "read_credentials pk = (case readString pk of
      (r1, pk1) \<Rightarrow> if r1 = Panic then (Panic, pk1) else (case readString pk1 of
        (r2, pk2) \<Rightarrow> (case (r1, r2) of
            (_, Panic) \<Rightarrow> (Panic, pk2)
          | (Ok u, Ok p) \<Rightarrow> (Ok (u, p), pk2)
          | _ \<Rightarrow> (Err (), pk2))))"

definition authenticate_client :: "('db, 'r, 'c) deps \<Rightarrow> ('db, 'r, 'c) handling" where
  "authenticate_client d n =
     (if \<not> s_authNeed (nd_s n) then (Ok (), n)
      else case authenticate (d_redis d) (d_registry d) (s_authctx (nd_s n)) (nd_auth n) of
        (Ok _, a) \<Rightarrow> (Ok (), n\<lparr>nd_auth := a\<rparr>)
      | (Err e, a) \<Rightarrow>
          thenM (if e = ErrUnauthorized then ignoreM (sendConnAck d 0 5) else retM ())
            (thenM (disconnect d True) (errM (MAuth e))) (n\<lparr>nd_auth := a\<rparr>)
      | (Panic, a) \<Rightarrow> (Panic, n\<lparr>nd_auth := a\<rparr>))"

definition resume_event :: "string \<Rightarrow> event" where
  "resume_event clientID = SessionResume \<lparr>sr_BrokerId = [], sr_Type = 0, sr_ClientId = clientID\<rparr>"

text \<open>An old session of the client gives way; the flag says whether there was one.\<close>

definition takeover :: "byte \<Rightarrow> ('db, 'r, 'c) node \<Rightarrow> byte \<times> ('db, 'r, 'c) node" where
  "takeover cleanSession n = (let c = s_clientID (nd_s n) in
     if cleanSession = 0 then
       (case findSession c (nd_sm n) of
          None \<Rightarrow> (0, n)
        | Some ss \<Rightarrow>
            (let n1 = (if session_IsPersistent ss then notifyEvent (resume_event c) n else n) in
             (if s_protocol (nd_s n) = mqttProtocol311 then 1 else 0, n1\<lparr>nd_sm := snd (removeSession c (nd_sm n1))\<rparr>)))
     else (0, n))"

definition open_queue :: "('db, 'r, 'c) deps \<Rightarrow> byte \<Rightarrow> ('db, 'r, 'c) handling" where
  "open_queue d cleanSession n =
     (case on_q (newQueue (d_mongo d) (s_clientID (nd_s n)) (cleanSession = 0)) n of
        (Ok q, t) \<Rightarrow> (Ok (), snd (on_q (\<lambda>s. ((), q_RegisterObserver q (Some (s_ref (nd_s t))) s))
                          (updS (\<lambda>p. p\<lparr>s_queue := Some q\<rparr>) t)))
      | (Err e, t) \<Rightarrow> (Err (MQueue e), t)
      | (Panic, t) \<Rightarrow> (Panic, t))"

definition register_session :: "byte \<Rightarrow> ('db, 'r, 'c) node \<Rightarrow> ('db, 'r, 'c) node" where
  "register_session cleanSession n = (let p = nd_s n in
     notifyEvent (SessionCreate (session_event (s_clientID p) (cleanSession = 0)))
       (n\<lparr>nd_sm := snd (registerSession (MqttSession (s_ref p) (s_clientID p) (cleanSession = 0)) (nd_sm n))\<rparr>))"

text \<open>
  The part of the handler after the request is parsed. The messages of the client are not
  filtered: the calls of the metadata service do nothing.
\<close>

definition connect_session :: "('db, 'r, 'c) deps \<Rightarrow> byte \<Rightarrow> Message option \<Rightarrow> ('db, 'r, 'c) handling" where
  "connect_session d cleanSession willMsg =
     thenM (authenticate_client d)
    (thenM (doM (updS (\<lambda>p. p\<lparr>s_clientID := cx_ClientID (s_authctx p), s_productID := cx_ProductID (s_authctx p)\<rparr>)))
    (\<lambda>n. let (conack, n1) = takeover cleanSession n in
      thenM (doM (updS (\<lambda>p. p\<lparr>s_willMsg := willMsg, s_cleanSession := cleanSession\<rparr>)))
     (thenM (open_queue d cleanSession)
     (thenM (doM (setSessionState mqttStateConnected))
     (thenM (ignoreM (sendConnAck d conack 0))
     (thenM (doM (register_session cleanSession))
     (thenM (doM (updS (\<lambda>p. if s_keepalive p > 0 then p\<lparr>s_aliveTimer := True\<rparr> else p)))
       (handleDataAvailableNotification d availableAll)))))) n1))"

definition set_context :: "Context \<times> mqtt_error option \<Rightarrow> ('db, 'r, 'c) handling" where
  "set_context r n = (let n' = updS (\<lambda>p. p\<lparr>s_authctx := fst r\<rparr>) n in
     case snd r of None \<Rightarrow> (Ok (), n') | Some e \<Rightarrow> (Err e, n'))"

text \<open>From the keepalive on, with the flags checked.\<close>

definition connect_payload :: "('db, 'r, 'c) deps \<Rightarrow> byte \<Rightarrow> mqttPacket \<Rightarrow> ('db, 'r, 'c) handling" where
  "connect_payload d cflags pk =
     readM readUint16 pk (\<lambda>e. errM (MPacket e)) (\<lambda>keepalive pk1.
       thenM (doM (updS (\<lambda>p. p\<lparr>s_keepalive := keepalive\<rparr>)))
      (readM readString pk1 (\<lambda>e. thenM (ignoreM (sendConnAck d 0 2)) (errM MBadClientId)) (\<lambda>rawClientID pk2.
        if rawClientID = [] then thenM (ignoreM (sendConnAck d 0 2)) (errM MBadClientId)
        else (\<lambda>n. readM (read_will (s_protocol (nd_s n)) (s_mountpoint (nd_s n)) cflags) pk2 errM (\<lambda>willMsg pk3.
          if cflags AND 0x40 = 0 \<or> cflags AND 0x80 = 0
          then thenM (ignoreM (sendConnAck d 0 4)) (errM mqttErrorInvalidProtocol)
          else readM read_credentials pk3
                 (\<lambda>_. thenM (ignoreM (sendConnAck d 0 4)) (errM mqttErrorInvalidProtocol))
                 (\<lambda>(username, password) pk4.
                    thenM (set_context (parseRequestOptions rawClientID username password))
                      (connect_session d (drop_bit 1 (cflags AND 0x02)) willMsg))) n))))"

definition handleConnect :: "('db, 'r, 'c) deps \<Rightarrow> mqttPacket \<Rightarrow> ('db, 'r, 'c) handling" where
  "handleConnect d packet =
     thenM (checkSessionState mqttStateNew)
    (readM readString packet (\<lambda>e. errM (MPacket e)) (\<lambda>name pk1.
     readM readByte pk1 (\<lambda>e. errM (MPacket e)) (\<lambda>version pk2.
     readM readByte pk2 (\<lambda>e. errM (MPacket e)) (\<lambda>cflags pk3.
       thenM (connect_protocol d name version cflags (p_command packet))
         (let willQos = drop_bit 3 (cflags AND 0x18); willRetain = (cflags AND 0x20 = 0x20) in
          if willQos \<ge> 3 then errM MBadWill
          else if cflags AND 0x04 = 0 \<and> (willQos \<noteq> 0 \<or> willRetain) then errM MBadWill
          else connect_payload d cflags pk3)))))"

subsection \<open>Subscriptions\<close>

lemma readByte_moves: "readByte p = (Ok b, q) \<Longrightarrow> q = p\<lparr>p_pos := p_pos p + 1\<rparr>"
  by (auto simp: readByte_def split: if_splits option.splits)

lemma readUint16_moves: "readUint16 p = (Ok w, q) \<Longrightarrow> q = p\<lparr>p_pos := p_pos p + 2\<rparr>"
  by (auto simp: readUint16_def Let_def split: if_splits option.splits)

lemma readString_moves: "readString p = (Ok s, q) \<Longrightarrow> \<exists>k. q = p\<lparr>p_pos := k\<rparr> \<and> p_pos p + 2 \<le> k"
  by (auto simp: readString_def seqM_eq_Ok dest!: readUint16_moves split: if_splits option.splits)

definition subscribe_event :: "string \<Rightarrow> string \<Rightarrow> byte \<Rightarrow> event" where
  "subscribe_event clientID topic qos = TopicSubscribe \<lparr>ts_BrokerID = [], ts_Type = 0, ts_ClientID = clientID,
     ts_Persistent = False, ts_Topic = topic, ts_Qos = qos, ts_Data = [], ts_Retain = True\<rparr>"

definition unsubscribe_event :: "string \<Rightarrow> string \<Rightarrow> event" where
  "unsubscribe_event clientID topic = TopicUnsubscribe \<lparr>tu_BrokerID = [], tu_Type = 0, tu_ClientID = clientID,
     tu_Persistent = False, tu_Topic = topic, tu_Data = []\<rparr>"

function subscribe_loop :: "mqttPacket \<Rightarrow> bytes \<Rightarrow> (('db, 'r, 'c) node, mqtt_error, bytes) go" where
  "subscribe_loop packet payload n =
     (if p_pos packet < p_remainingLength packet then
        case readString packet of
          (Ok topic, pk1) \<Rightarrow>
            (case readByte pk1 of
               (Ok qos, pk2) \<Rightarrow>
                 if qos > 2 then (Err mqttErrorInvalidProtocol, n)
                 else subscribe_loop pk2 (payload @ [qos])
                   (if qos \<noteq> 0x80
                    then notifyEvent (subscribe_event (s_clientID (nd_s n)) (s_mountpoint (nd_s n) @ topic) qos) n else n)
             | (Err e, pk2) \<Rightarrow> (Err (MPacket e), n)
             | (Panic, pk2) \<Rightarrow> (Panic, n))
        | (Err e, pk1) \<Rightarrow> (Err (MPacket e), n)
        | (Panic, pk1) \<Rightarrow> (Panic, n)
      else (Ok payload, n))"
  by pat_completeness auto
termination
  by (relation "measure (\<lambda>(packet, payload, n). nat (p_remainingLength packet - p_pos packet))")
     (auto dest!: readByte_moves [OF sym] readString_moves [OF sym])

declare subscribe_loop.simps [simp del]

definition handleSubscribe :: "('db, 'r, 'c) deps \<Rightarrow> mqttPacket \<Rightarrow> ('db, 'r, 'c) handling" where
  "handleSubscribe d packet n =
     (if s_protocol (nd_s n) = mqttProtocol311 \<and> p_command packet AND 0x0F \<noteq> 0x02 then (Err mqttErrorInvalidProtocol, n)
      else readM readUint16 packet (\<lambda>e. errM (MPacket e)) (\<lambda>pid pk1.
        seqM (subscribe_loop pk1 []) (\<lambda>payload n.
          if s_protocol (nd_s n) = mqttProtocol311 \<and> payload = [] then (Err mqttErrorInvalidProtocol, n)
          else sendSubAck d pid payload n)) n)"

function unsubscribe_loop :: "mqttPacket \<Rightarrow> ('db, 'r, 'c) handling" where
  "unsubscribe_loop packet n =
     (if p_pos packet < p_remainingLength packet then
        case readString packet of
          (Ok topic, pk1) \<Rightarrow> unsubscribe_loop pk1 (notifyEvent (unsubscribe_event (s_clientID (nd_s n)) topic) n)
        | (Err e, pk1) \<Rightarrow> (Err mqttErrorInvalidProtocol, n)
        | (Panic, pk1) \<Rightarrow> (Panic, n)
      else (Ok (), n))"
  by pat_completeness auto
termination
  by (relation "measure (\<lambda>(packet, n). nat (p_remainingLength packet - p_pos packet))")
     (auto dest!: readString_moves [OF sym])

declare unsubscribe_loop.simps [simp del]

definition handleUnsubscribe :: "('db, 'r, 'c) deps \<Rightarrow> mqttPacket \<Rightarrow> ('db, 'r, 'c) handling" where
  "handleUnsubscribe d packet n =
     (if s_protocol (nd_s n) = mqttProtocol311 \<and> p_command packet AND 0x0F \<noteq> 0x02 then (Err mqttErrorInvalidProtocol, n)
      else readM readUint16 packet (\<lambda>e. errM (MPacket e)) (\<lambda>pid pk1.
        thenM (unsubscribe_loop pk1) (sendCommandWithPacketID d UNSUBACK pid False)) n)"

subsection \<open>Publications\<close>

definition publish_event :: "'c mqttSession \<Rightarrow> string \<Rightarrow> byte \<Rightarrow> bool \<Rightarrow> bytes \<Rightarrow> event" where
  "publish_event p topic qos retain payload = TopicPublish \<lparr>tp_BrokerID = [], tp_Type = 0, tp_ClientID = s_clientID p,
     tp_ProductID = s_productID p, tp_Persistent = False, tp_ID = 0, tp_Topic = topic, tp_Payload = payload,
     tp_Qos = qos, tp_Direction = 0, tp_Retain = retain, tp_Dup = False\<rparr>"

definition publish_payload :: "('db, 'r, 'c) deps \<Rightarrow> byte \<Rightarrow> string \<Rightarrow> 16 word \<Rightarrow> mqttPacket \<Rightarrow> ('db, 'r, 'c) handling" where
  "publish_payload d command topic pid pk n =
     (let qos = drop_bit 1 (command AND 0x06); payloadlen = p_remainingLength pk - p_pos pk;
          finish = (\<lambda>payload n.
            if authorize (s_authctx (nd_s n)) topic AclWrite (nd_auth n) \<noteq> Ok () then (Err MConnectRefused, n)
            else let e = publish_event (nd_s n) topic qos (command AND 0x01 > 0) payload in
              if qos = 0 then (Ok (), notifyEvent e n)
              else if qos = 1 then sendPubAck d pid (notifyEvent e n)
              else if qos = 2 then (Err MQos2, n)
              else (Err mqttErrorInvalidProtocol, n)) in
      if payloadlen > 0 then
        if payloadlen > d_limit d then (Err mqttErrorInvalidProtocol, n)
        else readM (readBytes payloadlen) pk (\<lambda>e. errM (MPacket e)) (\<lambda>payload _. finish payload) n
      else finish [] n)"

definition handlePublish :: "('db, 'r, 'c) deps \<Rightarrow> mqttPacket \<Rightarrow> ('db, 'r, 'c) handling" where
  "handlePublish d packet n =
     (let command = p_command packet; qos = drop_bit 1 (command AND 0x06) in
      if qos > 2 then (Err MBadQos, n)
      else readM readString packet (\<lambda>_. errM MBadTopic) (\<lambda>topic pk1 n.
        if qos > 0
        then readM readUint16 pk1 (\<lambda>e. errM (MPacket e))
               (\<lambda>pid pk2. publish_payload d command (s_mountpoint (nd_s n) @ topic) pid pk2) n
        else publish_payload d command (s_mountpoint (nd_s n) @ topic) 0 pk1 n) n)"

definition handlePubAck :: "mqttPacket \<Rightarrow> ('db, 'r, 'c) handling" where
  "handlePubAck packet n =
     (if p_remainingLength packet \<noteq> 2 then (Err MPubAckLength, n)
      else readM readUint16 packet (\<lambda>e. errM (MPacket e)) (\<lambda>pid _ n.
        case s_queue (nd_s n) of
          None \<Rightarrow> (Panic, n)
        | Some r \<Rightarrow> on_list r (tl_Remove pid) n) n)"

definition handlePubRel :: "('db, 'r, 'c) deps \<Rightarrow> mqttPacket \<Rightarrow> ('db, 'r, 'c) handling" where
  "handlePubRel d packet n =
     (if s_protocol (nd_s n) = mqttProtocol311 \<and> p_command packet AND 0x0F \<noteq> 0x02 then (Err mqttErrorInvalidProtocol, n)
      else readM readUint16 packet (\<lambda>e. errM (MPacket e)) (\<lambda>pid _. sendPubComp d pid) n)"

subsection \<open>The session's loop\<close>

definition metric_of :: "byte \<Rightarrow> string option" where
  "metric_of c =
     (if c = PINGREQ then Some ''packets/pingreq''
      else if c = CONNECT then Some ''packets/connect''
      else if c = DISCONNECT then Some ''packets/disconnect''
      else if c = PUBLISH then Some ''packets/publish/received''
      else if c = PUBREL then Some ''packets/pubrel/received''
      else if c = SUBSCRIBE then Some ''packets/subscribe''
      else if c = UNSUBSCRIBE then Some ''packets/unsubscribe''
      else if c = PUBACK then Some ''packets/puback/received''
      else None)"

definition updatePacketMetrics :: "mqttPacket \<Rightarrow> ('db, 'r, 'c) node \<Rightarrow> ('db, 'r, 'c) node" where
  "updatePacketMetrics packet n =
     addMetricOf ''packes/received'' (case metric_of (p_command packet AND 0xF0) of
        Some name \<Rightarrow> addMetricOf name n
      | None \<Rightarrow> n)"

definition handleMqttPacket :: "('db, 'r, 'c) deps \<Rightarrow> mqttPacket \<Rightarrow> ('db, 'r, 'c) handling" where
  "handleMqttPacket d packet n =
     (let c = p_command packet AND 0xF0; m = updatePacketMetrics packet n in
      if c = PINGREQ then handlePingReq d m
      else if c = CONNECT then handleConnect d packet m
      else if c = DISCONNECT then handleDisconnect d packet m
      else if c = PUBLISH then handlePublish d packet m
      else if c = PUBREL then handlePubRel d packet m
      else if c = SUBSCRIBE then handleSubscribe d packet m
      else if c = UNSUBSCRIBE then handleUnsubscribe d packet m
      else if c = PUBACK then handlePubAck packet m
      else (Err (MUnrecognized c), m))"

text \<open>What the loop of \<^verbatim>\<open>Handle\<close> takes from its channels, and one turn of it; the flag says
  whether the loop goes on. A delivery loop that is still running after the turns it is followed
  for is no error the code sees.\<close>

datatype stimulus = Packet mqttPacket | Available "16 word" | Failure mqtt_error

definition Handle_turn :: "('db, 'r, 'c) deps \<Rightarrow> stimulus \<Rightarrow> (('db, 'r, 'c) node, mqtt_error, bool) go" where
  "Handle_turn d st n =
     (case (case st of
              Packet packet \<Rightarrow> handleMqttPacket d packet n
            | Available t \<Rightarrow> handleDataAvailableNotification d t n
            | Failure e \<Rightarrow> (Err e, n)) of
        (Ok _, t) \<Rightarrow> (Ok (s_sessionState (nd_s t) \<noteq> mqttStateDisconnected), t)
      | (Err e, t) \<Rightarrow> if e = MSpin then (Err e, t) else thenM (disconnect d True) (errM e) t
      | (Panic, t) \<Rightarrow> (Panic, t))"

fun Handle :: "('db, 'r, 'c) deps \<Rightarrow> stimulus list \<Rightarrow> ('db, 'r, 'c) handling" where
  "Handle d [] n = (Ok (), n)"
| "Handle d (st # sts) n = seqM (Handle_turn d st) (\<lambda>go_on. if go_on then Handle d sts else retM ()) n"

end
