(* ===== verification/Mqtt_Session_Facts.thy ===== *)
theory Mqtt_Session_Facts
  imports Mqtt_Session
begin

text \<open>
  What the handlers of an MQTT session keep: rules for predicates on the node that hold after
  every run of a handler that does not panic, the life cycle of a session, and the fact that no
  client gets past authentication.
\<close>

unbundle bit_operations_syntax

subsection \<open>Predicates that handlers keep\<close>

definition pres :: "('s \<Rightarrow> bool) \<Rightarrow> ('s, 'e, 'a) go \<Rightarrow> bool" where
  "pres P m \<longleftrightarrow> (\<forall>s. P s \<longrightarrow> (case m s of (Panic, t) \<Rightarrow> True | (_, t) \<Rightarrow> P t))"

named_theorems pres_rules \<open>rules for sequencing and its parts\<close>

lemma presI: "(\<And>s r t. P s \<Longrightarrow> m s = (r, t) \<Longrightarrow> r \<noteq> Panic \<Longrightarrow> P t) \<Longrightarrow> pres P m"
  by (auto simp: pres_def split: prod.splits outcome.splits)

lemma presD: "pres P m \<Longrightarrow> P s \<Longrightarrow> m s = (r, t) \<Longrightarrow> r \<noteq> Panic \<Longrightarrow> P t"
  by (cases r) (force simp: pres_def)+

lemma pres_basic [pres_rules]: "pres P (retM a)" "pres P (errM e)" "pres P panicM"
  by (auto simp: pres_def)

lemma pres_seqM [pres_rules]: "pres P m \<Longrightarrow> (\<And>a. pres P (k a)) \<Longrightarrow> pres P (seqM m k)"
  by (rule presI) (auto simp: seqM_def dest: presD split: prod.splits outcome.splits)

lemma pres_thenM [pres_rules]: "pres P m \<Longrightarrow> pres P k \<Longrightarrow> pres P (thenM m k)"
  by (simp add: thenM_def pres_seqM)

lemma pres_doM [pres_rules]: "(\<And>s. P s \<Longrightarrow> P (f s)) \<Longrightarrow> pres P (doM f)"
  by (rule presI) (auto simp: doM_def)

lemma pres_ignoreM [pres_rules]: "pres P m \<Longrightarrow> pres P (ignoreM m)"
  by (rule presI) (auto simp: ignoreM_def dest: presD split: prod.splits outcome.splits)

lemma pres_readM [pres_rules]:
  "(\<And>e. pres P (h e)) \<Longrightarrow> (\<And>a pk. pres P (k a pk)) \<Longrightarrow> pres P (readM r pk h k)"
  by (simp add: readM_def pres_basic split: prod.splits outcome.splits)

lemma pres_if [pres_rules]: "(b \<Longrightarrow> pres P m) \<Longrightarrow> (\<not> b \<Longrightarrow> pres P k) \<Longrightarrow> pres P (if b then m else k)"
  by simp

lemma pres_Let [pres_rules]: "(\<And>x. pres P (f x)) \<Longrightarrow> pres P (Let v f)"
  by simp

lemma pres_prod [pres_rules]: "(\<And>x y. pres P (f x y)) \<Longrightarrow> pres P (case v of (x, y) \<Rightarrow> f x y)"
  by (simp split: prod.splits)

text \<open>A handler written as a function of the node it starts from.\<close>

lemma pres_from: "(\<And>n. P n \<Longrightarrow> pres P (m n)) \<Longrightarrow> pres P (\<lambda>n. m n n)"
  by (rule presI) (auto dest: presD)

subsection \<open>What a predicate may depend on\<close>

text \<open>
  The fields of a session that only few handlers write. A predicate over them is kept by
  everything that sends, delivers, subscribes or publishes.
\<close>

definition core :: "'c mqttSession \<Rightarrow> byte \<times> bool \<times> bool \<times> qref option \<times> bool \<times> Context" where
  "core p = (s_sessionState p, s_connOpen p, s_chansOpen p, s_queue p, s_authNeed p, s_authctx p)"

definition on_core :: "(('db, 'r, 'c) node \<Rightarrow> bool) \<Rightarrow> bool" where
  "on_core P \<longleftrightarrow> (\<forall>n t. core (nd_s n) = core (nd_s t) \<longrightarrow> P n = P t)"

lemma on_coreD: "on_core P \<Longrightarrow> core (nd_s n) = core (nd_s t) \<Longrightarrow> P n = P t"
  unfolding on_core_def by blast

lemma core_simps [simp]:
  "core (p\<lparr>s_conn := c\<rparr>) = core p" "core (p\<lparr>s_nextPacketID := i\<rparr>) = core p"
  "core (p\<lparr>s_aliveTimer := b\<rparr>) = core p" "core (p\<lparr>s_willMsg := w\<rparr>) = core p"
  "core (p\<lparr>s_keepalive := k\<rparr>) = core p" "core (p\<lparr>s_protocol := x\<rparr>) = core p"
  "core (p\<lparr>s_clientID := i'\<rparr>) = core p" "core (p\<lparr>s_productID := j\<rparr>) = core p"
  "core (p\<lparr>s_cleanSession := y\<rparr>) = core p"
  by (simp_all add: core_def)

lemma node_simps [simp]:
  "nd_s (updS f n) = f (nd_s n)" "nd_s (notifyEvent e n) = nd_s n" "nd_s (addMetricOf name n) = nd_s n"
  "nd_sm (updS f n) = nd_sm n" "nd_sm (notifyEvent e n) = nd_sm n" "nd_sm (addMetricOf name n) = nd_sm n"
  "nd_auth (updS f n) = nd_auth n" "nd_auth (notifyEvent e n) = nd_auth n" "nd_auth (addMetricOf name n) = nd_auth n"
  "nd_events (updS f n) = nd_events n" "nd_events (addMetricOf name n) = nd_events n"
  "nd_events (notifyEvent e n) = nd_events n @ [SetBrokerId (sm_self (nd_sm n)) e]"
  by (simp_all add: updS_def notifyEvent_def addMetricOf_def)

lemma nd_s_on_q [simp]: "nd_s (snd (on_q f n)) = nd_s n"
  by (simp add: on_q_def split: prod.splits)

lemma nd_s_run_q: "on_q f n = (a, t) \<Longrightarrow> nd_s t = nd_s n"
  by (metis nd_s_on_q snd_conv)

definition quiet :: "('db, 'r, 'c) handling \<Rightarrow> bool" where
  "quiet m \<longleftrightarrow> (\<forall>n. core (nd_s (snd (m n))) = core (nd_s n))"

lemma pres_quiet: "quiet m \<Longrightarrow> on_core P \<Longrightarrow> pres P m"
  by (rule presI) (metis quiet_def on_coreD snd_conv)

lemma quietD [simp]: "quiet m \<Longrightarrow> core (nd_s (snd (m n))) = core (nd_s n)"
  by (simp add: quiet_def)

lemma quiet_run: "quiet m \<Longrightarrow> m n = (r, t) \<Longrightarrow> core (nd_s t) = core (nd_s n)"
  by (metis quietD snd_conv)

lemma quiet_basic [simp]: "quiet (retM a)" "quiet (errM e)" "quiet panicM"
  by (simp_all add: quiet_def)

lemma quiet_thenM: "quiet m \<Longrightarrow> quiet k \<Longrightarrow> quiet (thenM m k)"
  unfolding quiet_def thenM_def seqM_def by (auto split: prod.splits outcome.splits) (metis snd_conv)+

lemma quiet_writePacket [simp]: "quiet (writePacket d pk)"
  by (auto simp: quiet_def writePacket_def split: prod.splits)

lemma quiet_sendBuilt [simp]: "quiet (sendBuilt d build pk)"
  by (auto simp: quiet_def [of "sendBuilt d build pk"] sendBuilt_def split: prod.splits outcome.splits)

lemma quiet_sends [simp]:
  "quiet (sendSimpleCommand d cmd)" "quiet (sendConnAck d ack res)" "quiet (sendSubAck d pid payload)"
  "quiet (sendCommandWithPacketID d cmd pid dup)" "quiet (sendPubAck d pid)" "quiet (sendPubComp d pid)"
  "quiet (handlePingReq d)"
  by (simp_all add: sendSimpleCommand_def sendConnAck_def sendSubAck_def sendCommandWithPacketID_def
      sendPubAck_def sendPubComp_def handlePingReq_def sendPingRsp_def)

lemma quiet_sendPublish [simp]: "quiet (sendPublish d msg)"
  by (auto simp: quiet_def [of "sendPublish d msg"] sendPublish_def split: prod.splits)

lemma quiet_resend [simp]: "quiet (resend d r i)"
  by (auto simp: quiet_def [of "resend d r i"] resend_def quiet_run [OF quiet_sendPublish]
      split: prod.splits outcome.splits option.splits)

lemma quiet_resend_all [simp]: "quiet (resend_all d r is)"
proof (induction "is")
  case (Cons i "is")
  then have "quiet (thenM (resend d r i) (resend_all d r is))" by (intro quiet_thenM quiet_resend)
  then show ?case by (simp add: quiet_def)
qed (simp add: quiet_def)

lemma quiet_on_list [simp]: "quiet (on_list r f)"
  by (auto simp: quiet_def on_list_def Let_def split: prod.splits outcome.splits)

lemma quiet_sent_one [simp]: "quiet (sent_one d r msg)"
  by (auto simp: quiet_def [of "sent_one d r msg"] sent_one_def Let_def dest: nd_s_run_q split: prod.splits outcome.splits)

lemma quiet_drain [simp]: "quiet (drain d r fuel)"
proof (induction fuel)
  case 0
  show ?case by (simp add: quiet_def drain.simps)
next
  case (Suc k)
  have step: "quiet (thenM (sent_one d r msg) (drain d r k))" for msg
    using Suc by (intro quiet_thenM quiet_sent_one)
  have "core (nd_s (snd (drain d r (Suc k) n))) = core (nd_s n)" for n
  proof (cases "q_Length (d_mongo d) r (sm_queues (nd_sm n)) > 0")
    case True
    show ?thesis
    proof (cases "q_Front (d_mongo d) r (sm_queues (nd_sm n))")
      case (Ok m)
      show ?thesis
      proof (cases m)
        case (Some msg)
        obtain a t where t: "sendPublish d msg n = (a, t)" by fastforce
        have "core (nd_s t) = core (nd_s n)" using quiet_run [OF quiet_sendPublish t] .
        with True Ok Some t Suc step show ?thesis
          by (subst drain.simps) (cases a; simp)
      qed (use True Ok Suc in \<open>simp add: drain.simps [of d r "Suc k"]\<close>)
    qed (simp_all add: True drain.simps [of d r "Suc k"])
  qed (simp add: drain.simps)
  then show ?case by (simp add: quiet_def)
qed

lemma quiet_available [simp]: "quiet (handleDataAvailableNotification d t)"
proof -
  have "quiet (thenM (if x then resend_all d r is else retM ()) (if y then drain d r k else retM ()))" for x y r k "is"
    by (rule quiet_thenM) simp_all
  then show ?thesis
    by (simp add: quiet_def [of "handleDataAvailableNotification d t"] handleDataAvailableNotification_def
        split: option.splits)
qed

subsection \<open>Handlers that leave the life of the session alone\<close>

lemma quietI: "(\<And>n. core (nd_s (snd (m n))) = core (nd_s n)) \<Longrightarrow> quiet m"
  by (simp add: quiet_def)

lemma quiet_readM:
  "(\<And>e. quiet (h e)) \<Longrightarrow> (\<And>a pk. quiet (k a pk)) \<Longrightarrow> quiet (readM r pk h k)"
  by (simp add: readM_def split: prod.splits outcome.splits)

lemma core_subscribe_loop: "core (nd_s (snd (subscribe_loop pk payload n))) = core (nd_s n)"
proof (induction pk payload n rule: subscribe_loop.induct)
  case (1 pk payload n)
  show ?case
  proof (cases "p_pos pk < p_remainingLength pk")
    case True
    obtain r pk1 where r: "readString pk = (r, pk1)" by fastforce
    obtain q pk2 where q: "readByte pk1 = (q, pk2)" by fastforce
    show ?thesis
      using True r q 1 [OF True r [symmetric] _ q [symmetric]]
      by (cases r; cases q) (simp_all add: subscribe_loop.simps [of pk])
  qed (simp add: subscribe_loop.simps)
qed

lemma core_unsubscribe_loop: "core (nd_s (snd (unsubscribe_loop pk n))) = core (nd_s n)"
proof (induction pk n rule: unsubscribe_loop.induct)
  case (1 pk n)
  obtain r pk1 where r: "readString pk = (r, pk1)" by fastforce
  show ?case
    using r 1 [OF _ r [symmetric]]
    by (cases "p_pos pk < p_remainingLength pk"; cases r) (simp_all add: unsubscribe_loop.simps [of pk])
qed

lemma quiet_handleSubscribe [simp]: "quiet (handleSubscribe d pk)"
proof -
  have *: "quiet (seqM (subscribe_loop pk1 []) (\<lambda>payload n.
      if s_protocol (nd_s n) = mqttProtocol311 \<and> payload = [] then (Err mqttErrorInvalidProtocol, n)
      else sendSubAck d pid payload n))" for pk1 pid
  proof -
    have "core (nd_s t) = core (nd_s n)" if "subscribe_loop pk1 [] n = (r, t)"
      for n t :: "('a, 'b, 'c) node" and r
      using core_subscribe_loop [of pk1 "[]" n] that by simp
    then show ?thesis
      by (auto simp: quiet_def [of "seqM _ _"] seqM_def split: prod.splits outcome.splits)
  qed
  have "quiet (readM readUint16 pk (\<lambda>e. errM (MPacket e)) (\<lambda>pid pk1.
      seqM (subscribe_loop pk1 []) (\<lambda>payload n.
        if s_protocol (nd_s n) = mqttProtocol311 \<and> payload = [] then (Err mqttErrorInvalidProtocol, n)
        else sendSubAck d pid payload n)))"
    by (intro quiet_readM *) simp
  from quietD [OF this] show ?thesis
    unfolding quiet_def [of "handleSubscribe d pk"] handleSubscribe_def by simp
qed

lemma quiet_handleUnsubscribe [simp]: "quiet (handleUnsubscribe d pk)"
proof -
  have "quiet (unsubscribe_loop pk1 :: ('a, 'b, 'c) handling)" for pk1
    by (simp add: quiet_def core_unsubscribe_loop)
  then have "quiet (readM readUint16 pk (\<lambda>e. errM (MPacket e)) (\<lambda>pid pk1.
      thenM (unsubscribe_loop pk1) (sendCommandWithPacketID d UNSUBACK pid False)))"
    by (intro quiet_readM quiet_thenM) simp_all
  then show ?thesis by (simp add: quiet_def [of "handleUnsubscribe d pk"] handleUnsubscribe_def)
qed

lemma quiet_publish_payload [simp]: "quiet (publish_payload d command topic pid pk)"
proof -
  let ?qos = "drop_bit 1 (command AND 0x06)"
  let ?finish = "\<lambda>payload (n :: ('a, 'b, 'c) node).
      if authorize (s_authctx (nd_s n)) topic AclWrite (nd_auth n) \<noteq> Ok () then (Err MConnectRefused, n)
      else let e = publish_event (nd_s n) topic ?qos (command AND 0x01 > 0) payload in
        if ?qos = 0 then (Ok (), notifyEvent e n)
        else if ?qos = 1 then sendPubAck d pid (notifyEvent e n)
        else if ?qos = 2 then (Err MQos2, n)
        else (Err mqttErrorInvalidProtocol, n)"
  have f: "quiet (?finish payload)" for payload
    by (rule quietI) (simp add: Let_def)
  then have "quiet (readM (readBytes k) pk (\<lambda>e. errM (MPacket e)) (\<lambda>payload _. ?finish payload))" for k
    by (intro quiet_readM) simp_all
  with f show ?thesis
    unfolding quiet_def [of "publish_payload d command topic pid pk"] publish_payload_def Let_def by simp
qed

lemma quiet_handlePublish [simp]: "quiet (handlePublish d pk)"
proof -
  let ?q = "drop_bit 1 (p_command pk AND 0x06)"
  let ?k = "\<lambda>topic pk1 (n :: ('a, 'b, 'c) node).
    if ?q > 0
    then readM readUint16 pk1 (\<lambda>e. errM (MPacket e))
           (\<lambda>pid pk2. publish_payload d (p_command pk) (s_mountpoint (nd_s n) @ topic) pid pk2) n
    else publish_payload d (p_command pk) (s_mountpoint (nd_s n) @ topic) 0 pk1 n"
  have "quiet (readM readUint16 pk1 (\<lambda>e. errM (MPacket e))
      (\<lambda>pid pk2. publish_payload d (p_command pk) topic pid pk2))" for pk1 topic
    by (intro quiet_readM) simp_all
  from quietD [OF this] have "quiet (?k topic pk1)" for topic pk1
    by (intro quietI) (simp only: if_distrib quietD [OF quiet_publish_payload] split: if_split, simp)
  then have "quiet (readM readString pk (\<lambda>_. errM MBadTopic) ?k)" by (intro quiet_readM) simp_all
  then show ?thesis by (simp add: quiet_def [of "handlePublish d pk"] handlePublish_def Let_def)
qed

lemma quiet_handlePubAck [simp]: "quiet (handlePubAck pk)"
proof -
  let ?k = "\<lambda>pid (_ :: mqttPacket) (n :: ('a, 'b, 'c) node).
    case s_queue (nd_s n) of None \<Rightarrow> (Panic, n) | Some r \<Rightarrow> on_list r (tl_Remove pid) n"
  have "quiet (?k pid pk1)" for pid and pk1 :: mqttPacket
    by (rule quietI) (simp split: option.splits)
  then have "quiet (readM readUint16 pk (\<lambda>e. errM (MPacket e)) ?k)" by (intro quiet_readM) simp_all
  then show ?thesis by (simp add: quiet_def [of "handlePubAck pk"] handlePubAck_def)
qed

lemma quiet_handlePubRel [simp]: "quiet (handlePubRel d pk)"
proof -
  have "quiet (readM readUint16 pk (\<lambda>e. errM (MPacket e)) (\<lambda>pid _. sendPubComp d pid))"
    by (intro quiet_readM) simp_all
  then show ?thesis by (simp add: quiet_def [of "handlePubRel d pk"] handlePubRel_def)
qed

lemma quiet_ignoreM: "quiet m \<Longrightarrow> quiet (ignoreM m)"
  by (auto simp: quiet_def [of "ignoreM m"] ignoreM_def dest: quiet_run split: prod.splits outcome.splits)

lemma quiet_doM: "(\<And>n. core (nd_s (f n)) = core (nd_s n)) \<Longrightarrow> quiet (doM f)"
  by (simp add: quiet_def doM_def)

lemma quiet_connect_protocol [simp]: "quiet (connect_protocol d name version cflags command)"
  unfolding connect_protocol_def by (auto intro!: quiet_thenM quiet_ignoreM quiet_doM)

subsection \<open>Handlers with a precondition\<close>

definition hoare :: "('s \<Rightarrow> bool) \<Rightarrow> ('s, 'e, 'a) go \<Rightarrow> ('s \<Rightarrow> bool) \<Rightarrow> ('s \<Rightarrow> bool) \<Rightarrow> bool" where
  "hoare P m Q R \<longleftrightarrow> (\<forall>s. P s \<longrightarrow> (case m s of (Ok _, t) \<Rightarrow> Q t | (Err _, t) \<Rightarrow> R t | (Panic, _) \<Rightarrow> True))"

lemma hoareI:
  assumes "\<And>s a t. P s \<Longrightarrow> m s = (Ok a, t) \<Longrightarrow> Q t" "\<And>s e t. P s \<Longrightarrow> m s = (Err e, t) \<Longrightarrow> R t"
  shows "hoare P m Q R"
  unfolding hoare_def by (auto split: prod.splits outcome.splits intro: assms)

lemma hoare_pres: "pres P m \<Longrightarrow> (\<And>s. P s \<Longrightarrow> R s) \<Longrightarrow> hoare P m P R"
  by (rule hoareI) (auto dest: presD)

lemma hoare_thenM: "hoare P m Q R \<Longrightarrow> hoare Q k S R \<Longrightarrow> hoare P (thenM m k) S R"
  unfolding hoare_def thenM_def seqM_def by (fastforce split: prod.splits outcome.splits)

lemma hoare_doM: "(\<And>s. P s \<Longrightarrow> Q (f s)) \<Longrightarrow> hoare P (doM f) Q R"
  by (simp add: hoare_def doM_def)

lemma hoare_errM: "(\<And>s. P s \<Longrightarrow> R s) \<Longrightarrow> hoare P (errM e) Q R"
  by (simp add: hoare_def)

lemma hoare_if: "hoare P m Q R \<Longrightarrow> hoare P k Q R \<Longrightarrow> hoare P (if b then m else k) Q R"
  by simp

lemma hoare_readM:
  "(\<And>e. hoare P (h e) Q R) \<Longrightarrow> (\<And>a pk. hoare P (k a pk) Q R) \<Longrightarrow> hoare P (readM r pk h k) Q R"
  by (simp add: readM_def hoare_def [of P panicM] split: prod.splits outcome.splits)

lemma hoare_quiet: "quiet m \<Longrightarrow> on_core P \<Longrightarrow> (\<And>s. P s \<Longrightarrow> R s) \<Longrightarrow> hoare P m P R"
  by (rule hoare_pres [OF pres_quiet])

lemma hoare_from: "(\<And>n. hoare P (m n) Q R) \<Longrightarrow> hoare P (\<lambda>n. m n n) Q R"
  by (simp add: hoare_def)

lemma hoare_prod:
  assumes "\<And>a. hoare P (k a) Q R" "\<And>n a n1. P n \<Longrightarrow> f n = (a, n1) \<Longrightarrow> P n1"
  shows "hoare P (\<lambda>n. let (a, n1) = f n in k a n1) Q R"
  unfolding hoare_def
proof (intro allI impI)
  fix s assume "P s"
  moreover obtain a n1 where "f s = (a, n1)" by fastforce
  ultimately show "case let (a, n1) = f s in k a n1 of (Ok _, t) \<Rightarrow> Q t | (Err _, t) \<Rightarrow> R t | (Panic, _) \<Rightarrow> True"
    using assms(1) [unfolded hoare_def] assms(2) by simp
qed

lemma hoareD_Ok: "hoare P m Q R \<Longrightarrow> P s \<Longrightarrow> m s = (Ok a, t) \<Longrightarrow> Q t"
  by (force simp: hoare_def)

lemma hoareD_Err: "hoare P m Q R \<Longrightarrow> P s \<Longrightarrow> m s = (Err e, t) \<Longrightarrow> R t"
  by (force simp: hoare_def)

text \<open>
  The start of \<^verbatim>\<open>handleConnect\<close>, for any predicate on the core that a new context may be
  written under: only the part after the request is parsed is left to show.
\<close>

lemma hoare_handleConnect:
  assumes core: "on_core P" and P: "\<And>n. P n \<Longrightarrow> R n"
    and new: "\<And>n. P0 n \<Longrightarrow> s_sessionState (nd_s n) = mqttStateNew \<Longrightarrow> P n" "\<And>n. P0 n \<Longrightarrow> R n"
    and ctx: "\<And>n ctx. P n \<Longrightarrow> cx_Password ctx = [] \<Longrightarrow> P (updS (\<lambda>p. p\<lparr>s_authctx := ctx\<rparr>) n)"
    and rest: "\<And>clean willMsg. hoare P (connect_session d clean willMsg) Q R"
  shows "hoare P0 (handleConnect d packet) Q R"
proof -
  have pw: "cx_Password (fst (parse_pairs pairs c)) = cx_Password c" for pairs c
    by (induction pairs c rule: parse_pairs.induct) (simp_all split: list.splits option.splits)
  have pw': "cx_Password (fst (parseRequestOptions c u p)) = []" for c u p
    by (simp add: parseRequestOptions_def emptyContext_def Let_def pw split: list.splits)
  have set: "hoare P (set_context (parseRequestOptions c u p)) P R" for c u p
    using ctx pw' [of c u p] P
    by (auto simp: hoare_def set_context_def Let_def split: option.splits)
  have refuse: "hoare P (thenM (ignoreM (sendConnAck d a b)) (errM e)) Q R" for a b and e :: mqtt_error
    by (rule hoare_thenM [OF hoare_quiet [OF quiet_ignoreM core] hoare_errM]) (auto intro: P)
  have err: "hoare P (errM e) Q R" for e :: mqtt_error by (intro hoare_errM P)
  have keep: "hoare P (doM (updS (\<lambda>p. p\<lparr>s_keepalive := k\<rparr>))) P R" for k
    by (rule hoare_doM, rule iffD1 [OF on_coreD [OF core]]) simp_all
  have creds: "hoare P (if cflags AND 0x40 = 0 \<or> cflags AND 0x80 = 0
          then thenM (ignoreM (sendConnAck d 0 4)) (errM mqttErrorInvalidProtocol)
          else readM read_credentials pk3
                 (\<lambda>_. thenM (ignoreM (sendConnAck d 0 4)) (errM mqttErrorInvalidProtocol))
                 (\<lambda>(username, password) pk4.
                    thenM (set_context (parseRequestOptions raw username password))
                      (connect_session d (drop_bit 1 (cflags AND 0x02)) willMsg))) Q R" for cflags :: byte and raw willMsg pk3
    by (auto intro!: hoare_readM refuse hoare_thenM [OF set rest])
  have will: "hoare P (\<lambda>n. readM (read_will (s_protocol (nd_s n)) (s_mountpoint (nd_s n)) cflags) pk2 errM
      (\<lambda>willMsg pk3. f willMsg pk3) n) Q R" if "\<And>w pk. hoare P (f w pk) Q R" for cflags pk2 f
    by (rule hoare_from [of _ "\<lambda>n. readM (read_will (s_protocol (nd_s n)) (s_mountpoint (nd_s n)) cflags) pk2 errM f"])
       (intro hoare_readM err that)
  have payload: "hoare P (connect_payload d cflags pk) Q R" for cflags pk
    unfolding connect_payload_def
    by (intro hoare_readM hoare_thenM [OF keep] hoare_if refuse err will creds)
  have protocol: "hoare P (connect_protocol d a b c e) P R" for a b c e
    by (rule hoare_quiet [OF quiet_connect_protocol core P])
  have check: "hoare P0 (checkSessionState mqttStateNew) P R"
    using new by (auto simp: hoare_def checkSessionState_def)
  show ?thesis
    unfolding handleConnect_def Let_def
    by (intro hoare_thenM [OF check] hoare_readM hoare_thenM [OF protocol] hoare_if err payload)
qed

subsection \<open>The life of a session\<close>

text \<open>
  A session is new, connected or disconnected when its loop waits. Its connection and its
  channels are open exactly until it is disconnected, and a connected session has a queue.
\<close>

definition session_wf :: "'c mqttSession \<Rightarrow> bool" where
  "session_wf p \<longleftrightarrow> s_sessionState p \<in> {mqttStateNew, mqttStateConnected, mqttStateDisconnected} \<and>
     s_connOpen p = (s_sessionState p \<noteq> mqttStateDisconnected) \<and> s_chansOpen p = s_connOpen p \<and>
     (s_sessionState p = mqttStateConnected \<longrightarrow> s_queue p \<noteq> None)"

lemma core_session_wf: "core p = core q \<Longrightarrow> session_wf p = session_wf q"
  by (simp add: core_def session_wf_def)

lemma on_core_session_wf: "on_core (\<lambda>n. session_wf (nd_s n))"
  using core_session_wf by (auto simp: on_core_def)

lemma on_core_conj: "on_core P \<Longrightarrow> on_core Q \<Longrightarrow> on_core (\<lambda>n. P n \<and> Q n)"
  unfolding on_core_def by blast

lemma on_core_state: "on_core (\<lambda>n. f (s_sessionState (nd_s n)) (s_authNeed (nd_s n)) (s_authctx (nd_s n)))"
  by (auto simp: on_core_def core_def)

lemma disconnect_spec:
  assumes "s_sessionState (nd_s n) \<noteq> mqttStateDisconnected" "s_connOpen (nd_s n)"
  shows "\<exists>t. disconnect d reason n = (Ok (), t) \<and> s_sessionState (nd_s t) = mqttStateDisconnected \<and>
    \<not> s_connOpen (nd_s t) \<and> \<not> s_chansOpen (nd_s t) \<and> s_queue (nd_s t) = s_queue (nd_s n) \<and>
    s_authNeed (nd_s t) = s_authNeed (nd_s n) \<and> s_authctx (nd_s t) = s_authctx (nd_s n) \<and>
    s_conn (nd_s t) = nc_close (d_net d) (s_conn (nd_s n))"
  using assms by (auto simp: disconnect_def Let_def setSessionState_def split: option.splits)

lemma disconnect_idle: "s_sessionState (nd_s n) = mqttStateDisconnected \<Longrightarrow> disconnect d reason n = (Ok (), n)"
  by (simp add: disconnect_def)

definition ended :: "'c mqttSession \<Rightarrow> bool" where
  "ended p \<longleftrightarrow> session_wf p \<and> s_sessionState p = mqttStateDisconnected"

lemma disconnect_ends:
  assumes "session_wf (nd_s n)"
  shows "\<exists>t. disconnect d reason n = (Ok (), t) \<and> ended (nd_s t)"
proof (cases "s_sessionState (nd_s n) = mqttStateDisconnected")
  case True
  with assms show ?thesis by (auto simp: disconnect_idle ended_def)
next
  case False
  with assms disconnect_spec [OF False, of d reason] show ?thesis by (force simp: session_wf_def ended_def)
qed

lemma hoare_disconnect: "hoare (\<lambda>n. session_wf (nd_s n)) (disconnect d reason) (\<lambda>n. ended (nd_s n)) R"
  by (rule hoareI) (metis disconnect_ends Pair_inject outcome.distinct(1) outcome.inject(1))+

definition fresh_wf :: "('db, 'r, 'c) node \<Rightarrow> bool" where
  "fresh_wf n \<longleftrightarrow> session_wf (nd_s n) \<and> s_sessionState (nd_s n) = mqttStateNew"

lemma on_core_fresh: "on_core fresh_wf"
  by (auto simp: on_core_def fresh_wf_def core_def session_wf_def)

lemma authenticate_client_cases:
  "authenticate_client d n =
     (if s_authNeed (nd_s n) then
        let (r, a) = authenticate (d_redis d) (d_registry d) (s_authctx (nd_s n)) (nd_auth n) in
        case r of
          Ok _ \<Rightarrow> retM () (n\<lparr>nd_auth := a\<rparr>)
        | Err e \<Rightarrow> thenM (if e = ErrUnauthorized then ignoreM (sendConnAck d 0 5) else retM ())
            (thenM (disconnect d True) (errM (MAuth e))) (n\<lparr>nd_auth := a\<rparr>)
        | Panic \<Rightarrow> panicM (n\<lparr>nd_auth := a\<rparr>)
      else retM () n)"
  by (simp add: authenticate_client_def Let_def split: prod.splits outcome.splits)

lemma hoare_at: "hoare P m Q R \<Longrightarrow> P s \<Longrightarrow> (case m s of (Ok _, t) \<Rightarrow> Q t | (Err _, t) \<Rightarrow> R t | (Panic, _) \<Rightarrow> True)"
  by (simp add: hoare_def)

lemma hoare_authenticate_client: "hoare fresh_wf (authenticate_client d) fresh_wf (\<lambda>n. session_wf (nd_s n))"
proof -
  let ?R = "\<lambda>n :: ('a, 'b, 'c) node. session_wf (nd_s n)"
  define refuse where "refuse e = thenM (if e = ErrUnauthorized then ignoreM (sendConnAck d 0 5) else retM ())
      (thenM (disconnect d True) (errM (MAuth e) :: ('a, 'b, 'c) handling))" for e
  have *: "hoare ?R (refuse e) fresh_wf ?R" for e
    unfolding refuse_def
    by (rule hoare_thenM [OF hoare_if [OF hoare_quiet [OF quiet_ignoreM on_core_session_wf]
            hoare_quiet [OF quiet_basic(1) on_core_session_wf]] hoare_thenM [OF hoare_disconnect hoare_errM]])
       (auto simp: ended_def)
  show ?thesis
    unfolding hoare_def
  proof (intro allI impI)
    fix n :: "('a, 'b, 'c) node"
    assume n: "fresh_wf n"
    obtain r a where a: "authenticate (d_redis d) (d_registry d) (s_authctx (nd_s n)) (nd_auth n) = (r, a)" by fastforce
    have "?R (n\<lparr>nd_auth := a\<rparr>)" using n by (simp add: fresh_wf_def)
    from hoare_at [OF * this] n show "case authenticate_client d n of
        (Ok _, t) \<Rightarrow> fresh_wf t | (Err _, t) \<Rightarrow> ?R t | (Panic, _) \<Rightarrow> True"
      unfolding authenticate_client_cases refuse_def [symmetric] Let_def a
      by (cases r) (simp_all add: fresh_wf_def)
  qed
qed

lemma nd_s_takeover [simp]: "nd_s (snd (takeover clean n)) = nd_s n"
  by (simp add: takeover_def Let_def split: option.splits)

lemma nd_s_register_session [simp]: "nd_s (register_session clean n) = nd_s n"
  by (simp add: register_session_def Let_def)

definition queued_wf :: "('db, 'r, 'c) node \<Rightarrow> bool" where
  "queued_wf n \<longleftrightarrow> fresh_wf n \<and> s_queue (nd_s n) \<noteq> None"

lemma hoare_open_queue: "hoare fresh_wf (open_queue d clean) queued_wf (\<lambda>n. session_wf (nd_s n))"
proof (rule hoareI)
  fix n t :: "('a, 'b, 'c) node" and a
  assume "fresh_wf n" "open_queue d clean n = (Ok a, t)"
  then show "queued_wf t"
    by (auto simp: open_queue_def queued_wf_def fresh_wf_def session_wf_def dest!: nd_s_run_q
        split: prod.splits outcome.splits)
next
  fix n t :: "('a, 'b, 'c) node" and e
  assume "fresh_wf n" "open_queue d clean n = (Err e, t)"
  then show "session_wf (nd_s t)"
    by (auto simp: open_queue_def fresh_wf_def dest!: nd_s_run_q split: prod.splits outcome.splits)
qed

lemma hoare_connect_session:
  "hoare fresh_wf (connect_session d clean willMsg) (\<lambda>n. session_wf (nd_s n)) (\<lambda>n. session_wf (nd_s n))"
proof -
  let ?R = "\<lambda>n :: ('a, 'b, 'c) node. session_wf (nd_s n)"
  let ?rest = "\<lambda>conack. thenM (doM (updS (\<lambda>p. p\<lparr>s_willMsg := willMsg, s_cleanSession := clean\<rparr>)))
     (thenM (open_queue d clean)
     (thenM (doM (setSessionState mqttStateConnected))
     (thenM (ignoreM (sendConnAck d conack 0))
     (thenM (doM (register_session clean))
     (thenM (doM (updS (\<lambda>p. if s_keepalive p > 0 then p\<lparr>s_aliveTimer := True\<rparr> else p)))
       (handleDataAvailableNotification d availableAll))))))"
  have ignore: "hoare ?R (ignoreM (sendConnAck d conack 0) :: ('a, 'b, 'c) handling) ?R ?R" for conack
    by (rule hoare_quiet [OF quiet_ignoreM on_core_session_wf]) simp_all
  have data: "hoare ?R (handleDataAvailableNotification d availableAll) ?R ?R"
    by (rule hoare_quiet [OF _ on_core_session_wf]) simp_all
  have rest: "hoare fresh_wf (?rest conack) ?R ?R" for conack
  proof -
    have "hoare fresh_wf (doM (updS (\<lambda>p. p\<lparr>s_willMsg := willMsg, s_cleanSession := clean\<rparr>)) :: ('a, 'b, 'c) handling) fresh_wf ?R"
      by (rule hoare_doM) (simp add: fresh_wf_def session_wf_def)
    moreover have "hoare queued_wf (doM (setSessionState mqttStateConnected) :: ('a, 'b, 'c) handling) ?R ?R"
      by (rule hoare_doM) (simp add: fresh_wf_def session_wf_def queued_wf_def setSessionState_def)
    moreover have "hoare ?R (doM (register_session clean) :: ('a, 'b, 'c) handling) ?R ?R"
      by (rule hoare_doM) simp
    moreover have "hoare ?R (doM (updS (\<lambda>p. if s_keepalive p > 0 then p\<lparr>s_aliveTimer := True\<rparr> else p)) :: ('a, 'b, 'c) handling) ?R ?R"
      by (rule hoare_doM) (simp add: session_wf_def)
    ultimately show ?thesis by (blast intro: hoare_thenM hoare_open_queue ignore data)
  qed
  have take: "hoare fresh_wf (\<lambda>n. let (conack, n1) = takeover clean n in ?rest conack n1) ?R ?R"
  proof -
    have "fresh_wf n1" if "fresh_wf n" "takeover clean n = (a, n1)" for n n1 a
      using that nd_s_takeover [of clean n] by (simp add: fresh_wf_def)
    with rest show ?thesis by (rule hoare_prod)
  qed
  show ?thesis
    unfolding connect_session_def
    by (rule hoare_thenM [OF hoare_authenticate_client hoare_thenM [OF hoare_doM take]])
       (simp add: fresh_wf_def session_wf_def)
qed

lemma hoare_connect_wf:
  "hoare (\<lambda>n. session_wf (nd_s n)) (handleConnect d packet) (\<lambda>n. session_wf (nd_s n)) (\<lambda>n. session_wf (nd_s n))"
  by (rule hoare_handleConnect [OF on_core_fresh _ _ _ _ hoare_connect_session])
     (auto simp: fresh_wf_def session_wf_def)

lemma hoare_handleDisconnect:
  "hoare (\<lambda>n. session_wf (nd_s n) \<and> s_connOpen (nd_s n)) (handleDisconnect d packet)
     (\<lambda>n. ended (nd_s n)) (\<lambda>n. session_wf (nd_s n))"
proof (rule hoareI)
  fix n t :: "('a, 'b, 'c) node" and a
  assume n: "session_wf (nd_s n) \<and> s_connOpen (nd_s n)" and r: "handleDisconnect d packet n = (Ok a, t)"
  let ?n = "setSessionState mqttStateDisconnecting (updS (\<lambda>p. p\<lparr>s_willMsg := None\<rparr>) n)"
  have "s_sessionState (nd_s ?n) \<noteq> mqttStateDisconnected" "s_connOpen (nd_s ?n)"
    using n by (simp_all add: setSessionState_def)
  from disconnect_spec [OF this, of d False] r show "ended (nd_s t)"
    by (auto simp: handleDisconnect_def ended_def session_wf_def split: if_splits)
next
  fix n t :: "('a, 'b, 'c) node" and e
  assume "session_wf (nd_s n) \<and> s_connOpen (nd_s n)" "handleDisconnect d packet n = (Err e, t)"
  then show "session_wf (nd_s t)"
    by (auto simp: handleDisconnect_def disconnect_def Let_def split: if_splits)
qed

lemma nd_s_updatePacketMetrics [simp]: "nd_s (updatePacketMetrics packet n) = nd_s n"
  by (simp add: updatePacketMetrics_def split: option.splits)

lemma handleMqttPacket_other:
  assumes "p_command packet AND 0xF0 \<noteq> CONNECT" "p_command packet AND 0xF0 \<noteq> DISCONNECT"
  shows "core (nd_s (snd (handleMqttPacket d packet n))) = core (nd_s n)"
  using assms by (simp add: handleMqttPacket_def Let_def)

lemma handleMqttPacket_wf:
  assumes n: "session_wf (nd_s n)" "s_connOpen (nd_s n)" and r: "handleMqttPacket d packet n = (r, t)" "r \<noteq> Panic"
  shows "session_wf (nd_s t)"
proof -
  let ?m = "updatePacketMetrics packet n" and ?c = "p_command packet AND 0xF0"
  have m: "session_wf (nd_s ?m)" "session_wf (nd_s ?m) \<and> s_connOpen (nd_s ?m)" using n by simp_all
  consider "?c = CONNECT" | "?c = DISCONNECT" | "?c \<noteq> CONNECT" "?c \<noteq> DISCONNECT" by blast
  then show ?thesis
  proof cases
    case 1
    with r have "handleConnect d packet ?m = (r, t)" by (simp add: handleMqttPacket_def Let_def)
    with hoareD_Ok [OF hoare_connect_wf m(1)] hoareD_Err [OF hoare_connect_wf m(1)] r(2) show ?thesis
      by (cases r) auto
  next
    case 2
    with r have "handleDisconnect d packet ?m = (r, t)" by (simp add: handleMqttPacket_def Let_def)
    with hoareD_Ok [OF hoare_handleDisconnect m(2)] hoareD_Err [OF hoare_handleDisconnect m(2)] r(2) show ?thesis
      by (cases r) (auto simp: ended_def)
  next
    case 3
    from handleMqttPacket_other [OF this, of d n] r have "core (nd_s t) = core (nd_s n)" by simp
    with n(1) show ?thesis using core_session_wf by blast
  qed
qed

lemma Handle_turn_cases:
  assumes "session_wf (nd_s n)" "s_connOpen (nd_s n)" "Handle_turn d st n = (r, t)" "r \<noteq> Panic"
  shows "session_wf (nd_s t) \<and> (\<forall>b. r = Ok b \<longrightarrow> b = s_connOpen (nd_s t)) \<and>
    (\<forall>e. r = Err e \<longrightarrow> e \<noteq> MSpin \<longrightarrow> \<not> s_connOpen (nd_s t))"
proof -
  let ?h = "case st of Packet packet \<Rightarrow> handleMqttPacket d packet n
      | Available a \<Rightarrow> handleDataAvailableNotification d a n | Failure e \<Rightarrow> (Err e, n)"
  obtain r1 n1 where h: "?h = (r1, n1)" by fastforce
  have wf: "session_wf (nd_s n1)" if "r1 \<noteq> Panic"
  proof (cases st)
    case (Packet packet)
    with h that show ?thesis using handleMqttPacket_wf [OF assms(1,2)] by simp
  next
    case (Available a)
    with h have "handleDataAvailableNotification d a n = (r1, n1)" by simp
    then have "core (nd_s n1) = core (nd_s n)" by (rule quiet_run [rotated]) simp
    with assms(1) show ?thesis using core_session_wf by blast
  next
    case (Failure e)
    with h assms(1) show ?thesis by simp
  qed
  show ?thesis
  proof (cases r1)
    case (Ok u)
    with h assms(3) have "r = Ok (s_sessionState (nd_s n1) \<noteq> mqttStateDisconnected)" "t = n1"
      by (auto simp: Handle_turn_def)
    with wf Ok show ?thesis by (auto simp: session_wf_def)
  next
    case (Err e)
    obtain n2 where "disconnect d True n1 = (Ok (), n2)" "ended (nd_s n2)"
      using disconnect_ends wf Err by blast
    with h Err wf assms(3) show ?thesis
      by (auto simp: Handle_turn_def thenM_def seqM_def ended_def session_wf_def split: if_splits)
  next
    case Panic
    with h assms show ?thesis by (simp add: Handle_turn_def)
  qed
qed

subsection \<open>Authentication\<close>

lemma no_password:
  assumes "cx_Password ctx = []"
  shows "fst (authenticate rd reg ctx a) \<noteq> Ok u"
proof -
  have "length (string_of_bytes (hmac_sha1 k m)) = 20" for k m by simp
  then have "string_of_bytes (hmac_sha1 k m) \<noteq> []" for k m by (metis list.size(3) zero_neq_numeral)
  then have "sign (ctx\<lparr>cx_DeviceSecret := key\<rparr>) \<noteq> Ok u" for key
    using assms by (simp add: sign_def sha1mac_def) metis
  then show ?thesis by (auto simp: authenticate_def split: prod.splits outcome.splits)
qed

text \<open>Authentication is needed, no password is known, and the client is not connected.\<close>

definition shut :: "('db, 'r, 'c) node \<Rightarrow> bool" where
  "shut n \<longleftrightarrow> s_authNeed (nd_s n) \<and> s_sessionState (nd_s n) \<noteq> mqttStateConnected \<and>
     cx_Password (s_authctx (nd_s n)) = []"

lemma on_core_shut: "on_core shut"
  by (auto simp: on_core_def core_def shut_def)

lemma hoare_disconnect_shut: "hoare shut (disconnect d reason) shut shut"
  by (rule hoareI) (auto simp: shut_def disconnect_def Let_def setSessionState_def split: if_splits option.splits)

lemma hoare_connect_refused: "hoare shut (authenticate_client d) (\<lambda>_. False) shut"
proof -
  define refuse where "refuse e = thenM (if e = ErrUnauthorized then ignoreM (sendConnAck d 0 5) else retM ())
      (thenM (disconnect d True) (errM (MAuth e) :: ('a, 'b, 'c) handling))" for e
  have *: "hoare shut (refuse e) (\<lambda>_. False) shut" for e
    unfolding refuse_def
    by (rule hoare_thenM [OF hoare_if [OF hoare_quiet [OF quiet_ignoreM on_core_shut]
            hoare_quiet [OF quiet_basic(1) on_core_shut]] hoare_thenM [OF hoare_disconnect_shut hoare_errM]])
       auto
  show ?thesis
    unfolding hoare_def
  proof (intro allI impI)
    fix n :: "('a, 'b, 'c) node"
    assume n: "shut n"
    obtain r a where a: "authenticate (d_redis d) (d_registry d) (s_authctx (nd_s n)) (nd_auth n) = (r, a)" by fastforce
    have "r \<noteq> Ok u" for u
      using n a no_password [of "s_authctx (nd_s n)" "d_redis d" "d_registry d" "nd_auth n" u] by (simp add: shut_def)
    moreover have "shut (n\<lparr>nd_auth := a\<rparr>)" "s_authNeed (nd_s n)" using n by (simp_all add: shut_def)
    ultimately show "case authenticate_client d n of
        (Ok _, t) \<Rightarrow> False | (Err _, t) \<Rightarrow> shut t | (Panic, _) \<Rightarrow> True"
      using hoare_at [OF *, of "n\<lparr>nd_auth := a\<rparr>"]
      unfolding authenticate_client_cases refuse_def [symmetric] Let_def a
      by (cases r) simp_all
  qed
qed

lemma hoare_connect_shut: "hoare shut (handleConnect d packet) shut shut"
proof (rule hoare_handleConnect [OF on_core_shut])
  show "hoare shut (connect_session d clean willMsg) shut shut" for clean willMsg
    unfolding connect_session_def
    by (rule hoare_thenM [OF hoare_connect_refused]) (simp add: hoare_def)
qed (auto simp: shut_def)

lemma shut_hoareD: "hoare shut m shut shut \<Longrightarrow> shut n \<Longrightarrow> m n = (r, t) \<Longrightarrow> r \<noteq> Panic \<Longrightarrow> shut t"
  by (cases r) (auto dest: hoareD_Ok hoareD_Err)

lemma Handle_turn_shut:
  assumes "shut n" "Handle_turn d st n = (r, t)" "r \<noteq> Panic"
  shows "shut t"
proof -
  have packet: "shut t" if "handleMqttPacket d packet n = (r, t)" "r \<noteq> Panic" for packet r t
  proof -
    let ?m = "updatePacketMetrics packet n" and ?c = "p_command packet AND 0xF0"
    have m: "shut ?m" using assms(1) by (simp add: shut_def)
    have "hoare shut (handleDisconnect d packet) shut shut"
      by (rule hoareI) (auto simp: handleDisconnect_def disconnect_def shut_def setSessionState_def Let_def
          split: if_splits)
    from shut_hoareD [OF this m] shut_hoareD [OF hoare_connect_shut m] handleMqttPacket_other [of packet d n]
      on_coreD [OF on_core_shut, of n t] that assms(1)
    show ?thesis
      by (cases "?c = CONNECT"; cases "?c = DISCONNECT") (simp_all add: handleMqttPacket_def Let_def)
  qed
  obtain r1 n1 where h: "(case st of Packet packet \<Rightarrow> handleMqttPacket d packet n
      | Available a \<Rightarrow> handleDataAvailableNotification d a n | Failure e \<Rightarrow> (Err e, n)) = (r1, n1)" by fastforce
  have n1: "shut n1" if "r1 \<noteq> Panic"
  proof (cases st)
    case (Available a)
    with h have "handleDataAvailableNotification d a n = (r1, n1)" by simp
    then have "core (nd_s n1) = core (nd_s n)" by (rule quiet_run [rotated]) simp
    with assms(1) show ?thesis using on_coreD [OF on_core_shut] by blast
  qed (use h that packet assms(1) in auto)
  have "hoare shut (thenM (disconnect d True) (errM e)) shut shut" for e :: mqtt_error
    by (rule hoare_thenM [OF hoare_disconnect_shut hoare_errM]) simp
  from shut_hoareD [OF this] n1 h assms(2,3) show ?thesis
    by (cases r1) (auto simp: Handle_turn_def split: if_splits)
qed

end
