(* ===== verification/Mqtt_Delivery.thy ===== *)
theory Mqtt_Delivery
  imports Mqtt_Session_Facts
begin

text \<open>
  What a session puts on the wire: the frames it builds, that its delivery loop empties the
  queue onto a network that takes what is written to it, and what becomes of the messages that
  wait for an acknowledgement.
\<close>

unbundle bit_operations_syntax

subsection \<open>Frames\<close>

definition publish_length :: "Message \<Rightarrow> nat" where
  "publish_length msg = 2 + length (m_Topic msg) + length (m_Payload msg) + (if m_Qos msg > 0 then 2 else 0)"

definition publish_frame :: "Message \<Rightarrow> 16 word \<Rightarrow> bytes" where
  "publish_frame msg pid =
     header_byte (publish_packet msg) # remaining_bytes (int (publish_length msg)) 0 @
     nibbles (word_of_nat (length (m_Topic msg))) @ bytes_of_string (m_Topic msg) @
     (if m_Qos msg > 0 then nibbles pid else []) @ m_Payload msg"

definition publish_fits :: "Message \<Rightarrow> bool" where
  "publish_fits msg \<longleftrightarrow> int (publish_length msg) \<le> MQTT_MAX_PAYLOAD"

lemma ignoreM_run: "fst (m s) = Ok a \<Longrightarrow> ignoreM m s = (Ok (), snd (m s))"
  by (cases "m s") (simp add: ignoreM_def)

lemma thenM_run: "m s = (Ok a, t) \<Longrightarrow> thenM m k s = k t"
  by (simp add: thenM_def seqM_def)

lemma thenM_ignore: "fst (m s) = Ok a \<Longrightarrow> thenM (ignoreM m) k s = k (snd (m s))"
  by (cases "m s") (simp add: thenM_def seqM_def ignoreM_def)

lemma publish_body_spec:
  assumes "publish_fits msg"
  shows "\<exists>pk. publish_body msg pid (publish_packet msg) = (Ok (), pk) \<and> assembling pk (publish_frame msg pid) []"
proof -
  let ?p = "publish_packet msg"
  let ?pre = "header_byte ?p # remaining_bytes (int (publish_length msg)) 0"
  let ?s = "nibbles (word_of_nat (length (m_Topic msg))) @ bytes_of_string (m_Topic msg)"
  let ?id = "if m_Qos msg > 0 then nibbles pid else []"
  have rl: "p_remainingLength ?p = int (publish_length msg)"
    by (simp add: publish_packet_def publish_length_def)
  then have ok: "0 \<le> p_remainingLength ?p" "p_remainingLength ?p \<le> MQTT_MAX_PAYLOAD"
    using assms by (simp_all add: publish_fits_def)
  define p1 where "p1 = snd (initializePacket ?p)"
  note i = assembling_initialize [OF ok, folded p1_def, unfolded rl nat_int]
  define p2 where "p2 = snd (writeString (m_Topic msg) p1)"
  have len: "2 + length (m_Topic msg) \<le> length (replicate (publish_length msg) (0 :: byte))"
    by (simp add: publish_length_def)
  note w = writeString_assembling [OF i(2) len, folded p2_def]
  define p3 where "p3 = (if m_Qos msg > 0 then snd (writeUint16 pid p2) else p2)"
  have 3: "(if m_Qos msg > 0 then ignoreM (writeUint16 pid) else retM ()) p2 = (Ok () :: (packet_error, unit) outcome, p3) \<and>
      assembling p3 (?pre @ ?s @ ?id) (replicate (length (m_Payload msg)) 0)"
  proof (cases "m_Qos msg > 0")
    case True
    then have "2 \<le> length (drop (2 + length (m_Topic msg)) (replicate (publish_length msg) (0 :: byte)))"
      by (simp add: publish_length_def)
    from writeUint16_assembling [OF w(2) this, of pid] True show ?thesis
      by (simp add: ignoreM_run p3_def publish_length_def drop_replicate)
  qed (use w(2) in \<open>simp add: p3_def publish_length_def drop_replicate\<close>)
  then have 3: "(if m_Qos msg > 0 then ignoreM (writeUint16 pid) else retM ()) p2 = (Ok () :: (packet_error, unit) outcome, p3)"
      "assembling p3 (?pre @ ?s @ ?id) (replicate (length (m_Payload msg)) 0)" by auto
  have "length (m_Payload msg) \<le> length (replicate (length (m_Payload msg)) (0 :: byte))" by simp
  note b = writeBytes_assembling [OF 3(2) this]
  have "publish_body msg pid ?p = (Ok (), snd (writeBytes (m_Payload msg) p3))"
    unfolding publish_body_def
    using 3(1)
    by (simp add: thenM_ignore [of initializePacket, OF i(1)] thenM_ignore [of "writeString (m_Topic msg)", OF w(1)]
        thenM_run ignoreM_run [of "writeBytes (m_Payload msg)", OF b(1)] p1_def [symmetric] p2_def [symmetric]
        split del: if_split)
  with b(2) show ?thesis by (simp add: publish_frame_def)
qed

subsection \<open>Writing to the network\<close>

text \<open>
  A connection that takes all that is written to it: \<open>out\<close> is what the peer gets. This is what
  \<^verbatim>\<open>net.Conn.Write\<close> documents of a write that returns no error.
\<close>

definition reliable :: "'c net \<Rightarrow> ('c \<Rightarrow> bytes) \<Rightarrow> bool" where
  "reliable net out \<longleftrightarrow> (\<forall>b c. \<exists>c'. nc_write net b c = ((int (length b), False), c') \<and> out c' = out c @ b)"

declare write_loop_conn.simps [simp del]

lemma write_loop_conn_reliable:
  assumes "reliable net out"
  shows "\<exists>c'. write_loop_conn net (slice_of bs) 0 (int (length bs)) c = (Ok (), c') \<and> out c' = out c @ bs"
proof (cases "bs = []")
  case False
  obtain c' where c': "nc_write net bs c = ((int (length bs), False), c')" "out c' = out c @ bs"
    using assms by (auto simp: reliable_def)
  have "slice_sub (slice_of bs) 0 (int (length bs)) = Some (slice_of bs)"
    by (simp add: slice_sub_def slice_of_def)
  with c' False show ?thesis by (subst write_loop_conn.simps) (simp add: write_loop_conn.simps [of _ _ _ 0])
qed (simp add: write_loop_conn.simps)

lemma writePacket_reliable:
  assumes "reliable (d_net d) out" "s_connOpen (nd_s n)" "assembling pk bs []"
  shows "\<exists>c'. writePacket d pk n = (Ok (), updS (\<lambda>p. p\<lparr>s_conn := c'\<rparr>) n) \<and> out c' = out (s_conn (nd_s n)) @ bs"
proof -
  have "p_payload pk = slice_of bs" "p_length pk = int (length bs)"
    using assms(3) by (simp_all add: assembling_def)
  with write_loop_conn_reliable [OF assms(1), of bs "s_conn (nd_s n)"] assms(2) show ?thesis
    by (auto simp: writePacket_def)
qed

text \<open>The packet identifier a message is sent with, and the one after it.\<close>

definition sent_id :: "Message \<Rightarrow> 16 word \<Rightarrow> 16 word" where
  "sent_id msg nxt = (if m_Qos msg > 0 then fst (makePacketID nxt) else 0)"

definition next_id :: "Message \<Rightarrow> 16 word \<Rightarrow> 16 word" where
  "next_id msg nxt = (if m_Qos msg > 0 then snd (makePacketID nxt) else nxt)"

lemma sendPublish_reliable:
  assumes "reliable (d_net d) out" "s_connOpen (nd_s n)" "publish_fits msg"
  shows "\<exists>c'. sendPublish d msg n =
      (Ok (), updS (\<lambda>p. p\<lparr>s_nextPacketID := next_id msg (s_nextPacketID (nd_s n)), s_conn := c'\<rparr>) n) \<and>
    out c' = out (s_conn (nd_s n)) @ publish_frame msg (sent_id msg (s_nextPacketID (nd_s n)))"
proof -
  let ?nx = "s_nextPacketID (nd_s n)"
  let ?n = "updS (\<lambda>p. p\<lparr>s_nextPacketID := next_id msg ?nx\<rparr>) n"
  obtain pk where pk: "publish_body msg (sent_id msg ?nx) (publish_packet msg) = (Ok (), pk)"
      "assembling pk (publish_frame msg (sent_id msg ?nx)) []"
    using publish_body_spec [OF assms(3)] by blast
  have "s_connOpen (nd_s ?n)" using assms(2) by simp
  from writePacket_reliable [OF assms(1) this pk(2)] obtain c' where
    "writePacket d pk ?n = (Ok (), updS (\<lambda>p. p\<lparr>s_conn := c'\<rparr>) ?n)"
    "out c' = out (s_conn (nd_s n)) @ publish_frame msg (sent_id msg ?nx)" by auto
  moreover have "sendPublish d msg n = writePacket d pk ?n"
    using pk(1) by (cases "m_Qos msg > 0"; cases "makePacketID ?nx")
      (simp_all add: sendPublish_def sendBuilt_def sent_id_def next_id_def updS_def)
  ultimately show ?thesis by (auto simp: updS_def)
qed

subsection \<open>Short packets\<close>

definition builds :: "(mqttPacket, packet_error, unit) go \<Rightarrow> mqttPacket \<Rightarrow> bytes \<Rightarrow> bool" where
  "builds build pk bs \<longleftrightarrow> (\<exists>q. build pk = (Ok (), q) \<and> p_payload q = slice_of bs \<and> p_length q = int (length bs))"

lemma fresh_packet_init:
  assumes "0 \<le> len" "len \<le> MQTT_MAX_PAYLOAD"
  shows "\<exists>q. initializePacket (fresh_packet cmd len) = (Ok (), q) \<and>
    assembling q (cmd # remaining_bytes len 0) (replicate (nat len) 0)"
proof -
  have "p_remainingLength (fresh_packet cmd len) = len" "header_byte (fresh_packet cmd len) = cmd"
    by (simp_all add: fresh_packet_def newMqttPacket_def header_byte_def)
  with assembling_initialize [of "fresh_packet cmd len"] assms show ?thesis
    by (metis prod.collapse)
qed

lemma remaining_bytes_one: "0 < rl \<Longrightarrow> rl < 128 \<Longrightarrow> remaining_bytes rl 0 = [word_of_int rl]"
  by (subst remaining_bytes.simps) (simp add: Let_def)

lemma builds_simple: "builds (ignoreM initializePacket) (fresh_packet cmd 1) [cmd, 1, 0]"
  using fresh_packet_init [of 1 cmd]
  by (auto simp: builds_def ignoreM_def assembling_def remaining_bytes_one)

lemma builds_two: "builds (thenM (ignoreM initializePacket) (thenM (setAt 0 a) (setAt 1 b))) (fresh_packet cmd 2) [cmd, 2, a, b]"
proof -
  obtain q where q: "initializePacket (fresh_packet cmd 2) = (Ok (), q)" "p_payload q = slice_of [cmd, 2, 0, 0]"
      "p_pos q = 2" "p_length q = 4"
    using fresh_packet_init [of 2 cmd] by (auto simp: assembling_def remaining_bytes_one numeral_2_eq_2)
  have "setAt 0 a q = (Ok (), q\<lparr>p_payload := slice_of [cmd, 2, a, 0]\<rparr>)"
    "setAt 1 b (q\<lparr>p_payload := slice_of [cmd, 2, a, 0]\<rparr>) = (Ok (), q\<lparr>p_payload := slice_of [cmd, 2, a, b]\<rparr>)"
    using q(2,3) by (simp_all add: setAt_def slice_set_def slice_of_def numeral_2_eq_2 numeral_3_eq_3)
  then show ?thesis
    using q by (simp add: builds_def thenM_def seqM_def ignoreM_def)
qed

lemma builds_suback:
  assumes "2 + int (length payload) \<le> MQTT_MAX_PAYLOAD"
  shows "builds (thenM (ignoreM initializePacket) (thenM (ignoreM (writeUint16 pid))
         (if payload \<noteq> [] then ignoreM (writeBytes payload) else retM ()))) (fresh_packet cmd (2 + int (length payload)))
       (cmd # remaining_bytes (2 + int (length payload)) 0 @ nibbles pid @ payload)"
proof -
  let ?len = "2 + int (length payload)"
  have nat: "nat ?len = 2 + length payload" by simp
  obtain q where q: "initializePacket (fresh_packet cmd ?len) = (Ok (), q)"
      "assembling q (cmd # remaining_bytes ?len 0) (replicate (2 + length payload) 0)"
    using fresh_packet_init [of ?len cmd] assms unfolding nat by auto
  have "2 \<le> length (replicate (2 + length payload) (0 :: byte))" by simp
  note w = writeUint16_assembling [OF q(2) this, of pid]
  have len: "length payload \<le> length (drop 2 (replicate (2 + length payload) (0 :: byte)))" by simp
  note b = writeBytes_assembling [OF w(2) len]
  show ?thesis
  proof (cases "payload = []")
    case True
    with q(1) w show ?thesis
      by (cases "writeUint16 pid q") (auto simp: builds_def thenM_def seqM_def ignoreM_def assembling_def)
  next
    case False
    with q(1) w(1) b show ?thesis
      by (cases "writeUint16 pid q"; cases "writeBytes payload (snd (writeUint16 pid q))")
         (auto simp: builds_def thenM_def seqM_def ignoreM_def assembling_def)
  qed
qed

definition puts :: "('db, 'r, 'c) handling \<Rightarrow> ('c \<Rightarrow> bytes) \<Rightarrow> bytes \<Rightarrow> bool" where
  "puts m out bs \<longleftrightarrow> (\<forall>n. s_connOpen (nd_s n) \<longrightarrow>
     (\<exists>c'. m n = (Ok (), updS (\<lambda>p. p\<lparr>s_conn := c'\<rparr>) n) \<and> out c' = out (s_conn (nd_s n)) @ bs))"

lemma putsD: "puts m out bs \<Longrightarrow> s_connOpen (nd_s n) \<Longrightarrow>
    \<exists>c'. m n = (Ok (), updS (\<lambda>p. p\<lparr>s_conn := c'\<rparr>) n) \<and> out c' = out (s_conn (nd_s n)) @ bs"
  by (simp add: puts_def)

lemma puts_built:
  assumes "reliable (d_net d) out" "builds build pk bs"
  shows "puts (sendBuilt d build pk) out bs"
  unfolding puts_def
proof (intro allI impI)
  fix n :: "('b, 'c, 'a) node" assume "s_connOpen (nd_s n)"
  then show "\<exists>c'. sendBuilt d build pk n = (Ok (), updS (\<lambda>p. p\<lparr>s_conn := c'\<rparr>) n) \<and> out c' = out (s_conn (nd_s n)) @ bs"
    using assms(2) write_loop_conn_reliable [OF assms(1), of bs "s_conn (nd_s n)"]
    by (auto simp: builds_def sendBuilt_def writePacket_def)
qed

lemma id_bytes: "ucast (drop_bit 8 (pid AND 0xFF00)) = (ucast (drop_bit 8 pid) :: byte)" "ucast (pid AND 0xFF) = (ucast pid :: byte)"
  for pid :: "16 word"
proof -
  have *: "(0xFF00 :: 16 word) = push_bit 8 (mask 8)" "(0xFF :: 16 word) = mask 8" by (simp_all add: mask_eq_exp_minus_1)
  show "ucast (drop_bit 8 (pid AND 0xFF00)) = (ucast (drop_bit 8 pid) :: byte)" "ucast (pid AND 0xFF) = (ucast pid :: byte)"
    unfolding * by (rule bit_word_eqI; auto simp: bit_simps)+
qed

lemma puts_short:
  assumes "reliable (d_net d) out"
  shows "puts (sendSimpleCommand d cmd) out [cmd, 1, 0]"
    "puts (sendConnAck d ack res) out [CONNACK, 2, ack, res]"
    "puts (sendCommandWithPacketID d cmd pid False) out [cmd, 2, ucast (drop_bit 8 pid), ucast pid]"
    "2 + int (length payload) \<le> MQTT_MAX_PAYLOAD \<Longrightarrow>
     puts (sendSubAck d pid payload) out (SUBACK # remaining_bytes (2 + int (length payload)) 0 @ nibbles pid @ payload)"
  unfolding sendSimpleCommand_def sendConnAck_def sendCommandWithPacketID_def sendSubAck_def id_bytes
  by (simp_all add: puts_built [OF assms] builds_simple builds_two builds_suback)

subsection \<open>The delivery loop\<close>

abbreviation (input) node_queues :: "('db, 'r, 'c) node \<Rightarrow> 'db qstate" where
  "node_queues n \<equiv> sm_queues (nd_sm n)"

definition waiting :: "qref \<Rightarrow> ('db, 'r, 'c) node \<Rightarrow> Message list" where
  "waiting r n = tl_msgs (q_list (q_at (node_queues n) r))"

text \<open>A session that can deliver: its connection and its transient queue are open, and the list of
  unacknowledged messages can grow.\<close>

definition ready :: "qref \<Rightarrow> ('db, 'r, 'c) node \<Rightarrow> bool" where
  "ready r n \<longleftrightarrow> s_connOpen (nd_s n) \<and> tq_inv r (node_queues n) \<and>
     tl_inv (q_list (q_at (node_queues n) r)) \<and> tl_buf (q_list (q_at (node_queues n) r)) \<noteq> []"

lemma ready_frame [simp]:
  "ready r (addMetricOf name n) = ready r n" "waiting r (addMetricOf name n) = waiting r n"
  "waiting r (updS f n) = waiting r n" "ready r (n\<lparr>nd_auth := a\<rparr>) = ready r n"
  by (simp_all add: ready_def waiting_def)

lemma ready_updS [simp]: "ready r (updS f n) \<longleftrightarrow> ready r n \<and> s_connOpen (f (nd_s n))" if "s_connOpen (nd_s n)"
  using that by (auto simp: ready_def)

lemma pop_keeps_list:
  "tq_inv r s \<Longrightarrow> q_list (q_at (snd (q_Pop mg r s)) r) = q_list (q_at s r)"
  by (auto simp: tq_inv_def q_Pop_def split: backend.splits prod.splits outcome.splits option.splits wait.splits)

lemma on_list_pushback:
  assumes "ready r n"
  shows "\<exists>t. on_list r (tl_Pushback m) n = (Ok (), t) \<and> nd_s t = nd_s n \<and> ready r t \<and>
    tq_elems r (node_queues t) = tq_elems r (node_queues n) \<and> waiting r t = waiting r n @ [m]"
proof -
  let ?q = "q_at (node_queues n) r"
  have l: "tl_inv (q_list ?q)" "tl_buf (q_list ?q) \<noteq> []" and r: "r < length (qs_heap (node_queues n))"
    using assms by (auto simp: ready_def tq_inv_def)
  define l' where "l' = snd (tl_Pushback m (q_list ?q))"
  have run: "tl_Pushback m (q_list ?q) = (Ok (), l')" "tl_inv l'" "tl_msgs l' = tl_msgs (q_list ?q) @ [m]"
    using tl_Pushback_spec [OF l, of m] by (auto simp: l'_def prod_eq_iff)
  have "tl_buf l' \<noteq> []" using run(1) l(2) by (auto simp: tl_Pushback_def Let_def split: if_splits)
  with run r assms show ?thesis
    by (auto simp: on_list_def Let_def on_q_def on_queues_def ready_def waiting_def tq_inv_def tq_elems_def split: backend.splits)
qed

lemma sent_one_spec:
  assumes "ready r n" "tq_elems r (node_queues n) = m # ms"
  shows "\<exists>t. sent_one d r m n = (Ok (), t) \<and> nd_s t = nd_s n \<and> ready r t \<and> tq_elems r (node_queues t) = ms \<and>
    waiting r t = waiting r n @ (if m_Qos m = 1 then [m\<lparr>m_Dup := True\<rparr>] else [])"
proof -
  have inv: "tq_inv r (node_queues n)" using assms(1) by (simp add: ready_def)
  note pop = tq.pop_law [OF this assms(2), of "d_mongo d"]
  define t where "t = n\<lparr>nd_sm := (nd_sm n)\<lparr>sm_queues := snd (q_Pop (d_mongo d) r (node_queues n))\<rparr>\<rparr>"
  have run: "on_q (q_Pop (d_mongo d) r) n = (Ok (Some m), t)"
    using pop by (cases "q_Pop (d_mongo d) r (node_queues n)") (simp add: on_q_def on_queues_def t_def)
  define u where "u = addMetricOf ''packets/publish/sent'' (addMetricOf ''messages/sent'' t)"
  have u: "ready r u" "tq_elems r (node_queues u) = ms" "waiting r u = waiting r n" "nd_s u = nd_s n"
    using pop pop_keeps_list [OF inv, of "d_mongo d"] assms(1) by (simp_all add: u_def t_def ready_def waiting_def)
  from on_list_pushback [OF u(1), of "m\<lparr>m_Dup := True\<rparr>"] u run show ?thesis
    by (auto simp: sent_one_def u_def [symmetric] Let_def)
qed

text \<open>The frames of a list of messages, with the identifiers counted up from \<open>nxt\<close>.\<close>

fun frames :: "16 word \<Rightarrow> Message list \<Rightarrow> bytes" where
  "frames nxt [] = []"
| "frames nxt (m # ms) = publish_frame m (sent_id m nxt) @ frames (next_id m nxt) ms"

definition to_acknowledge :: "Message list \<Rightarrow> Message list" where
  "to_acknowledge ms = map (\<lambda>m. m\<lparr>m_Dup := True\<rparr>) (filter (\<lambda>m. m_Qos m = 1) ms)"

lemma drain_spec:
  assumes "reliable (d_net d) out"
  shows "ready r n \<Longrightarrow> tq_elems r (node_queues n) = ms \<Longrightarrow> list_all publish_fits ms \<Longrightarrow> length ms \<le> fuel \<Longrightarrow>
    \<exists>t. drain d r fuel n = (Ok (), t) \<and> ready r t \<and> tq_elems r (node_queues t) = [] \<and>
      waiting r t = waiting r n @ to_acknowledge ms \<and>
      out (s_conn (nd_s t)) = out (s_conn (nd_s n)) @ frames (s_nextPacketID (nd_s n)) ms"
proof (induction ms arbitrary: n fuel)
  case Nil
  then have "q_Length (d_mongo d) r (node_queues n) = 0"
    using tq.len_law [of r "node_queues n" "d_mongo d"] by (simp add: ready_def)
  with Nil show ?case by (subst drain.simps) (simp add: to_acknowledge_def)
next
  case (Cons m ms)
  obtain k where k: "fuel = Suc k" "length ms \<le> k" using Cons.prems(4) by (cases fuel) auto
  have inv: "tq_inv r (node_queues n)" "s_connOpen (nd_s n)" using Cons.prems(1) by (simp_all add: ready_def)
  have len: "q_Length (d_mongo d) r (node_queues n) > 0"
    using tq.len_law [OF inv(1), of "d_mongo d"] Cons.prems(2) by simp
  have front: "q_Front (d_mongo d) r (node_queues n) = Ok (Some m)"
    using tq.front_law [OF inv(1)] Cons.prems(2) by blast
  let ?nx = "s_nextPacketID (nd_s n)"
  have "publish_fits m" using Cons.prems(3) by simp
  from sendPublish_reliable [OF assms inv(2) this] obtain c' where
    send: "sendPublish d m n = (Ok (), updS (\<lambda>p. p\<lparr>s_nextPacketID := next_id m ?nx, s_conn := c'\<rparr>) n)" (is "_ = (_, ?u)")
    and c': "out c' = out (s_conn (nd_s n)) @ publish_frame m (sent_id m ?nx)" by blast
  have "ready r ?u" "tq_elems r (node_queues ?u) = m # ms" using Cons.prems inv(2) by simp_all
  from sent_one_spec [OF this, of d] obtain v where
    v: "sent_one d r m ?u = (Ok (), v)" "nd_s v = nd_s ?u" "ready r v" "tq_elems r (node_queues v) = ms"
      "waiting r v = waiting r n @ (if m_Qos m = 1 then [m\<lparr>m_Dup := True\<rparr>] else [])" by auto
  from Cons.IH [OF v(3,4) _ k(2)] Cons.prems(3) obtain t where
    t: "drain d r k v = (Ok (), t)" "ready r t" "tq_elems r (node_queues t) = []"
      "waiting r t = waiting r v @ to_acknowledge ms"
      "out (s_conn (nd_s t)) = out (s_conn (nd_s v)) @ frames (s_nextPacketID (nd_s v)) ms" by auto
  have "drain d r fuel n = (Ok (), t)"
    using len front send v(1) t(1) k(1) by (subst drain.simps) (simp add: thenM_run)
  with t v c' show ?case by (auto simp: to_acknowledge_def)
qed

subsection \<open>A sample session\<close>

text \<open>A connection that keeps what was written to it, and one that fails every write.\<close>

definition list_net :: "bytes net" where
  "list_net = \<lparr>nc_write = (\<lambda>b c. ((int (length b), False), c @ b)), nc_close = (\<lambda>c. c)\<rparr>"

definition broken_net :: "bytes net" where
  "broken_net = \<lparr>nc_write = (\<lambda>b c. ((0, True), c)), nc_close = (\<lambda>c. c)\<rparr>"

definition sample_deps :: "bytes net \<Rightarrow> (unit, (string \<times> string) list, bytes) deps" where
  "sample_deps net = \<lparr>d_mongo = no_mongo, d_redis = map_redis, d_registry = (\<lambda>p d. Some ''key''), d_net = net,
     d_limit = 1000, d_fuel = 10\<rparr>"

definition sample_message :: "byte \<Rightarrow> Message" where
  "sample_message qos = \<lparr>m_Topic = ''t'', m_PacketId = 0, m_Direction = 0, m_State = 0, m_Qos = qos, m_Dup = False,
     m_Retain = False, m_Payload = [7], m_Time = 0\<rparr>"

lemma sample_message_qos [simp]: "m_Qos (sample_message qos) = qos"
  by (simp add: sample_message_def)

text \<open>The node of a session whose queue is the first of the manager \<open>m\<close>.\<close>

definition sample_node :: "unit sessionManager \<Rightarrow> (unit, (string \<times> string) list, bytes) node" where
  "sample_node m = \<lparr>nd_s = (fst (newMqttSession 5 (Some False) [] newMetricService))
       \<lparr>s_sessionState := mqttStateConnected, s_queue := Some 0, s_clientID := ''c1''\<rparr>,
     nd_sm = m, nd_auth = newAuthService None, nd_metrics = newMetricService, nd_events = []\<rparr>"

definition filled_manager :: "Message list \<Rightarrow> unit sessionManager" where
  "filled_manager ms = foldl (\<lambda>m msg. snd (on_queues (q_Pushback no_mongo 0 msg) m)) sample_manager ms"

lemma filled_manager_facts:
  "tq_inv 0 (sm_queues (filled_manager ms))" "tq_elems 0 (sm_queues (filled_manager ms)) = ms"
proof -
  have *: "sm_queues (filled_manager ms) = foldl (\<lambda>s m. snd (q_Pushback no_mongo 0 m s)) (sm_queues sample_manager) ms"
    unfolding filled_manager_def by (induction ms rule: rev_induct) (simp_all add: snd_on_queues)
  show "tq_inv 0 (sm_queues (filled_manager ms))" "tq_elems 0 (sm_queues (filled_manager ms)) = ms"
    unfolding * using tq.push_all [OF sample_manager_facts(3), of no_mongo ms] sample_manager_facts(4) by simp_all
qed

lemma filled_manager_list: "q_list (q_at (sm_queues (filled_manager ms)) 0) = newTransientList"
proof (induction ms rule: rev_induct)
  case Nil
  show ?case
    by (simp add: filled_manager_def sample_manager_def snd_on_queues newSessionManager_def newQueue_def
        newQueueService_def q_alloc_def Let_def q_at_def newTransientQueue_def)
next
  case (snoc m ms)
  have "q_list (q_at (snd (q_Pushback no_mongo 0 m s)) 0) = q_list (q_at s 0)" if "tq_inv 0 s" for s :: "unit qstate"
    using that by (auto simp: tq_inv_def q_Pushback_def notify_observer_def split: backend.splits prod.splits
        outcome.splits option.splits wait.splits)
  from this [OF filled_manager_facts(1)] snoc show ?case
    by (simp add: filled_manager_def snd_on_queues)
qed

lemma sample_node_ready: "ready 0 (sample_node (filled_manager ms))" "waiting 0 (sample_node (filled_manager ms)) = []"
  by (simp_all add: ready_def waiting_def sample_node_def filled_manager_facts filled_manager_list
      newMqttSession_def newMetric_def newMetricService_def tl_new newTransientList_def minQueueLen_def Let_def
      tl_inv_def tl_msgs_def)

lemma list_net_reliable: "reliable list_net (\<lambda>c. c)"
  by (simp add: reliable_def list_net_def)

subsection \<open>Properties of the delivery\<close>

lemma available_queue:
  "s_queue (nd_s n) = Some r \<Longrightarrow> handleDataAvailableNotification d availableQueue n = drain d r (d_fuel d) n"
  by (simp add: handleDataAvailableNotification_def thenM_run)



lemma sendPublish_broken:
  assumes net: "\<And>b c. \<exists>c'. nc_write (d_net d) b c = ((k, True), c')" and "s_connOpen (nd_s n)" "publish_fits msg"
  shows "\<exists>c'. sendPublish d msg n =
      (Err MWrite, updS (\<lambda>p. p\<lparr>s_nextPacketID := next_id msg (s_nextPacketID (nd_s n)), s_conn := c'\<rparr>) n)"
proof -
  let ?nx = "s_nextPacketID (nd_s n)"
  let ?n = "updS (\<lambda>p. p\<lparr>s_nextPacketID := next_id msg ?nx\<rparr>) n" and ?f = "publish_frame msg (sent_id msg ?nx)"
  obtain pk where pk: "publish_body msg (sent_id msg ?nx) (publish_packet msg) = (Ok (), pk)" "assembling pk ?f []"
    using publish_body_spec [OF assms(3)] by blast
  obtain c' where c': "nc_write (d_net d) ?f (s_conn (nd_s n)) = ((k, True), c')" using net by blast
  have "slice_sub (slice_of ?f) 0 (int (length ?f)) = Some (slice_of ?f)" "?f \<noteq> []"
    by (simp_all add: slice_sub_def slice_of_def publish_frame_def)
  with c' have "write_loop_conn (d_net d) (slice_of ?f) 0 (int (length ?f)) (s_conn (nd_s n)) = (Err MWrite, c')"
    by (subst write_loop_conn.simps) simp
  with pk(2) assms(2) have "writePacket d pk ?n = (Err MWrite, updS (\<lambda>p. p\<lparr>s_conn := c'\<rparr>) ?n)"
    by (simp add: assembling_def writePacket_def)
  moreover have "sendPublish d msg n = writePacket d pk ?n"
    using pk(1) by (cases "m_Qos msg > 0"; cases "makePacketID ?nx")
      (simp_all add: sendPublish_def sendBuilt_def sent_id_def next_id_def updS_def)
  ultimately show ?thesis by (auto simp: updS_def)
qed

text \<open>C40. When every write to the connection fails, the delivery loop never ends: after any number of turns
  it is still running, with the same message at the head of the queue.\<close>

theorem broken_connection_spins:
  assumes "\<And>b c. \<exists>c'. nc_write (d_net d) b c = ((k, True), c')" "s_connOpen (nd_s n)" "tq_inv r (node_queues n)"
    "tq_elems r (node_queues n) = m # ms" "publish_fits m"
  shows "\<exists>t. drain d r turns n = (Err MSpin, t) \<and> tq_elems r (node_queues t) = m # ms"
  using assms(2-4)
proof (induction turns arbitrary: n)
  case 0
  with tq.len_law [OF 0(2), of "d_mongo d"] show ?case by (subst drain.simps) simp
next
  case (Suc turns)
  obtain c' where s: "sendPublish d m n =
      (Err MWrite, updS (\<lambda>p. p\<lparr>s_nextPacketID := next_id m (s_nextPacketID (nd_s n)), s_conn := c'\<rparr>) n)"
    using sendPublish_broken [OF assms(1) Suc.prems(1) assms(5)] by blast
  have "q_Length (d_mongo d) r (node_queues n) > 0" "q_Front (d_mongo d) r (node_queues n) = Ok (Some m)"
    using tq.len_law [OF Suc.prems(2), of "d_mongo d"] tq.front_law [OF Suc.prems(2,3)] Suc.prems(3) by simp_all
  with s Suc.IH [of "updS (\<lambda>p. p\<lparr>s_nextPacketID := next_id m (s_nextPacketID (nd_s n)), s_conn := c'\<rparr>) n"] Suc.prems
  show ?case by (subst drain.simps) simp
qed

theorem broken_connection_spins_witness:
  "\<exists>t. drain (sample_deps broken_net) 0 1000 (sample_node (filled_manager [sample_message 1])) = (Err MSpin, t) \<and>
    tq_elems 0 (node_queues t) = [sample_message 1]"
  by (rule broken_connection_spins [where k = 0])
     (simp_all add: sample_deps_def broken_net_def sample_node_def newMqttSession_def newMetric_def Let_def
        filled_manager_facts publish_fits_def publish_length_def sample_message_def)

end
