(* ===== verification/Mqtt_Handling.thy ===== *)
theory Mqtt_Handling
  imports Mqtt_Delivery
begin

text \<open>
  What the handlers of a session do with well-formed packets: the events a publication or a
  subscription causes and the answers on the wire, the acknowledgement of messages, and that a
  connected session never panics.
\<close>

unbundle bit_operations_syntax

subsection \<open>Strings and numbers on the wire\<close>

definition be16 :: "16 word \<Rightarrow> bytes" where
  "be16 w = [ucast (drop_bit 8 w), ucast w]"

definition wire_string :: "string \<Rightarrow> bytes" where
  "wire_string s = be16 (word_of_nat (length s)) @ bytes_of_string s"

lemma be16_value: "push_bit 8 (ucast (ucast (drop_bit 8 w) :: byte)) + ucast (ucast w :: byte) = (w :: 16 word)" (is "?a + ?b = _")
proof -
  have "?a AND ?b = 0" by (rule bit_word_eqI) (auto simp: bit_simps)
  then have "?a + ?b = ?a OR ?b" by (rule disjunctive_add_eq_or)
  also have "\<dots> = w" by (rule bit_word_eqI) (auto simp: bit_simps)
  finally show ?thesis .
qed

lemma readUint16_be16:
  assumes "wf_packet p" "unread p = be16 w @ rest"
  shows "readUint16 p = (Ok w, advance p 2)" "wf_packet (advance p 2)" "unread (advance p 2) = rest"
  using assms wf_pos [OF assms(1)]
  by (simp_all add: readUint16_spec be16_def be16_value wf_advance unread_advance)

lemma readString_wire:
  assumes "wf_packet p" "unread p = wire_string s @ rest" "length s < 2 ^ 16"
  shows "readString p = (Ok s, advance p (2 + length s))" "wf_packet (advance p (2 + length s))"
    "unread (advance p (2 + length s)) = rest"
proof -
  have "unat (word_of_nat (length s) :: 16 word) = length s"
    using assms(3) by (simp add: unat_of_nat take_bit_nat_eq_self)
  then show "readString p = (Ok s, advance p (2 + length s))" "wf_packet (advance p (2 + length s))"
    "unread (advance p (2 + length s)) = rest"
    using assms wf_pos [OF assms(1)]
    by (simp_all add: readString_spec wire_string_def be16_def be16_value wf_advance unread_advance)
qed

lemma readBytes_all:
  assumes "wf_packet p" "unread p = bs"
  shows "p_remainingLength p - p_pos p = int (length bs)" "readBytes (int (length bs)) p = (Ok bs, advance p (length bs))"
  using assms length_unread [OF assms(1)] readBytes_spec [OF assms(1), of "length bs"] by simp_all

subsection \<open>Publications\<close>

definition publish_request :: "mqttPacket \<Rightarrow> byte \<Rightarrow> string \<Rightarrow> 16 word \<Rightarrow> bytes \<Rightarrow> bool" where
  "publish_request pk qos topic pid payload \<longleftrightarrow> wf_packet pk \<and> p_command pk = PUBLISH OR push_bit 1 qos \<and>
     length topic < 2 ^ 16 \<and> unread pk = wire_string topic @ (if qos > 0 then be16 pid else []) @ payload"

lemma publish_payload_spec:
  assumes "wf_packet pk" "unread pk = payload" "int (length payload) \<le> d_limit d"
    "authorize (s_authctx (nd_s n)) topic AclWrite (nd_auth n) = Ok ()" "command AND 1 = 0"
    "drop_bit 1 (command AND 0x06) = qos" "qos = 0 \<or> qos = 1"
  shows "publish_payload d command topic pid pk n =
    (let n' = notifyEvent (publish_event (nd_s n) topic qos False payload) n in
     if qos = 0 then (Ok (), n') else sendPubAck d pid n')"
  using assms readBytes_all [OF assms(1,2)]
  by (cases "payload = []") (auto simp: publish_payload_def Let_def readM_def)

lemma handlePublish_spec:
  assumes "publish_request pk qos topic pid payload" "qos = 0 \<or> qos = 1" "int (length payload) \<le> d_limit d"
    "authorize (s_authctx (nd_s n)) (s_mountpoint (nd_s n) @ topic) AclWrite (nd_auth n) = Ok ()"
  shows "handlePublish d pk n =
    (let n' = notifyEvent (publish_event (nd_s n) (s_mountpoint (nd_s n) @ topic) qos False payload) n in
     if qos = 0 then (Ok (), n') else sendPubAck d pid n')"
proof -
  have wf: "wf_packet pk" "unread pk = wire_string topic @ (if qos > 0 then be16 pid else []) @ payload"
      "length topic < 2 ^ 16" and c: "p_command pk = PUBLISH OR push_bit 1 qos"
    using assms(1) by (simp_all add: publish_request_def)
  note s = readString_wire [OF wf]
  have q: "p_command pk AND 1 = 0" "drop_bit 1 (p_command pk AND 0x06) = qos"
    using assms(2) c by auto
  show ?thesis
  proof (cases "qos = 0")
    case True
    with s(3) have u: "unread (advance pk (2 + length topic)) = payload" by simp
    from publish_payload_spec [OF s(2) u assms(3,4) q assms(2)] True q s(1) show ?thesis
      by (simp add: handlePublish_def Let_def readM_def)
  next
    case False
    then have "qos > 0" using assms(2) by simp
    with s(3) have "unread (advance pk (2 + length topic)) = be16 pid @ payload" by simp
    note i = readUint16_be16 [OF s(2) this]
    from publish_payload_spec [OF i(2,3) assms(3,4) q assms(2)] False assms(2) q s(1) i(1) show ?thesis
      by (auto simp: handlePublish_def Let_def readM_def)
  qed
qed

lemma handlePublish_wire:
  fixes n :: "('db, 'r, 'c) node"
  assumes "publish_request pk qos topic pid payload" "qos = 0 \<or> qos = 1" "int (length payload) \<le> d_limit d"
    "authorize (s_authctx (nd_s n)) (s_mountpoint (nd_s n) @ topic) AclWrite (nd_auth n) = Ok ()"
    "reliable (d_net d) out" "s_connOpen (nd_s n)"
  shows "\<exists>t. handlePublish d pk n = (Ok (), t) \<and> nd_sm t = nd_sm n \<and>
    nd_events t = nd_events n @ [SetBrokerId (sm_self (nd_sm n))
      (publish_event (nd_s n) (s_mountpoint (nd_s n) @ topic) qos False payload)] \<and>
    out (s_conn (nd_s t)) = out (s_conn (nd_s n)) @
      (if qos = 1 then [PUBACK, 2, ucast (drop_bit 8 pid), ucast pid] else [])"
proof -
  let ?n = "notifyEvent (publish_event (nd_s n) (s_mountpoint (nd_s n) @ topic) qos False payload) n"
  have "s_connOpen (nd_s ?n)" using assms(6) by simp
  from putsD [OF puts_short(3) [OF assms(5), of PUBACK pid] this] handlePublish_spec [OF assms(1-4)] assms(2)
  show ?thesis by (auto simp: Let_def sendPubAck_def)
qed


definition sample_publish_packet :: mqttPacket where
  "sample_publish_packet = newMqttPacket\<lparr>p_command := 0x32, p_remainingLength := 6, p_payload := slice_of [0, 1, 116, 0x12, 0x34, 9]\<rparr>"

lemma sample_publish_request: "publish_request sample_publish_packet 1 ''t'' 0x1234 [9]"
  by (simp add: publish_request_def sample_publish_packet_def newMqttPacket_def wf_packet_def unread_def slice_of_def
      slice_wf_def slice_view_def wire_string_def be16_def bytes_of_string_def)


subsection \<open>Subscriptions\<close>

definition wire_requests :: "(string \<times> byte) list \<Rightarrow> bytes" where
  "wire_requests reqs = concat (map (\<lambda>(topic, qos). wire_string topic @ [qos]) reqs)"

definition subscribe_request :: "mqttPacket \<Rightarrow> 16 word \<Rightarrow> (string \<times> byte) list \<Rightarrow> bool" where
  "subscribe_request pk pid reqs \<longleftrightarrow> wf_packet pk \<and> p_command pk = SUBSCRIBE OR 2 \<and> unread pk = be16 pid @ wire_requests reqs \<and>
     list_all (\<lambda>(topic, qos). length topic < 2 ^ 16 \<and> qos \<le> 2) reqs"

lemma subscribe_loop_spec:
  assumes "wf_packet pk" "unread pk = wire_requests reqs" "list_all (\<lambda>(topic, qos). length topic < 2 ^ 16 \<and> qos \<le> 2) reqs"
  shows "subscribe_loop pk acc n = (Ok (acc @ map snd reqs),
    foldl (\<lambda>n (topic, qos). notifyEvent (subscribe_event (s_clientID (nd_s n)) (s_mountpoint (nd_s n) @ topic) qos) n) n reqs)"
  using assms
proof (induction reqs arbitrary: pk acc n)
  case Nil
  then have "\<not> p_pos pk < p_remainingLength pk"
    using length_unread [of pk] by (simp add: wire_requests_def)
  then show ?case by (subst subscribe_loop.simps) simp
next
  case (Cons r reqs)
  obtain topic qos where r: "r = (topic, qos)" by fastforce
  have q: "qos \<le> 2" "length topic < 2 ^ 16" using Cons.prems(3) r by simp_all
  then have q': "\<not> 2 < qos" "qos \<noteq> 0x80" by auto
  have u: "unread pk = wire_string topic @ qos # wire_requests reqs"
    using Cons.prems(2) r by (simp add: wire_requests_def)
  note s = readString_wire [OF Cons.prems(1) u q(2)]
  have b: "readByte (advance pk (2 + length topic)) = (Ok qos, advance pk (3 + length topic))"
    using readByte_spec [OF s(2)] s(3) by (simp add: numeral_3_eq_3)
  have u2: "unread (advance pk (3 + length topic)) = wire_requests reqs" and wf2: "wf_packet (advance pk (3 + length topic))"
    using unread_advance [of "advance pk (2 + length topic)" 1] wf_advance [OF s(2), of 1] s(3) wf_pos [OF s(2)]
    by (simp_all add: numeral_3_eq_3)
  have "length (unread pk) > 0" using u by (simp add: wire_string_def be16_def)
  then have less: "p_pos pk < p_remainingLength pk" using length_unread [OF Cons.prems(1)] by linarith
  from Cons.IH [OF wf2 u2] Cons.prems(3) less s(1) b q' r show ?case
    by (subst subscribe_loop.simps) simp
qed

lemma subscribe_events:
  fixes n :: "('db, 'r, 'c) node"
  defines "run \<equiv> foldl (\<lambda>(n :: ('db, 'r, 'c) node) (topic, qos). notifyEvent (subscribe_event (s_clientID (nd_s n)) (s_mountpoint (nd_s n) @ topic) qos) n)"
  shows "nd_s (run n reqs) = nd_s n" "nd_sm (run n reqs) = nd_sm n"
    "nd_events (run n reqs) = nd_events n @
       map (\<lambda>(topic, qos). SetBrokerId (sm_self (nd_sm n)) (subscribe_event (s_clientID (nd_s n)) (s_mountpoint (nd_s n) @ topic) qos)) reqs"
  unfolding run_def by (induction reqs arbitrary: n) (auto split: prod.splits)

lemma handleSubscribe_spec:
  fixes n :: "('db, 'r, 'c) node"
  assumes "subscribe_request pk pid reqs" "reqs \<noteq> []" "int (length reqs) + 2 \<le> MQTT_MAX_PAYLOAD"
    "reliable (d_net d) out" "s_connOpen (nd_s n)"
  shows "\<exists>t c'. handleSubscribe d pk n = (Ok (), t) \<and> nd_s t = (nd_s n)\<lparr>s_conn := c'\<rparr> \<and> nd_sm t = nd_sm n \<and>
    nd_events t = nd_events n @ map (\<lambda>(topic, qos). SetBrokerId (sm_self (nd_sm n))
      (subscribe_event (s_clientID (nd_s n)) (s_mountpoint (nd_s n) @ topic) qos)) reqs \<and>
    out c' = out (s_conn (nd_s n)) @ SUBACK # remaining_bytes (2 + int (length reqs)) 0 @ nibbles pid @ map snd reqs"
proof -
  have pk: "wf_packet pk" "unread pk = be16 pid @ wire_requests reqs" "p_command pk AND 0x0F = 2"
      "list_all (\<lambda>(topic, qos). length topic < 2 ^ 16 \<and> qos \<le> 2) reqs"
    using assms(1) by (simp_all add: subscribe_request_def)
  note u = readUint16_be16 [OF pk(1,2)]
  let ?n = "foldl (\<lambda>n (topic, qos). notifyEvent (subscribe_event (s_clientID (nd_s n)) (s_mountpoint (nd_s n) @ topic) qos) n) n reqs"
  have len: "2 + int (length (map snd reqs)) \<le> MQTT_MAX_PAYLOAD" using assms(3) by simp
  have "s_connOpen (nd_s ?n)" using assms(5) by (simp add: subscribe_events)
  from putsD [OF puts_short(4) [OF assms(4) len, of pid] this] obtain c' where
    "sendSubAck d pid (map snd reqs) ?n = (Ok (), updS (\<lambda>p. p\<lparr>s_conn := c'\<rparr>) ?n)"
    "out c' = out (s_conn (nd_s n)) @ SUBACK # remaining_bytes (2 + int (length reqs)) 0 @ nibbles pid @ map snd reqs"
    by (auto simp: subscribe_events)
  moreover have "handleSubscribe d pk n = sendSubAck d pid (map snd reqs) ?n"
    using pk(3) u(1) subscribe_loop_spec [OF u(2,3) pk(4), where acc = "[]" and n = n] assms(2)
    by (simp add: handleSubscribe_def readM_def seqM_def)
  ultimately show ?thesis by (auto simp: subscribe_events)
qed

text \<open>C16. A well-formed SUBSCRIBE packet raises one subscription event per requested filter, in the
  order of the packet, and is answered with a SUBACK that grants every requested quality of
  service, one return code per filter.\<close>

theorem subscribe_notifies_and_grants:
  assumes "subscribe_request pk pid reqs" "reqs \<noteq> []" "int (length reqs) + 2 \<le> MQTT_MAX_PAYLOAD"
    "reliable (d_net d) out" "s_connOpen (nd_s n)"
  shows "\<exists>t. handleSubscribe d pk n = (Ok (), t) \<and>
    nd_events t = nd_events n @ map (\<lambda>(topic, qos). SetBrokerId (sm_self (nd_sm n))
      (subscribe_event (s_clientID (nd_s n)) (s_mountpoint (nd_s n) @ topic) qos)) reqs \<and>
    out (s_conn (nd_s t)) = out (s_conn (nd_s n)) @
      SUBACK # remaining_bytes (2 + int (length reqs)) 0 @ nibbles pid @ map snd reqs"
  using handleSubscribe_spec [OF assms] by auto

definition sample_subscribe_packet :: mqttPacket where
  "sample_subscribe_packet = newMqttPacket\<lparr>p_command := 0x82, p_remainingLength := 6, p_payload := slice_of [0, 5, 0, 1, 116, 1]\<rparr>"

lemma sample_subscribe_request: "subscribe_request sample_subscribe_packet 5 [(''t'', 1)]"
  by (simp add: subscribe_request_def sample_subscribe_packet_def newMqttPacket_def wf_packet_def unread_def slice_of_def
      slice_wf_def slice_view_def wire_string_def be16_def bytes_of_string_def wire_requests_def)

theorem subscribe_notifies_and_grants_witness:
  "\<exists>t. handleSubscribe (sample_deps list_net) sample_subscribe_packet (sample_node sample_manager) = (Ok (), t) \<and>
    s_conn (nd_s t) = [0x90, 3, 0, 5, 1] \<and> length (nd_events t) = 1"
  using subscribe_notifies_and_grants [OF sample_subscribe_request, where d = "sample_deps list_net"
      and n = "sample_node sample_manager" and out = "\<lambda>c. c"] list_net_reliable
  by (auto simp: sample_deps_def sample_node_def newMqttSession_def newMetric_def Let_def remaining_bytes_one nibbles_def)

subsection \<open>Acknowledgements\<close>

definition puback_packet :: "16 word \<Rightarrow> mqttPacket" where
  "puback_packet pid = newMqttPacket\<lparr>p_command := PUBACK, p_remainingLength := 2, p_payload := slice_of (be16 pid)\<rparr>"

lemma puback_reads: "readUint16 (puback_packet pid) = (Ok pid, advance (puback_packet pid) 2)"
  by (rule readUint16_be16 [where rest = "[]"])
     (simp_all add: puback_packet_def newMqttPacket_def wf_packet_def unread_def be16_def slice_of_def slice_wf_def slice_view_def)

lemma handlePubAck_spec:
  assumes "s_queue (nd_s n) = Some r" "ready r n"
  shows "\<exists>t. handlePubAck (puback_packet pid) n = (Ok (), t) \<and> nd_s t = nd_s n \<and>
    waiting r t = remove_first (\<lambda>m. m_PacketId m = pid) (waiting r n)"
proof -
  let ?q = "q_at (node_queues n) r"
  have l: "tl_inv (q_list ?q)" and r: "r < length (qs_heap (node_queues n))"
    using assms(2) by (auto simp: ready_def tq_inv_def)
  define l' where "l' = snd (tl_Remove pid (q_list ?q))"
  have "tl_Remove pid (q_list ?q) = (Ok (), l')" "tl_msgs l' = remove_first (\<lambda>m. m_PacketId m = pid) (tl_msgs (q_list ?q))"
    using tl_Remove_spec [OF l, of pid] by (auto simp: l'_def prod_eq_iff)
  moreover have "p_remainingLength (puback_packet pid) = 2" by (simp add: puback_packet_def)
  ultimately show ?thesis
    using assms(1) r puback_reads [of pid]
    by (simp add: handlePubAck_def readM_def on_list_def Let_def on_q_def on_queues_def waiting_def)
qed

text \<open>An acknowledgement does not find the message it is for: the packet identifier a message
  is sent with is not stored in it, so after the queued messages of a session are delivered a
  PUBACK with any identifier but 0 removes none of the messages that wait, and they are sent again.\<close>

theorem acknowledgement_lost:
  assumes "reliable (d_net d) out" "s_queue (nd_s n) = Some r" "ready r n" "waiting r n = []"
    "list_all (\<lambda>m. publish_fits m \<and> m_PacketId m = 0) (tq_elems r (node_queues n))"
    "length (tq_elems r (node_queues n)) \<le> d_fuel d" "pid \<noteq> 0"
  shows "\<exists>t u. handleDataAvailableNotification d availableQueue n = (Ok (), t) \<and>
    handlePubAck (puback_packet pid) t = (Ok (), u) \<and> waiting r u = to_acknowledge (tq_elems r (node_queues n))"
proof -
  have "list_all publish_fits (tq_elems r (node_queues n))" using assms(5) by (auto simp: list_all_iff)
  from drain_spec [OF assms(1,3) refl this assms(6)] obtain t where
    t: "drain d r (d_fuel d) n = (Ok (), t)" "ready r t" "waiting r t = to_acknowledge (tq_elems r (node_queues n))"
    using assms(4) by auto
  have "core (nd_s t) = core (nd_s n)" using quiet_run [where m = "drain d r (d_fuel d)", OF _ t(1)] by simp
  then have "s_queue (nd_s t) = Some r" using assms(2) by (simp add: core_def)
  from handlePubAck_spec [OF this t(2), of pid] obtain u where
    u: "handlePubAck (puback_packet pid) t = (Ok (), u)" "waiting r u = remove_first (\<lambda>m. m_PacketId m = pid) (waiting r t)"
    by blast
  have "list_all (\<lambda>m. m_PacketId m = 0) (waiting r t)"
    using assms(5) by (auto simp: t(3) to_acknowledge_def list_all_iff)
  then have "remove_first (\<lambda>m. m_PacketId m = pid) (waiting r t) = waiting r t"
    using assms(7) by (intro remove_first_none) (auto simp: list_all_iff)
  with u t available_queue [OF assms(2)] show ?thesis by auto
qed

theorem acknowledgement_lost_witness:
  "\<exists>t u. handleDataAvailableNotification (sample_deps list_net) availableQueue
       (sample_node (filled_manager [sample_message 1, sample_message 1])) = (Ok (), t) \<and>
    handlePubAck (puback_packet 1) t = (Ok (), u) \<and>
    waiting 0 u = to_acknowledge [sample_message 1, sample_message 1]"
proof -
  let ?n = "sample_node (filled_manager [sample_message 1, sample_message 1])"
  have n: "s_queue (nd_s ?n) = Some 0"
    by (simp add: sample_node_def newMqttSession_def newMetric_def Let_def)
  have e: "tq_elems 0 (node_queues ?n) = [sample_message 1, sample_message 1]"
    by (simp add: sample_node_def filled_manager_facts)
  show ?thesis
    using acknowledgement_lost [where d = "sample_deps list_net" and out = "\<lambda>c. c" and n = ?n and pid = 1,
        OF _ n sample_node_ready, unfolded e] list_net_reliable
    by (simp add: sample_deps_def publish_fits_def publish_length_def sample_message_def)
qed

subsection \<open>No panic\<close>

text \<open>
  A connection whose writes take everything, take nothing, or fail. A write that takes a part
  without an error is what \<^verbatim>\<open>net.Conn\<close> rules out.
\<close>

definition whole_writes :: "'c net \<Rightarrow> bool" where
  "whole_writes net \<longleftrightarrow> (\<forall>b c. case nc_write net b c of ((len, failed), c') \<Rightarrow> failed \<or> len \<le> 0 \<or> len = int (length b))"

lemma write_loop_conn_whole:
  assumes "whole_writes net"
  shows "fst (write_loop_conn net (slice_of bs) 0 (int (length bs)) c) \<noteq> Panic"
proof -
  obtain len failed c' where w: "nc_write net bs c = ((len, failed), c')" by (metis surj_pair)
  then have "failed \<or> len \<le> 0 \<or> len = int (length bs)"
    using assms [unfolded whole_writes_def, rule_format, of bs c] by simp
  moreover have "slice_sub (slice_of bs) 0 (int (length bs)) = Some (slice_of bs)"
    by (simp add: slice_sub_def slice_of_def)
  ultimately show ?thesis
    using w by (subst write_loop_conn.simps) (auto simp: write_loop_conn.simps [of _ _ _ 0])
qed

lemma sendBuilt_whole:
  assumes "whole_writes (d_net d)" "builds build pk bs" "s_connOpen (nd_s n)"
  shows "fst (sendBuilt d build pk n) \<noteq> Panic"
  using assms write_loop_conn_whole [OF assms(1), of bs "s_conn (nd_s n)"]
  by (auto simp: builds_def sendBuilt_def writePacket_def split: prod.splits)

lemma sends_whole:
  assumes "whole_writes (d_net d)" "s_connOpen (nd_s n)"
  shows "fst (sendSimpleCommand d cmd n) \<noteq> Panic" "fst (sendCommandWithPacketID d cmd pid dup n) \<noteq> Panic"
    "2 + int (length payload) \<le> MQTT_MAX_PAYLOAD \<Longrightarrow> fst (sendSubAck d pid payload n) \<noteq> Panic"
  unfolding sendSimpleCommand_def sendCommandWithPacketID_def sendSubAck_def
  using sendBuilt_whole [OF assms(1) _ assms(2)] builds_simple builds_two builds_suback by blast+

definition calm :: "('s, 'e, 'a) go \<Rightarrow> 's \<Rightarrow> bool" where
  "calm m n \<longleftrightarrow> fst (m n) \<noteq> Panic"

lemma calm_basic [simp]: "calm (errM e) n" "calm (retM a) n"
  by (simp_all add: calm_def)

lemma readM_calm:
  assumes "payload_reader r" "wf_packet pk" "\<And>e. calm (h e) n"
    "\<And>a j. j \<le> length (unread pk) \<Longrightarrow> r pk = (Ok a, advance pk j) \<Longrightarrow> wf_packet (advance pk j) \<Longrightarrow> calm (k a (advance pk j)) n"
  shows "calm (readM r pk h k) n"
proof -
  obtain j where j: "j \<le> length (unread pk)" "snd (r pk) = advance pk j"
    using payload_reader.moves [OF assms(1,2)] by blast
  have "wf_packet (advance pk j)" using j(1) assms(2) by (simp add: wf_advance)
  with j payload_reader.safe [OF assms(1,2)] assms(3,4) show ?thesis
    by (cases "r pk"; cases "fst (r pk)") (auto simp: readM_def calm_def)
qed

lemma subscribe_loop_calm:
  "wf_packet pk \<Longrightarrow> fst (subscribe_loop pk acc n) \<noteq> Panic \<and>
    (\<forall>payload t. subscribe_loop pk acc n = (Ok payload, t) \<longrightarrow> int (length payload) \<le> int (length acc) + int (length (unread pk)))"
proof (induction pk acc n rule: subscribe_loop.induct)
  case (1 pk acc n)
  show ?case
  proof (cases "p_pos pk < p_remainingLength pk")
    case True
    obtain j r where j: "readString pk = (r, advance pk j)" "j \<le> length (unread pk)"
      using rd_string.moves [OF 1(2)] by (metis surjective_pairing)
    have wf: "wf_packet (advance pk j)" using 1(2) j(2) by (simp add: wf_advance)
    show ?thesis
    proof (cases r)
      case (Ok topic)
      obtain i q where i: "readByte (advance pk j) = (q, advance pk (j + i))" "i \<le> length (unread (advance pk j))"
        using rd_byte.moves [OF wf] by (metis surjective_pairing advance_simps(5))
      have wf2: "wf_packet (advance pk (j + i))" using wf_advance [OF wf i(2)] by simp
      show ?thesis
      proof (cases q)
        case (Ok qos)
        have "p_pos (advance pk (j + i)) = p_pos (advance pk j) + 1"
          using i(1) Ok readByte_moves [of "advance pk j" qos "advance pk (j + i)"] by simp
        then have "i = 1" by simp
        then have len: "length (unread (advance pk (j + i))) + 1 \<le> length (unread pk)"
          using i(2) j(2) wf_pos [OF 1(2)] by (simp add: unread_advance)
        show ?thesis
        proof (cases "qos > 2")
          case True
          with \<open>r = Ok topic\<close> Ok j i \<open>p_pos pk < _\<close> show ?thesis by (simp add: subscribe_loop.simps [of pk])
        next
          case False
          let ?n = "if qos \<noteq> 0x80 then notifyEvent (subscribe_event (s_clientID (nd_s n)) (s_mountpoint (nd_s n) @ topic) qos) n else n"
          have eq: "subscribe_loop pk acc n = subscribe_loop (advance pk (j + i)) (acc @ [qos]) ?n"
            using False \<open>r = Ok topic\<close> Ok j i \<open>p_pos pk < _\<close> by (simp add: subscribe_loop.simps [of pk])
          note IH = 1(1) [OF \<open>p_pos pk < _\<close> j(1) [symmetric] \<open>r = Ok topic\<close> i(1) [symmetric] Ok False wf2, folded eq]
          have "int (length (acc @ [qos])) + int (length (unread (advance pk (j + i)))) \<le> int (length acc) + int (length (unread pk))"
            using len by simp
          with IH show ?thesis by (meson order_trans)
        qed
      qed (use \<open>r = Ok topic\<close> j i True rd_byte.safe [OF wf] in \<open>auto simp: subscribe_loop.simps [of pk]\<close>)
    qed (use j True rd_string.safe [OF 1(2)] in \<open>auto simp: subscribe_loop.simps [of pk]\<close>)
  qed (simp add: subscribe_loop.simps)
qed

lemma unsubscribe_loop_calm: "wf_packet pk \<Longrightarrow> fst (unsubscribe_loop pk n) \<noteq> Panic"
proof (induction pk n rule: unsubscribe_loop.induct)
  case (1 pk n)
  show ?case
  proof (cases "p_pos pk < p_remainingLength pk")
    case True
    obtain j r where j: "readString pk = (r, advance pk j)" "j \<le> length (unread pk)"
      using rd_string.moves [OF 1(2)] by (metis surjective_pairing)
    have wf: "wf_packet (advance pk j)" using 1(2) j(2) by (simp add: wf_advance)
    show ?thesis
      using 1(1) [OF True j(1) [symmetric]] wf j True rd_string.safe [OF 1(2)]
      by (cases r) (auto simp: unsubscribe_loop.simps [of pk])
  qed (simp add: unsubscribe_loop.simps)
qed

lemma publish_payload_calm:
  assumes "whole_writes (d_net d)" "s_connOpen (nd_s n)" "wf_packet pk"
  shows "fst (publish_payload d command topic pid pk n) \<noteq> Panic"
proof -
  let ?k = "p_remainingLength pk - p_pos pk"
  have k: "?k = int (length (unread pk))" using length_unread [OF assms(3)] by simp
  have "fst (sendPubAck d pid (notifyEvent e n)) \<noteq> Panic" for e
    using sends_whole(2) [OF assms(1)] assms(2) by (simp add: sendPubAck_def)
  then show ?thesis
    using readBytes_all [OF assms(3) refl] by (simp add: publish_payload_def Let_def k readM_def)
qed

lemma handlePublish_calm:
  assumes "whole_writes (d_net d)" "s_connOpen (nd_s n)" "wf_packet pk"
  shows "calm (handlePublish d pk) n"
proof -
  have payload: "calm (publish_payload d command topic pid pk') n" if "wf_packet pk'" for command topic pid pk'
    using publish_payload_calm [OF assms(1,2) that] by (simp add: calm_def)
  have id: "calm (readM readUint16 pk' (\<lambda>e. errM (MPacket e)) (\<lambda>pid pk2. publish_payload d command topic pid pk2)) n"
    if "wf_packet pk'" for command topic pk'
    by (rule readM_calm [OF rd_uint16.payload_reader_axioms that]) (simp_all add: payload)
  have "calm (readM readString pk (\<lambda>_. errM MBadTopic) (\<lambda>topic pk1 n.
        if drop_bit 1 (p_command pk AND 0x06) > 0
        then readM readUint16 pk1 (\<lambda>e. errM (MPacket e))
               (\<lambda>pid pk2. publish_payload d (p_command pk) (s_mountpoint (nd_s n) @ topic) pid pk2) n
        else publish_payload d (p_command pk) (s_mountpoint (nd_s n) @ topic) 0 pk1 n)) n"
    by (rule readM_calm [OF rd_string.payload_reader_axioms assms(3)])
       (use payload id in \<open>simp_all add: calm_def\<close>)
  then show ?thesis by (simp add: handlePublish_def Let_def calm_def)
qed

lemma handleSubscribe_calm:
  assumes "whole_writes (d_net d)" "s_connOpen (nd_s n)" "wf_packet pk" "p_remainingLength pk \<le> MQTT_MAX_PAYLOAD" "p_pos pk = 0"
  shows "calm (handleSubscribe d pk) n"
proof -
  have loop: "calm (seqM (subscribe_loop (advance pk j) []) (\<lambda>payload n.
          if s_protocol (nd_s n) = mqttProtocol311 \<and> payload = [] then (Err mqttErrorInvalidProtocol, n)
          else sendSubAck d pid payload n)) n"
    if j: "j \<le> length (unread pk)" "readUint16 pk = (Ok pid, advance pk j)" "wf_packet (advance pk j)" for j pid
  proof -
    have "p_pos (advance pk j) = p_pos pk + 2" using readUint16_moves [OF j(2)] by simp
    then have u: "length (unread (advance pk j)) + 2 = length (unread pk)"
      using j(1) wf_pos [OF assms(3)] by (simp add: unread_advance)
    obtain r t where r: "subscribe_loop (advance pk j) [] n = (r, t)" by fastforce
    note calm = subscribe_loop_calm [OF j(3), of "[]" n, unfolded r]
    have open_t: "s_connOpen (nd_s t)"
      using core_subscribe_loop [of "advance pk j" "[]" n] r assms(2) by (simp add: core_def)
    show ?thesis
    proof (cases r)
      case (Ok payload)
      then have "2 + int (length payload) \<le> MQTT_MAX_PAYLOAD"
        using calm u length_unread [OF assms(3)] assms(4,5) by simp
      from sends_whole(3) [OF assms(1) open_t this] r Ok show ?thesis by (simp add: seqM_def calm_def)
    qed (use r calm in \<open>simp_all add: seqM_def calm_def\<close>)
  qed
  have "calm (readM readUint16 pk (\<lambda>e. errM (MPacket e)) (\<lambda>pid pk1. seqM (subscribe_loop pk1 []) (\<lambda>payload n.
          if s_protocol (nd_s n) = mqttProtocol311 \<and> payload = [] then (Err mqttErrorInvalidProtocol, n)
          else sendSubAck d pid payload n))) n"
    by (rule readM_calm [OF rd_uint16.payload_reader_axioms assms(3) calm_basic(1)]) (rule loop)
  then show ?thesis by (simp add: handleSubscribe_def calm_def)
qed

lemma handleUnsubscribe_calm:
  assumes "whole_writes (d_net d)" "s_connOpen (nd_s n)" "wf_packet pk"
  shows "calm (handleUnsubscribe d pk) n"
proof -
  have loop: "calm (thenM (unsubscribe_loop (advance pk j)) (sendCommandWithPacketID d UNSUBACK pid False)) n"
    if "wf_packet (advance pk j)" for j pid
  proof -
    obtain r t where r: "unsubscribe_loop (advance pk j) n = (r, t)" by fastforce
    have "s_connOpen (nd_s t)"
      using core_unsubscribe_loop [of "advance pk j" n] r assms(2) by (simp add: core_def)
    from sends_whole(2) [OF assms(1) this] r unsubscribe_loop_calm [OF that, of n] show ?thesis
      by (cases r) (simp_all add: thenM_def seqM_def calm_def)
  qed
  have "calm (readM readUint16 pk (\<lambda>e. errM (MPacket e)) (\<lambda>pid pk1.
      thenM (unsubscribe_loop pk1) (sendCommandWithPacketID d UNSUBACK pid False))) n"
    by (rule readM_calm [OF rd_uint16.payload_reader_axioms assms(3) calm_basic(1)]) (rule loop)
  then show ?thesis by (simp add: handleUnsubscribe_def calm_def)
qed

lemma handlePubRel_calm:
  assumes "whole_writes (d_net d)" "s_connOpen (nd_s n)" "wf_packet pk"
  shows "calm (handlePubRel d pk) n"
proof -
  have "calm (readM readUint16 pk (\<lambda>e. errM (MPacket e)) (\<lambda>pid _. sendPubComp d pid)) n"
    by (rule readM_calm [OF rd_uint16.payload_reader_axioms assms(3) calm_basic(1)])
       (use sends_whole(2) [OF assms(1,2)] in \<open>simp add: calm_def sendPubComp_def\<close>)
  then show ?thesis by (simp add: handlePubRel_def calm_def)
qed

lemma handlePubAck_calm:
  assumes "s_queue (nd_s n) = Some r" "tl_inv (q_list (q_at (node_queues n) r))" "wf_packet pk"
  shows "calm (handlePubAck pk) n"
proof -
  have remove: "fst (on_list r (tl_Remove pid) n) \<noteq> Panic" for pid
    using tl_Remove_spec(1) [OF assms(2), of pid]
    by (cases "tl_Remove pid (q_list (q_at (node_queues n) r))") (simp add: on_list_def Let_def)
  have "calm (readM readUint16 pk (\<lambda>e. errM (MPacket e)) (\<lambda>pid _ n.
        case s_queue (nd_s n) of None \<Rightarrow> (Panic, n) | Some r \<Rightarrow> on_list r (tl_Remove pid) n)) n"
    by (rule readM_calm [OF rd_uint16.payload_reader_axioms assms(3) calm_basic(1)])
       (use assms(1) remove in \<open>simp add: calm_def\<close>)
  then show ?thesis by (simp add: handlePubAck_def calm_def)
qed

text \<open>C8. A connected session does not panic on any well-formed packet, whatever its command and
  its contents, as long as the connection does not take parts of a write and the list of the
  unacknowledged messages of the session is sound.\<close>

theorem connected_session_never_panics:
  assumes "session_wf (nd_s n)" "s_sessionState (nd_s n) = mqttStateConnected" "s_queue (nd_s n) = Some r"
    "tl_inv (q_list (q_at (node_queues n) r))" "whole_writes (d_net d)"
    "wf_packet pk" "p_pos pk = 0" "p_remainingLength pk \<le> MQTT_MAX_PAYLOAD"
  shows "fst (handleMqttPacket d pk n) \<noteq> Panic"
proof -
  let ?m = "updatePacketMetrics pk n"
  have sm: "nd_sm ?m = nd_sm n" by (simp add: updatePacketMetrics_def split: option.splits)
  have m: "s_connOpen (nd_s ?m)" "s_queue (nd_s ?m) = Some r" "tl_inv (q_list (q_at (node_queues ?m) r))"
    using assms(1-4) by (simp_all add: session_wf_def sm)
  have "fst (handleConnect d pk ?m) \<noteq> Panic"
    using assms(2) by (simp add: handleConnect_def checkSessionState_def thenM_def seqM_def)
  moreover have "fst (handleDisconnect d pk ?m) \<noteq> Panic"
    using assms(1,2) by (simp add: handleDisconnect_def disconnect_def Let_def setSessionState_def session_wf_def)
  moreover have "fst (handlePingReq d ?m) \<noteq> Panic"
    using sends_whole(1) [OF assms(5) m(1)] by (simp add: handlePingReq_def sendPingRsp_def)
  ultimately show ?thesis
    unfolding handleMqttPacket_def Let_def
    using handlePublish_calm [OF assms(5) m(1) assms(6)] handleSubscribe_calm [OF assms(5) m(1) assms(6,8,7)]
      handleUnsubscribe_calm [OF assms(5) m(1) assms(6)] handlePubRel_calm [OF assms(5) m(1) assms(6)]
      handlePubAck_calm [OF m(2,3) assms(6)]
    by (simp add: calm_def)
qed

lemma sample_node_facts:
  "session_wf (nd_s (sample_node m))" "s_sessionState (nd_s (sample_node m)) = mqttStateConnected"
  "s_queue (nd_s (sample_node m)) = Some 0" "nd_sm (sample_node m) = m"
  by (simp_all add: sample_node_def newMqttSession_def newMetric_def Let_def session_wf_def)

theorem connected_session_never_panics_witness:
  "fst (handleMqttPacket (sample_deps broken_net) (puback_packet 7) (sample_node (filled_manager []))) \<noteq> Panic"
proof (rule connected_session_never_panics [OF sample_node_facts(1-3)])
  show "tl_inv (q_list (q_at (node_queues (sample_node (filled_manager []))) 0))"
    using sample_node_ready(1) [of "[]"] by (simp add: ready_def)
  show "whole_writes (d_net (sample_deps broken_net))"
    by (simp add: whole_writes_def sample_deps_def broken_net_def)
qed (simp_all add: puback_packet_def newMqttPacket_def wf_packet_def be16_def slice_of_def slice_wf_def)

text \<open>A PUBACK sent before CONNECT takes the broker down: a new session has no queue, and the
  handler of any PUBACK packet panics on it.\<close>

theorem puback_before_connect_panics:
  assumes "nd_s n = fst (newMqttSession ref auth conn ms)"
  shows "fst (Handle_turn d (Packet (puback_packet pid)) n) = Panic"
  using assms puback_reads [of pid]
  by (simp add: Handle_turn_def handleMqttPacket_def Let_def newMqttSession_def handlePubAck_def puback_packet_def readM_def
      split: prod.splits)

theorem puback_before_connect_panics_witness:
  "fst (Handle_turn (sample_deps list_net) (Packet (puback_packet 1))
     ((sample_node sample_manager)\<lparr>nd_s := fst (newMqttSession 5 None [] newMetricService)\<rparr>)) = Panic"
  by (rule puback_before_connect_panics) simp

subsection \<open>The life of a session and authentication\<close>

text \<open>C10. Whatever packets, notifications and failures a session of a new connection gets, unless
  its handler panics it stays well formed (new, connected with a queue, or disconnected, with the
  connection and the channels open exactly while it is not disconnected), its loop ends with the
  connection closed when it ends with an error, and it goes on waiting only while the connection
  is open.\<close>

theorem session_life_cycle:
  assumes "nd_s n = fst (newMqttSession ref auth conn ms)" "Handle d sts n = (r, t)" "r \<noteq> Panic"
  shows "session_wf (nd_s t) \<and> (\<forall>e. r = Err e \<longrightarrow> e \<noteq> MSpin \<longrightarrow> s_sessionState (nd_s t) = mqttStateDisconnected \<and> \<not> s_connOpen (nd_s t))"
proof -
  have "session_wf (nd_s n)" "s_connOpen (nd_s n)"
    using assms(1) by (simp_all add: newMqttSession_def session_wf_def split: prod.splits)
  then show ?thesis using assms(2,3)
  proof (induction sts arbitrary: n)
    case (Cons st sts)
    obtain r1 n1 where 1: "Handle_turn d st n = (r1, n1)" by fastforce
    show ?case
    proof (cases r1)
      case (Ok b)
      with Handle_turn_cases [OF Cons.prems(1,2) 1] Cons 1 show ?thesis
        by (cases b) (auto simp: seqM_def)
    next
      case (Err e)
      with Handle_turn_cases [OF Cons.prems(1,2) 1] Cons.prems(3) 1 show ?thesis
        by (auto simp: seqM_def session_wf_def)
    qed (use Cons.prems 1 in \<open>auto simp: seqM_def\<close>)
  qed auto
qed

definition new_node :: "bool option \<Rightarrow> (unit, (string \<times> string) list, bytes) node" where
  "new_node auth = (sample_node sample_manager)\<lparr>nd_s := fst (newMqttSession 5 auth [] newMetricService)\<rparr>"

definition ping_packet :: mqttPacket where
  "ping_packet = newMqttPacket\<lparr>p_command := PINGREQ\<rparr>"

lemma new_node_ping:
  "\<exists>t. Handle_turn (sample_deps list_net) (Packet ping_packet) (new_node auth) = (Ok True, t) \<and>
    session_wf (nd_s t) \<and> s_connOpen (nd_s t)"
proof -
  let ?m = "updatePacketMetrics ping_packet (new_node auth)"
  have n: "nd_s (new_node auth) = fst (newMqttSession 5 auth [] newMetricService)" by (simp add: new_node_def)
  have m: "s_connOpen (nd_s ?m)" "s_sessionState (nd_s ?m) = mqttStateNew"
      "session_wf (nd_s (new_node auth))" "s_connOpen (nd_s (new_node auth))"
    by (simp_all add: n newMqttSession_def newMetric_def Let_def session_wf_def)
  have "reliable (d_net (sample_deps list_net)) (\<lambda>c. c)" by (simp add: sample_deps_def list_net_reliable)
  from putsD [OF puts_short(1) [OF this] m(1)] obtain c' where
    "sendSimpleCommand (sample_deps list_net) PINGRESP ?m = (Ok (), updS (\<lambda>p. p\<lparr>s_conn := c'\<rparr>) ?m)" by blast
  then have run: "Handle_turn (sample_deps list_net) (Packet ping_packet) (new_node auth) = (Ok True, updS (\<lambda>p. p\<lparr>s_conn := c'\<rparr>) ?m)"
    using m by (simp add: Handle_turn_def handleMqttPacket_def Let_def ping_packet_def newMqttPacket_def
        handlePingReq_def sendPingRsp_def)
  from Handle_turn_cases [OF m(3,4) run] run show ?thesis by auto
qed

theorem session_life_cycle_witness:
  "\<exists>t. Handle (sample_deps list_net) [Packet ping_packet, Failure (MTimeout [])] (new_node None) = (Err (MTimeout []), t) \<and>
    session_wf (nd_s t) \<and> \<not> s_connOpen (nd_s t)"
proof -
  obtain n where n: "Handle_turn (sample_deps list_net) (Packet ping_packet) (new_node None) = (Ok True, n)"
      "session_wf (nd_s n)" "s_connOpen (nd_s n)"
    using new_node_ping by blast
  obtain t where "disconnect (sample_deps list_net) True n = (Ok (), t)" using disconnect_ends [OF n(2)] by blast
  with n(1) have run: "Handle (sample_deps list_net) [Packet ping_packet, Failure (MTimeout [])] (new_node None) = (Err (MTimeout []), t)"
    by (simp add: seqM_def Handle_turn_def thenM_def)
  have "nd_s (new_node None) = fst (newMqttSession 5 None [] newMetricService)" by (simp add: new_node_def)
  from session_life_cycle [OF this run] run show ?thesis by simp
qed

text \<open>C11. With authentication switched on, as it is without a configured value, no client ever gets connected,
  whatever it sends and whatever the registry and the cache hold: the password of the request
  never reaches the check.\<close>

theorem authentication_locks_out:
  assumes "nd_s n = fst (newMqttSession ref auth conn ms)" "auth \<noteq> Some False" "Handle d sts n = (r, t)" "r \<noteq> Panic"
  shows "s_sessionState (nd_s t) \<noteq> mqttStateConnected"
proof -
  have "shut n"
    using assms(1,2) by (auto simp: newMqttSession_def shut_def emptyContext_def split: prod.splits option.splits)
  then have "shut t" using assms(3,4)
  proof (induction sts arbitrary: n)
    case (Cons st sts)
    obtain r1 n1 where 1: "Handle_turn d st n = (r1, n1)" by fastforce
    with Handle_turn_shut [OF Cons.prems(1) 1] Cons show ?case
      by (cases r1) (auto simp: seqM_def split: if_splits)
  qed simp
  then show ?thesis by (simp add: shut_def)
qed

theorem authentication_locks_out_witness:
  "\<exists>t. Handle (sample_deps list_net) [Packet ping_packet] (new_node None) = (Ok (), t) \<and>
    s_sessionState (nd_s t) \<noteq> mqttStateConnected"
proof -
  obtain t where "Handle_turn (sample_deps list_net) (Packet ping_packet) (new_node None) = (Ok True, t)"
    using new_node_ping by blast
  then have run: "Handle (sample_deps list_net) [Packet ping_packet] (new_node None) = (Ok (), t)" by (simp add: seqM_def)
  have "nd_s (new_node None) = fst (newMqttSession 5 None [] newMetricService)" by (simp add: new_node_def)
  from authentication_locks_out [OF this _ run] run show ?thesis by simp
qed

end
