(* ===== verification/Goshiro.thy ===== *)
theory Goshiro
  imports Sentel_Prelude
begin

text \<open>
  The security manager the management services use (\<^verbatim>\<open>src/pkg/goshiro/shiro\<close>): principals and
  their collections, permissions, the adaptor that keeps roles and permissions in memory, the
  role and permission managers with their caches, and authorization. A slice that is appended to
  and stored again is the list of its elements; the removals the code writes as
  \<^verbatim>\<open>append(s[:i], s[i:]...)\<close> are \<open>cut_at\<close>. The cache library is a parameter, and so are the
  realms and the order in which a Go map is iterated.
\<close>

subsection \<open>Principals, permissions and roles\<close>

record Permission =
  pm_PermissionId :: string
  pm_Resources :: "string list"
  pm_Actions :: string

record Role =
  ro_Name :: string
  ro_PermissionIds :: "string list"

record Principal =
  pr_name :: string
  pr_credentials :: string
  pr_realmName :: string
  pr_roles :: "string list"

definition NewPermission :: "string \<Rightarrow> string list \<Rightarrow> Permission" where
  "NewPermission action resources = \<lparr>pm_PermissionId = [], pm_Resources = resources, pm_Actions = action\<rparr>"

definition Implies :: "Permission \<Rightarrow> string \<Rightarrow> string \<Rightarrow> bool" where
  "Implies p resource action = list_ex (\<lambda>res. resource = res \<and> list_ex (\<lambda>val. val = action) (split_on CHR '','' (pm_Actions p)))
     (pm_Resources p)"

definition NewRole :: "string \<Rightarrow> Role" where
  "NewRole roleName = \<lparr>ro_Name = roleName, ro_PermissionIds = []\<rparr>"

definition NewRoleWithPermissions :: "string \<Rightarrow> string list \<Rightarrow> Role" where
  "NewRoleWithPermissions roleName perms = \<lparr>ro_Name = roleName, ro_PermissionIds = perms\<rparr>"

definition role_AddPermission :: "string \<Rightarrow> Role \<Rightarrow> Role" where
  "role_AddPermission permid r = r\<lparr>ro_PermissionIds := ro_PermissionIds r @ [permid]\<rparr>"

definition role_AddPermissions :: "string list \<Rightarrow> Role \<Rightarrow> Role" where
  "role_AddPermissions permids r = r\<lparr>ro_PermissionIds := ro_PermissionIds r @ permids\<rparr>"

definition NewPrincipal :: "string \<Rightarrow> Principal" where
  "NewPrincipal name = \<lparr>pr_name = name, pr_credentials = [], pr_realmName = [], pr_roles = []\<rparr>"

definition NewPrincipalWithRealm :: "string \<Rightarrow> string \<Rightarrow> Principal" where
  "NewPrincipalWithRealm name realmName = \<lparr>pr_name = name, pr_credentials = [], pr_realmName = realmName, pr_roles = []\<rparr>"

definition SetCrenditals :: "string \<Rightarrow> Principal \<Rightarrow> Principal" where
  "SetCrenditals c p = p\<lparr>pr_credentials := c\<rparr>"

definition AddRoles :: "string list \<Rightarrow> Principal \<Rightarrow> Principal" where
  "AddRoles roles p = p\<lparr>pr_roles := pr_roles p @ roles\<rparr>"

subsection \<open>Removing from a slice\<close>

definition cut_at :: "nat \<Rightarrow> 'a list \<Rightarrow> 'a list" where
  "cut_at i xs = take i xs @ drop i xs"

text \<open>The loop over the indices of a slice that cuts at the elements with a property.\<close>

definition cut_where :: "('a \<Rightarrow> bool) \<Rightarrow> 'a list \<Rightarrow> 'a list" where
  "cut_where P xs = foldl (\<lambda>ys i. if P (xs ! i) then cut_at i ys else ys) xs [0..<length xs]"

subsection \<open>Collections of principals\<close>

text \<open>\<open>pc_keys\<close> are the realms of the map; \<open>iter\<close> is the order in which the map is iterated.\<close>

record principalCollection =
  pc_principals :: "(string \<times> Principal list) list"
  pc_principalList :: "Principal list"
  pc_index :: nat

definition NewPrincipalCollection :: principalCollection where
  "NewPrincipalCollection = \<lparr>pc_principals = [], pc_principalList = [], pc_index = 0\<rparr>"

definition pc_Add :: "Principal \<Rightarrow> principalCollection \<Rightarrow> principalCollection" where
  "pc_Add pr p = (let realm = pr_realmName pr;
       old = (case map_of (pc_principals p) realm of None \<Rightarrow> [] | Some ps \<Rightarrow> ps) in
     p\<lparr>pc_principals := AList.update realm (old @ [pr]) (pc_principals p),
       pc_principalList := pc_principalList p @ [pr]\<rparr>)"

definition pc_GetRealmPrincipals :: "string \<Rightarrow> principalCollection \<Rightarrow> Principal list" where
  "pc_GetRealmPrincipals realm p = (case map_of (pc_principals p) realm of None \<Rightarrow> [] | Some ps \<Rightarrow> ps)"

definition pc_GetRealmNames :: "(string list \<Rightarrow> string list) \<Rightarrow> principalCollection \<Rightarrow> string list" where
  "pc_GetRealmNames iter p = iter (map fst (pc_principals p))"

definition pc_AddAll :: "(string list \<Rightarrow> string list) \<Rightarrow> principalCollection \<Rightarrow> principalCollection \<Rightarrow> principalCollection" where
  "pc_AddAll iter r p = foldl (\<lambda>p realm. foldl (\<lambda>p pr. pc_Add pr p) p (pc_GetRealmPrincipals realm r))
     p (pc_GetRealmNames iter r)"

text \<open>The principals of the realm are a copy, so only the list is written.\<close>

definition pc_Remove :: "string \<Rightarrow> string \<Rightarrow> principalCollection \<Rightarrow> principalCollection" where
  "pc_Remove principalName realm p =
     foldl (\<lambda>p pr. if pr_name pr = principalName
         then p\<lparr>pc_principalList := cut_where (\<lambda>q. pr_name q = principalName) (pc_principalList p)\<rparr> else p)
       p (pc_GetRealmPrincipals realm p)"

text \<open>\<open>same\<close> is the identity of two pointers to principals.\<close>

definition pc_RemoveRealmPrincipals :: "(Principal \<Rightarrow> Principal \<Rightarrow> bool) \<Rightarrow> string \<Rightarrow> principalCollection \<Rightarrow> principalCollection" where
  "pc_RemoveRealmPrincipals same realm p = (case map_of (pc_principals p) realm of
      None \<Rightarrow> p
    | Some ps \<Rightarrow> foldl (\<lambda>p pr. p\<lparr>pc_principalList := cut_where (same pr) (pc_principalList p)\<rparr>)
        (p\<lparr>pc_principals := AList.delete realm (pc_principals p)\<rparr>) ps)"

definition pc_Clear :: "principalCollection \<Rightarrow> principalCollection" where
  "pc_Clear p = \<lparr>pc_principals = [], pc_principalList = [], pc_index = 0\<rparr>"

definition pc_GetPrimaryPrincipal :: "principalCollection \<Rightarrow> Principal option \<times> principalCollection" where
  "pc_GetPrimaryPrincipal p =
     (if pc_index p < length (pc_principalList p)
      then (Some (pc_principalList p ! pc_index p), p\<lparr>pc_index := pc_index p + 1\<rparr>)
      else (None, p))"

definition pc_IsEmpty :: "principalCollection \<Rightarrow> bool" where
  "pc_IsEmpty p \<longleftrightarrow> pc_principals p = []"

subsection \<open>The adaptor\<close>

record localAdaptor =
  la_roles :: "string \<rightharpoonup> Role"
  la_principals :: "string \<rightharpoonup> Principal"
  la_permissions :: "string \<rightharpoonup> Permission"
  la_principalRoles :: "string \<rightharpoonup> Role list"
  la_principalPermissions :: "string \<rightharpoonup> string list"
  la_permIndex :: "64 word"

definition NewLocalAdaptor :: localAdaptor where
  "NewLocalAdaptor = \<lparr>la_roles = Map.empty, la_principals = Map.empty, la_permissions = Map.empty,
     la_principalRoles = Map.empty, la_principalPermissions = Map.empty, la_permIndex = 1\<rparr>"

definition la_AddRole :: "Role \<Rightarrow> localAdaptor \<Rightarrow> localAdaptor" where
  "la_AddRole r l = l\<lparr>la_roles := (la_roles l)(ro_Name r \<mapsto> (case la_roles l (ro_Name r) of
      Some role \<Rightarrow> \<lparr>ro_Name = ro_Name r, ro_PermissionIds = ro_PermissionIds role @ ro_PermissionIds r\<rparr>
    | None \<Rightarrow> r))\<rparr>"

definition la_RemoveRole :: "string \<Rightarrow> localAdaptor \<Rightarrow> localAdaptor" where
  "la_RemoveRole roleName l = (case la_roles l roleName of
      Some _ \<Rightarrow> l\<lparr>la_roles := (la_roles l)(roleName := None)\<rparr>
    | None \<Rightarrow> l)"

definition la_GetRole :: "string \<Rightarrow> localAdaptor \<Rightarrow> (unit, Role) outcome" where
  "la_GetRole roleName l = (case la_roles l roleName of Some r \<Rightarrow> Ok r | None \<Rightarrow> Err ())"

definition la_AddRolePermissions :: "string \<Rightarrow> string list \<Rightarrow> localAdaptor \<Rightarrow> localAdaptor" where
  "la_AddRolePermissions roleName permissons l = (case la_roles l roleName of
      Some r \<Rightarrow> l\<lparr>la_roles := (la_roles l)(roleName \<mapsto>
        \<lparr>ro_Name = roleName, ro_PermissionIds = ro_PermissionIds r @ ro_PermissionIds r\<rparr>)\<rparr>
    | None \<Rightarrow> l)"

text \<open>The role is a copy, but its slice is the slice of the stored role.\<close>

definition la_RemoveRolePermissions :: "string \<Rightarrow> string list \<Rightarrow> localAdaptor \<Rightarrow> localAdaptor" where
  "la_RemoveRolePermissions roleName permissions l = (case la_roles l roleName of
      Some role \<Rightarrow> l\<lparr>la_roles := (la_roles l)(roleName \<mapsto> role\<lparr>ro_PermissionIds :=
        foldl (\<lambda>ids permission. cut_where (\<lambda>permId. permId = permission) ids) (ro_PermissionIds role) permissions\<rparr>)\<rparr>
    | None \<Rightarrow> l)"

definition la_GetRolePermissions :: "string \<Rightarrow> localAdaptor \<Rightarrow> string list" where
  "la_GetRolePermissions roleName l = (case la_roles l roleName of Some r \<Rightarrow> ro_PermissionIds r | None \<Rightarrow> [])"

definition add_permission :: "Permission \<Rightarrow> localAdaptor \<Rightarrow> string \<times> localAdaptor" where
  "add_permission permission l =
     (if pm_PermissionId permission = []
      then (let i = decimal (unat (la_permIndex l)) in
        (i, l\<lparr>la_permissions := (la_permissions l)(i \<mapsto> permission\<lparr>pm_PermissionId := i\<rparr>), la_permIndex := la_permIndex l + 1\<rparr>))
      else (pm_PermissionId permission, l\<lparr>la_permissions := (la_permissions l)(pm_PermissionId permission \<mapsto> permission)\<rparr>))"

fun la_AddPermissions :: "Permission list \<Rightarrow> localAdaptor \<Rightarrow> string list \<times> localAdaptor" where
  "la_AddPermissions [] l = ([], l)"
| "la_AddPermissions (p # ps) l = (case add_permission p l of (i, l1) \<Rightarrow>
     (case la_AddPermissions ps l1 of (is, l2) \<Rightarrow> (i # is, l2)))"

definition la_RemovePermissions :: "string list \<Rightarrow> localAdaptor \<Rightarrow> localAdaptor" where
  "la_RemovePermissions permIds l = foldl (\<lambda>l permId. l\<lparr>la_permissions := (la_permissions l)(permId := None)\<rparr>) l permIds"

definition la_GetPermissions :: "string list \<Rightarrow> localAdaptor \<Rightarrow> Permission list" where
  "la_GetPermissions permIds l = List.map_filter (la_permissions l) permIds"

definition la_RemovePrincipal :: "Principal \<Rightarrow> localAdaptor \<Rightarrow> localAdaptor" where
  "la_RemovePrincipal p l = l\<lparr>la_principals := (la_principals l)(pr_name p := None),
     la_principalRoles := (la_principalRoles l)(pr_name p := None),
     la_principalPermissions := (la_principalPermissions l)(pr_name p := None)\<rparr>"

definition la_GetPrincipalPermissions :: "Principal \<Rightarrow> localAdaptor \<Rightarrow> Permission list" where
  "la_GetPrincipalPermissions p l = (case la_principalPermissions l (pr_name p) of
      Some permIds \<Rightarrow> la_GetPermissions permIds l
    | None \<Rightarrow> [])"

text \<open>A collection without a principal left gives none, and its name is asked for all the same.\<close>

definition la_GetPrincipalsPermissions :: "localAdaptor \<Rightarrow> (principalCollection, unit, Permission list) go" where
  "la_GetPrincipalsPermissions l principals = (case pc_GetPrimaryPrincipal principals of
      (Some p, t) \<Rightarrow> (Ok (la_GetPrincipalPermissions p l), t)
    | (None, t) \<Rightarrow> (Panic, t))"

definition la_SetPrincipalPermissions :: "Principal \<Rightarrow> Permission list \<Rightarrow> localAdaptor \<Rightarrow> localAdaptor" where
  "la_SetPrincipalPermissions p permissions l = (case la_AddPermissions permissions l of (permIds, l1) \<Rightarrow>
     if permIds \<noteq> [] then l1\<lparr>la_principalPermissions := (la_principalPermissions l1)(pr_name p \<mapsto> permIds)\<rparr> else l1)"

definition la_AddPrincipalPermissions :: "Principal \<Rightarrow> Permission list \<Rightarrow> localAdaptor \<Rightarrow> localAdaptor" where
  "la_AddPrincipalPermissions p permissions l = (let name = pr_name p;
       old = (case la_principalPermissions l name of None \<Rightarrow> [] | Some ids \<Rightarrow> ids);
       l0 = l\<lparr>la_principalPermissions := (la_principalPermissions l)(name \<mapsto> old)\<rparr> in
     case la_AddPermissions permissions l0 of (permIds, l1) \<Rightarrow>
       if permIds \<noteq> [] then l1\<lparr>la_principalPermissions := (la_principalPermissions l1)(name \<mapsto> old @ permIds)\<rparr> else l1)"

text \<open>The resources of the removed permissions, without duplicates, in the order of the map.\<close>

definition la_RemovePrincipalPermissions ::
  "(string list \<Rightarrow> string list) \<Rightarrow> Principal \<Rightarrow> Permission list \<Rightarrow> localAdaptor \<Rightarrow> localAdaptor" where
  "la_RemovePrincipalPermissions iter p permissions l = (case la_principalPermissions l (pr_name p) of
      Some permIds \<Rightarrow>
        (let resources = iter (remdups (concat (map pm_Resources permissions)));
             kept = foldl (\<lambda>ps resource. map (\<lambda>q. q\<lparr>pm_Resources := cut_where (\<lambda>name. resource = name) (pm_Resources q)\<rparr>) ps)
                      (la_GetPermissions permIds l) resources in
         la_SetPrincipalPermissions p kept l)
    | None \<Rightarrow> l)"

fun find_roles :: "string list \<Rightarrow> localAdaptor \<Rightarrow> (unit, Role list) outcome" where
  "find_roles [] l = Ok []"
| "find_roles (n # ns) l = (case la_GetRole n l of
      Ok r \<Rightarrow> (case find_roles ns l of Ok rs \<Rightarrow> Ok (r # rs) | Err e \<Rightarrow> Err e | Panic \<Rightarrow> Panic)
    | Err e \<Rightarrow> Err e
    | Panic \<Rightarrow> Panic)"

definition la_SetPrincipalRole :: "Principal \<Rightarrow> string list \<Rightarrow> (localAdaptor, unit, unit) go" where
  "la_SetPrincipalRole p roleNames l = (case find_roles roleNames l of
      Ok roles \<Rightarrow>
        (let old = (case la_principalRoles l (pr_name p) of None \<Rightarrow> [] | Some rs \<Rightarrow> rs) in
         (Ok (), l\<lparr>la_principalRoles := (la_principalRoles l)(pr_name p \<mapsto> old @ roles)\<rparr>))
    | Err e \<Rightarrow> (Err e, l)
    | Panic \<Rightarrow> (Panic, l))"

definition la_GetPrincipalRoles :: "Principal \<Rightarrow> localAdaptor \<Rightarrow> Role list" where
  "la_GetPrincipalRoles p l = (case la_principalRoles l (pr_name p) of Some roles \<Rightarrow> roles | None \<Rightarrow> [])"

definition la_GetPrincipalRoleNames :: "Principal \<Rightarrow> localAdaptor \<Rightarrow> string list" where
  "la_GetPrincipalRoleNames p l = (case la_principalRoles l (pr_name p) of Some roles \<Rightarrow> map ro_Name roles | None \<Rightarrow> [])"

definition la_RemovePrincipalRoles :: "Principal \<Rightarrow> localAdaptor \<Rightarrow> localAdaptor" where
  "la_RemovePrincipalRoles p l = l\<lparr>la_principalRoles := (la_principalRoles l)(pr_name p := None)\<rparr>"

subsection \<open>The managers\<close>

text \<open>What the managers use of the cache library; a lookup may find that an entry has expired.\<close>

record ('v, 'c) cache_ops =
  ca_Add :: "string \<Rightarrow> 'v \<Rightarrow> 'c \<Rightarrow> 'c"
  ca_Delete :: "string \<Rightarrow> 'c \<Rightarrow> 'c"
  ca_Value :: "string \<Rightarrow> 'c \<Rightarrow> 'v option \<times> 'c"

text \<open>The credentials of a token are an interface: those of a request token are nil.\<close>

datatype token_kind = UserAndPasswordToken | JWTToken | RequestToken

record token =
  tk_kind :: token_kind
  tk_Principal :: string
  tk_Crenditals :: "string option"
  tk_Authenticated :: bool

record realm =
  rl_name :: string
  rl_supports :: "token \<Rightarrow> bool"
  rl_principals :: "token \<Rightarrow> principalCollection"

record ('rc, 'pc) securityManager =
  sg_realms :: "(string \<times> realm) list"
  sg_adaptor :: localAdaptor
  sg_roleCache :: 'rc
  sg_permCache :: 'pc

definition newDefaultSecurityManager :: "realm list \<Rightarrow> localAdaptor \<Rightarrow> 'rc \<Rightarrow> 'pc \<Rightarrow> ('rc, 'pc) securityManager" where
  "newDefaultSecurityManager realms adaptor rc pc =
     \<lparr>sg_realms = foldl (\<lambda>m r. AList.update (rl_name r) r m) [] realms, sg_adaptor = adaptor, sg_roleCache = rc, sg_permCache = pc\<rparr>"

definition AddRealm :: "realm list \<Rightarrow> ('rc, 'pc) securityManager \<Rightarrow> ('rc, 'pc) securityManager" where
  "AddRealm realms w = w\<lparr>sg_realms := foldl (\<lambda>m r. AList.update (rl_name r) r m) (sg_realms w) realms\<rparr>"

definition GetRealm :: "string \<Rightarrow> ('rc, 'pc) securityManager \<Rightarrow> realm option" where
  "GetRealm realmName w = map_of (sg_realms w) realmName"

definition onAdaptor :: "(localAdaptor \<Rightarrow> localAdaptor) \<Rightarrow> ('rc, 'pc) securityManager \<Rightarrow> ('rc, 'pc) securityManager" where
  "onAdaptor f w = w\<lparr>sg_adaptor := f (sg_adaptor w)\<rparr>"

text \<open>The role manager.\<close>

definition rm_AddRole :: "(Role, 'rc) cache_ops \<Rightarrow> Role \<Rightarrow> ('rc, 'pc) securityManager \<Rightarrow> ('rc, 'pc) securityManager" where
  "rm_AddRole ca r w = onAdaptor (la_AddRole r) (w\<lparr>sg_roleCache := ca_Add ca (ro_Name r) r (sg_roleCache w)\<rparr>)"

definition rm_RemoveRole :: "(Role, 'rc) cache_ops \<Rightarrow> string \<Rightarrow> ('rc, 'pc) securityManager \<Rightarrow> ('rc, 'pc) securityManager" where
  "rm_RemoveRole ca roleName w =
     onAdaptor (la_RemoveRole roleName) (w\<lparr>sg_roleCache := ca_Delete ca roleName (sg_roleCache w)\<rparr>)"

definition rm_GetRole :: "(Role, 'rc) cache_ops \<Rightarrow> string \<Rightarrow> (('rc, 'pc) securityManager, unit, Role) go" where
  "rm_GetRole ca roleName w = (case ca_Value ca roleName (sg_roleCache w) of
      (Some r, c) \<Rightarrow> (Ok r, w\<lparr>sg_roleCache := c\<rparr>)
    | (None, c) \<Rightarrow> (case la_GetRole roleName (sg_adaptor w) of
          Ok r \<Rightarrow> (Ok r, w\<lparr>sg_roleCache := ca_Add ca roleName r c\<rparr>)
        | _ \<Rightarrow> (Err (), w\<lparr>sg_roleCache := c\<rparr>)))"

definition rm_GetRolesPermissions :: "string list \<Rightarrow> ('rc, 'pc) securityManager \<Rightarrow> string list" where
  "rm_GetRolesPermissions roleNames w = concat (map (\<lambda>n. la_GetRolePermissions n (sg_adaptor w)) roleNames)"

text \<open>The permission manager.\<close>

definition pg_AddPermission :: "Permission \<Rightarrow> ('rc, 'pc) securityManager \<Rightarrow> string \<times> ('rc, 'pc) securityManager" where
  "pg_AddPermission p w = (case la_AddPermissions [p] (sg_adaptor w) of (permIds, l) \<Rightarrow>
     (case permIds of i # _ \<Rightarrow> i | [] \<Rightarrow> [], w\<lparr>sg_adaptor := l\<rparr>))"

definition pg_RemovePermission :: "(Permission, 'pc) cache_ops \<Rightarrow> string \<Rightarrow> ('rc, 'pc) securityManager \<Rightarrow> ('rc, 'pc) securityManager" where
  "pg_RemovePermission ca permId w =
     onAdaptor (la_RemovePermissions [permId]) (w\<lparr>sg_permCache := ca_Delete ca permId (sg_permCache w)\<rparr>)"

definition pg_GetPermission :: "(Permission, 'pc) cache_ops \<Rightarrow> string \<Rightarrow> (('rc, 'pc) securityManager, unit, Permission) go" where
  "pg_GetPermission ca permId w = (case ca_Value ca permId (sg_permCache w) of
      (Some p, c) \<Rightarrow> (Ok p, w\<lparr>sg_permCache := c\<rparr>)
    | (None, c) \<Rightarrow> (case la_GetPermissions [permId] (sg_adaptor w) of
          p # _ \<Rightarrow> (Ok p, w\<lparr>sg_permCache := ca_Add ca permId p c\<rparr>)
        | [] \<Rightarrow> (Err (), w\<lparr>sg_permCache := c\<rparr>)))"

text \<open>The security manager.\<close>

fun login_realms :: "token \<Rightarrow> realm list \<Rightarrow> (unit, Principal) outcome" where
  "login_realms tok [] = Err ()"
| "login_realms tok (r # rs) =
     (if rl_supports r tok \<and> \<not> pc_IsEmpty (rl_principals r tok) then
        case fst (pc_GetPrimaryPrincipal (rl_principals r tok)) of
          None \<Rightarrow> Panic
        | Some pp \<Rightarrow> if Some (pr_credentials pp) = tk_Crenditals tok then Ok pp else login_realms tok rs
      else login_realms tok rs)"

definition realms_of :: "(string list \<Rightarrow> string list) \<Rightarrow> ('rc, 'pc) securityManager \<Rightarrow> realm list" where
  "realms_of iter w = List.map_filter (map_of (sg_realms w)) (iter (map fst (sg_realms w)))"

definition Login :: "(string list \<Rightarrow> string list) \<Rightarrow> token \<Rightarrow> ('rc, 'pc) securityManager \<Rightarrow> (unit, Principal) outcome" where
  "Login iter tok w = login_realms tok (realms_of iter w)"

definition getPrincipals :: "(string list \<Rightarrow> string list) \<Rightarrow> token \<Rightarrow> ('rc, 'pc) securityManager \<Rightarrow> principalCollection" where
  "getPrincipals iter tok w =
     (if tk_Authenticated tok
      then foldl (\<lambda>ps r. if rl_supports r tok \<and> \<not> pc_IsEmpty (rl_principals r tok) then pc_AddAll iter (rl_principals r tok) ps else ps)
             NewPrincipalCollection (realms_of iter w)
      else NewPrincipalCollection)"

definition RemovePrincipal :: "Principal \<Rightarrow> ('rc, 'pc) securityManager \<Rightarrow> ('rc, 'pc) securityManager" where
  "RemovePrincipal p w = onAdaptor (la_RemovePrincipal p) (onAdaptor (la_RemovePrincipalRoles p) w)"

definition AddPrincipalPermissions :: "Principal \<Rightarrow> Permission list \<Rightarrow> ('rc, 'pc) securityManager \<Rightarrow> ('rc, 'pc) securityManager" where
  "AddPrincipalPermissions p permissions = onAdaptor (la_AddPrincipalPermissions p permissions)"

definition RemovePrincipalPermissions ::
  "(string list \<Rightarrow> string list) \<Rightarrow> Principal \<Rightarrow> Permission list \<Rightarrow> ('rc, 'pc) securityManager \<Rightarrow> ('rc, 'pc) securityManager" where
  "RemovePrincipalPermissions iter p permissions = onAdaptor (la_RemovePrincipalPermissions iter p permissions)"

text \<open>\<open>None\<close> is a principal that is nil: adding it to a collection asks it for its realm.\<close>

definition Authorize :: "Principal option \<Rightarrow> string \<Rightarrow> string \<Rightarrow> ('rc, 'pc) securityManager \<Rightarrow> (unit, unit) outcome" where
  "Authorize p resource action w = (case p of
      None \<Rightarrow> Panic
    | Some q \<Rightarrow>
        (case fst (la_GetPrincipalsPermissions (sg_adaptor w) (pc_Add q NewPrincipalCollection)) of
           Ok permissions \<Rightarrow> if list_ex (\<lambda>permission. Implies permission resource action) permissions then Ok () else Err ()
         | Err e \<Rightarrow> Err e
         | Panic \<Rightarrow> Panic))"

definition AuthorizeWithToken ::
  "(string list \<Rightarrow> string list) \<Rightarrow> token \<Rightarrow> string \<Rightarrow> string \<Rightarrow> ('rc, 'pc) securityManager \<Rightarrow> (unit, unit) outcome" where
  "AuthorizeWithToken iter tok resource action w =
     Authorize (fst (pc_GetPrimaryPrincipal (getPrincipals iter tok w))) resource action w"

fun add_all_permissions :: "Permission list \<Rightarrow> ('rc, 'pc) securityManager \<Rightarrow> string list \<times> ('rc, 'pc) securityManager" where
  "add_all_permissions [] w = ([], w)"
| "add_all_permissions (p # ps) w = (case pg_AddPermission p w of (i, w1) \<Rightarrow>
     (case add_all_permissions ps w1 of (is, w2) \<Rightarrow> (i # is, w2)))"

definition AddRolePermissions :: "string \<Rightarrow> Permission list \<Rightarrow> ('rc, 'pc) securityManager \<Rightarrow> ('rc, 'pc) securityManager" where
  "AddRolePermissions roleName permissions w = (case add_all_permissions permissions w of (permids, w1) \<Rightarrow>
     onAdaptor (la_AddRolePermissions roleName permids) w1)"

definition RemoveRoleAllPermissions :: "string \<Rightarrow> ('rc, 'pc) securityManager \<Rightarrow> ('rc, 'pc) securityManager" where
  "RemoveRoleAllPermissions roleName w =
     onAdaptor (la_RemoveRolePermissions roleName (la_GetRolePermissions roleName (sg_adaptor w))) w"

fun get_all_permissions :: "(Permission, 'pc) cache_ops \<Rightarrow> string list \<Rightarrow> ('rc, 'pc) securityManager \<Rightarrow> Permission list \<times> ('rc, 'pc) securityManager" where
  "get_all_permissions ca [] w = ([], w)"
| "get_all_permissions ca (i # is) w = (case pg_GetPermission ca i w of
      (Ok p, w1) \<Rightarrow> (case get_all_permissions ca is w1 of (ps, w2) \<Rightarrow> (p # ps, w2))
    | (_, w1) \<Rightarrow> get_all_permissions ca is w1)"

definition GetRolePermissions :: "(Permission, 'pc) cache_ops \<Rightarrow> string \<Rightarrow> ('rc, 'pc) securityManager \<Rightarrow> Permission list \<times> ('rc, 'pc) securityManager" where
  "GetRolePermissions ca roleName w = get_all_permissions ca (la_GetRolePermissions roleName (sg_adaptor w)) w"

subsection \<open>Removals remove nothing\<close>

lemma cut_at_id [simp]: "cut_at i xs = xs"
  by (simp add: cut_at_def)

lemma cut_where_id [simp]: "cut_where P xs = xs"
proof -
  have "foldl (\<lambda>ys i. if P (xs ! i) then cut_at i ys else ys) ys is = ys" for ys "is"
    by (induction "is" arbitrary: ys) simp_all
  then show ?thesis by (simp add: cut_where_def)
qed

lemma foldl_id: "foldl (\<lambda>x y. x) x ys = x"
  by (induction ys) simp_all

lemma removals_id:
  "pc_Remove name realm p = p" "la_RemoveRolePermissions roleName permissions l = l"
  "pc_principalList (pc_RemoveRealmPrincipals same realm p) = pc_principalList p"
proof -
  have "foldl (\<lambda>p pr. if pr_name pr = name
      then p\<lparr>pc_principalList := cut_where (\<lambda>q. pr_name q = name) (pc_principalList p)\<rparr> else p) q prs = q"
    for q :: principalCollection and prs
    by (induction prs) simp_all
  then show "pc_Remove name realm p = p" by (simp add: pc_Remove_def)
  show "la_RemoveRolePermissions roleName permissions l = l"
    by (cases l) (auto simp: la_RemoveRolePermissions_def foldl_id fun_upd_idem split: option.splits)
  have "pc_principalList (foldl (\<lambda>p pr. p\<lparr>pc_principalList := cut_where (same pr) (pc_principalList p)\<rparr>) q prs) = pc_principalList q"
    for q :: principalCollection and prs
    by (induction prs arbitrary: q) simp_all
  then show "pc_principalList (pc_RemoveRealmPrincipals same realm p) = pc_principalList p"
    by (simp add: pc_RemoveRealmPrincipals_def split: option.splits)
qed

subsection \<open>Identifiers\<close>

text \<open>The permissions of an adaptor are stored under their own identifiers, which are not empty.\<close>

definition la_wf :: "localAdaptor \<Rightarrow> bool" where
  "la_wf l \<longleftrightarrow> (\<forall>i p. la_permissions l i = Some p \<longrightarrow> i \<noteq> [] \<and> pm_PermissionId p = i)"

lemma add_permission_wf: "la_wf l \<Longrightarrow> la_wf (snd (add_permission p l))"
  by (auto simp: add_permission_def la_wf_def Let_def)

lemma AddPermissions_wf: "la_wf l \<Longrightarrow> la_wf (snd (la_AddPermissions ps l))"
proof (induction ps arbitrary: l)
  case (Cons p ps)
  obtain i l1 where 1: "add_permission p l = (i, l1)" by fastforce
  obtain js l2 where 2: "la_AddPermissions ps l1 = (js, l2)" by fastforce
  show ?case using add_permission_wf [OF Cons.prems, of p] Cons.IH [of l1] 1 2 by simp
qed simp

lemma SetPrincipalPermissions_wf: "la_wf l \<Longrightarrow> la_wf (la_SetPrincipalPermissions q ps l)"
  using AddPermissions_wf [of l ps]
  by (cases "la_AddPermissions ps l") (simp add: la_SetPrincipalPermissions_def la_wf_def)

lemma AddPrincipalPermissions_wf:
  assumes "la_wf l"
  shows "la_wf (la_AddPrincipalPermissions q ps l)"
proof -
  define old where "old = (case la_principalPermissions l (pr_name q) of None \<Rightarrow> [] | Some ids \<Rightarrow> ids)"
  let ?l = "l\<lparr>la_principalPermissions := (la_principalPermissions l)(pr_name q \<mapsto> old)\<rparr>"
  have "la_wf ?l" using assms by (simp add: la_wf_def)
  from AddPermissions_wf [OF this, of ps] show ?thesis
    by (cases "la_AddPermissions ps ?l")
       (simp add: la_AddPrincipalPermissions_def Let_def la_wf_def old_def [symmetric])
qed

lemma RemovePermissions_wf: "la_wf l \<Longrightarrow> la_wf (la_RemovePermissions is l)"
proof -
  have "la_wf (l\<lparr>la_permissions := (la_permissions l)(i := None)\<rparr>)" if "la_wf l" for l i
    using that by (simp add: la_wf_def)
  then show "la_wf l \<Longrightarrow> la_wf (la_RemovePermissions is l)"
    unfolding la_RemovePermissions_def by (induction "is" arbitrary: l) simp_all
qed

text \<open>A permission that is in the adaptor under its identifier is there after it is added again.\<close>

lemma add_stored: "la_wf l \<Longrightarrow> la_permissions l i = Some p \<Longrightarrow> add_permission p l = (i, l)"
  by (cases l) (auto simp: add_permission_def la_wf_def fun_upd_idem)

lemma AddPermissions_stored:
  "la_wf l \<Longrightarrow> la_AddPermissions (la_GetPermissions is l) l = (filter (\<lambda>i. la_permissions l i \<noteq> None) is, l)"
proof (induction "is")
  case (Cons i "is")
  then show ?case
    by (cases "la_permissions l i") (simp_all add: la_GetPermissions_def map_filter_simps add_stored)
qed (simp add: la_GetPermissions_def map_filter_simps)

lemma GetPermissions_filter:
  "la_GetPermissions (filter (\<lambda>i. la_permissions l i \<noteq> None) is) l = la_GetPermissions is l"
  by (induction "is") (auto simp: la_GetPermissions_def map_filter_simps)

lemma RemovePrincipalPermissions_keeps:
  assumes "la_wf l"
  shows "la_GetPrincipalPermissions p (la_RemovePrincipalPermissions iter q ps l) = la_GetPrincipalPermissions p l"
proof (cases "la_principalPermissions l (pr_name q)")
  case (Some ids)
  have "foldl (\<lambda>ps resource. map (\<lambda>q. q\<lparr>pm_Resources := cut_where (\<lambda>name. resource = name) (pm_Resources q)\<rparr>) ps) xs rs = xs" for xs :: "Permission list" and rs
    by (induction rs) simp_all
  with Some have r: "la_RemovePrincipalPermissions iter q ps l = la_SetPrincipalPermissions q (la_GetPermissions ids l) l"
    by (simp add: la_RemovePrincipalPermissions_def)
  have f: "la_GetPermissions ids l = []" if "filter (\<lambda>i. la_permissions l i \<noteq> None) ids = []"
    using GetPermissions_filter [of l ids] that by (simp add: la_GetPermissions_def map_filter_simps)
  show ?thesis
    unfolding r la_SetPrincipalPermissions_def AddPermissions_stored [OF assms]
    using Some GetPermissions_filter [of l ids] f
    by (auto simp: la_GetPrincipalPermissions_def la_GetPermissions_def split: option.splits)
qed (simp add: la_RemovePrincipalPermissions_def)

lemma RemovePrincipalPermissions_wf: "la_wf l \<Longrightarrow> la_wf (la_RemovePrincipalPermissions iter q ps l)"
  by (auto simp: la_RemovePrincipalPermissions_def Let_def SetPrincipalPermissions_wf split: option.splits)

subsection \<open>Reachable states\<close>

inductive sg_step :: "(Role, 'rc) cache_ops \<Rightarrow> (Permission, 'pc) cache_ops \<Rightarrow>
    ('rc, 'pc) securityManager \<Rightarrow> ('rc, 'pc) securityManager \<Rightarrow> bool" for rca pca where
  "sg_step rca pca w (AddRealm realms w)"
| "sg_step rca pca w (rm_AddRole rca r w)"
| "sg_step rca pca w (rm_RemoveRole rca name w)"
| "sg_step rca pca w (snd (rm_GetRole rca name w))"
| "sg_step rca pca w (pg_RemovePermission pca i w)"
| "sg_step rca pca w (RemovePrincipal p w)"
| "sg_step rca pca w (AddPrincipalPermissions p ps w)"
| "sg_step rca pca w (RemovePrincipalPermissions iter p ps w)"
| "sg_step rca pca w (AddRolePermissions name ps w)"
| "sg_step rca pca w (RemoveRoleAllPermissions name w)"
| "sg_step rca pca w (snd (GetRolePermissions pca name w))"

inductive sg_reach :: "(Role, 'rc) cache_ops \<Rightarrow> (Permission, 'pc) cache_ops \<Rightarrow> ('rc, 'pc) securityManager \<Rightarrow> bool"
  for rca pca where
  sg_start: "sg_reach rca pca (newDefaultSecurityManager realms NewLocalAdaptor rc pc)"
| sg_next: "sg_reach rca pca w \<Longrightarrow> sg_step rca pca w v \<Longrightarrow> sg_reach rca pca v"

lemma role_ops_wf:
  "la_wf l \<Longrightarrow> la_wf (la_AddRole r l)" "la_wf l \<Longrightarrow> la_wf (la_RemoveRole n l)" "la_wf l \<Longrightarrow> la_wf (la_AddRolePermissions n ps l)"
  "la_wf l \<Longrightarrow> la_wf (la_RemovePrincipal p l)" "la_wf l \<Longrightarrow> la_wf (la_RemovePrincipalRoles p l)"
  by (simp_all add: la_wf_def la_AddRole_def la_RemoveRole_def la_AddRolePermissions_def la_RemovePrincipal_def
      la_RemovePrincipalRoles_def split: option.splits)

lemma add_all_wf: "la_wf (sg_adaptor w) \<Longrightarrow> la_wf (sg_adaptor (snd (add_all_permissions ps w)))"
proof (induction ps arbitrary: w)
  case (Cons p ps)
  obtain i w1 where 1: "pg_AddPermission p w = (i, w1)" by fastforce
  obtain js w2 where 2: "add_all_permissions ps w1 = (js, w2)" by fastforce
  have "la_wf (sg_adaptor w1)"
    using 1 AddPermissions_wf [OF Cons.prems, of "[p]"] by (auto simp: pg_AddPermission_def split: prod.splits)
  with Cons.IH [of w1] 1 2 show ?case by simp
qed simp

lemma get_permission_adaptor: "sg_adaptor (snd (pg_GetPermission ca i w)) = sg_adaptor w"
  by (simp add: pg_GetPermission_def split: prod.splits option.splits list.splits)

lemma get_all_adaptor: "sg_adaptor (snd (get_all_permissions ca is w)) = sg_adaptor w"
proof (induction "is" arbitrary: w)
  case (Cons i "is")
  obtain r w1 where 1: "pg_GetPermission ca i w = (r, w1)" by fastforce
  obtain ps w2 where 2: "get_all_permissions ca is w1 = (ps, w2)" by fastforce
  show ?case using Cons [of w1] get_permission_adaptor [of ca i w] 1 2 by (cases r) simp_all
qed simp

lemma sg_step_wf: "sg_step rca pca w v \<Longrightarrow> la_wf (sg_adaptor w) \<Longrightarrow> la_wf (sg_adaptor v)"
proof (induction rule: sg_step.induct)
  case (9 w name ps)
  obtain js w1 where "add_all_permissions ps w = (js, w1)" by fastforce
  with add_all_wf [OF 9, of ps] show ?case by (simp add: AddRolePermissions_def onAdaptor_def role_ops_wf)
next
  case (4 w name)
  then show ?case by (simp add: rm_GetRole_def split: prod.splits option.splits outcome.splits)
qed (simp_all add: AddRealm_def rm_AddRole_def rm_RemoveRole_def pg_RemovePermission_def RemovePrincipal_def
    AddPrincipalPermissions_def RemovePrincipalPermissions_def RemoveRoleAllPermissions_def GetRolePermissions_def onAdaptor_def
    role_ops_wf RemovePermissions_wf AddPrincipalPermissions_wf RemovePrincipalPermissions_wf removals_id get_all_adaptor)

lemma sg_reach_wf: "sg_reach rca pca w \<Longrightarrow> la_wf (sg_adaptor w)"
proof (induction rule: sg_reach.induct)
  case (sg_start realms rc pc)
  show ?case by (simp add: newDefaultSecurityManager_def NewLocalAdaptor_def la_wf_def)
qed (rule sg_step_wf)

subsection \<open>Authorization\<close>

lemma fresh_primary: "pc_GetPrimaryPrincipal (pc_Add p NewPrincipalCollection) = (Some p, (pc_Add p NewPrincipalCollection)\<lparr>pc_index := 1\<rparr>)"
  by (simp add: pc_GetPrimaryPrincipal_def pc_Add_def NewPrincipalCollection_def Let_def)

lemma Authorize_Some:
  "Authorize (Some p) resource action w =
     (if list_ex (\<lambda>q. Implies q resource action) (la_GetPrincipalPermissions p (sg_adaptor w)) then Ok () else Err ())"
  by (simp add: Authorize_def la_GetPrincipalsPermissions_def fresh_primary)

lemma Authorize_iff:
  "Authorize (Some p) resource action w = Ok () \<longleftrightarrow>
     (\<exists>ids i q. la_principalPermissions (sg_adaptor w) (pr_name p) = Some ids \<and> i \<in> set ids \<and>
        la_permissions (sg_adaptor w) i = Some q \<and> Implies q resource action)"
proof (cases "la_principalPermissions (sg_adaptor w) (pr_name p)")
  case (Some ids)
  then have "Authorize (Some p) resource action w = Ok () \<longleftrightarrow>
      (\<exists>q \<in> set (la_GetPermissions ids (sg_adaptor w)). Implies q resource action)"
    by (simp add: Authorize_Some la_GetPrincipalPermissions_def list_ex_iff)
  also have "\<dots> \<longleftrightarrow> (\<exists>i q. i \<in> set ids \<and> la_permissions (sg_adaptor w) i = Some q \<and> Implies q resource action)"
    unfolding la_GetPermissions_def set_map_filter by blast
  finally show ?thesis using Some by simp
qed (simp add: Authorize_Some la_GetPrincipalPermissions_def)

text \<open>The identifiers the adaptor gives to a list of permissions without identifiers.\<close>

lemma AddPermissions_fresh:
  "list_all (\<lambda>p. pm_PermissionId p = []) ps \<Longrightarrow>
    fst (la_AddPermissions ps l) = map (\<lambda>k. decimal (unat (la_permIndex l + word_of_nat k))) [0..<length ps] \<and>
    la_principalPermissions (snd (la_AddPermissions ps l)) = la_principalPermissions l \<and>
    (\<forall>i. i \<notin> set (fst (la_AddPermissions ps l)) \<longrightarrow> la_permissions (snd (la_AddPermissions ps l)) i = la_permissions l i)"
proof (induction ps arbitrary: l)
  case (Cons p ps)
  let ?i = "decimal (unat (la_permIndex l))"
  let ?l = "l\<lparr>la_permissions := (la_permissions l)(?i \<mapsto> p\<lparr>pm_PermissionId := ?i\<rparr>), la_permIndex := la_permIndex l + 1\<rparr>"
  have 1: "add_permission p l = (?i, ?l)" using Cons.prems by (simp add: add_permission_def Let_def)
  obtain js l2 where 2: "la_AddPermissions ps ?l = (js, l2)" by fastforce
  have js: "js = map (\<lambda>k. decimal (unat (la_permIndex l + 1 + word_of_nat k))) [0..<length ps]"
    using Cons.IH [of ?l] Cons.prems 2 by simp
  have "map (\<lambda>k. decimal (unat (la_permIndex l + word_of_nat k))) [0..<length (p # ps)] =
      ?i # map (\<lambda>k. decimal (unat (la_permIndex l + word_of_nat (Suc k)))) [0..<length ps]"
    by (simp add: upt_rec [of 0] map_Suc_upt [symmetric] comp_def del: upt_Suc)
  with 1 2 js Cons.IH [of ?l] Cons.prems show ?case
    by (simp add: add.assoc del: upt_Suc)
qed simp

lemma fresh_ids_distinct:
  assumes "list_all (\<lambda>p. pm_PermissionId p = []) ps" "length ps \<le> 2 ^ 64"
  shows "distinct (fst (la_AddPermissions ps l))"
proof -
  have "inj_on (\<lambda>k. decimal (unat (la_permIndex l + word_of_nat k))) {0..<length ps}"
  proof (rule inj_onI)
    fix j k assume jk: "j \<in> {0..<length ps}" "k \<in> {0..<length ps}"
      "decimal (unat (la_permIndex l + word_of_nat j)) = decimal (unat (la_permIndex l + word_of_nat k))"
    then have "la_permIndex l + word_of_nat j = la_permIndex l + word_of_nat k" by (simp only: decimal_inj unsigned_word_eqI)
    then have "(word_of_nat j :: 64 word) = word_of_nat k" by simp
    then have "j mod 2 ^ 64 = k mod 2 ^ 64" by (simp add: word_of_nat_eq_iff take_bit_eq_mod)
    with jk assms(2) show "j = k" by simp
  qed
  then show ?thesis
    using AddPermissions_fresh [OF assms(1), of l] by (simp add: distinct_map)
qed

lemma AddPermissions_stores:
  assumes "list_all (\<lambda>p. pm_PermissionId p = []) ps" "distinct (fst (la_AddPermissions ps l))" "p \<in> set ps"
  shows "\<exists>i \<in> set (fst (la_AddPermissions ps l)). la_permissions (snd (la_AddPermissions ps l)) i = Some (p\<lparr>pm_PermissionId := i\<rparr>)"
  using assms
proof (induction ps arbitrary: l)
  case (Cons q ps)
  let ?i = "decimal (unat (la_permIndex l))"
  let ?l = "l\<lparr>la_permissions := (la_permissions l)(?i \<mapsto> q\<lparr>pm_PermissionId := ?i\<rparr>), la_permIndex := la_permIndex l + 1\<rparr>"
  have 1: "add_permission q l = (?i, ?l)" using Cons.prems by (simp add: add_permission_def Let_def)
  obtain js l2 where 2: "la_AddPermissions ps ?l = (js, l2)" by fastforce
  have run: "la_AddPermissions (q # ps) l = (?i # js, l2)" using 1 2 by simp
  have d: "?i \<notin> set js" "distinct js" using Cons.prems(2) run by auto
  show ?case
  proof (cases "p = q")
    case True
    have "la_permissions l2 ?i = Some (q\<lparr>pm_PermissionId := ?i\<rparr>)"
      using AddPermissions_fresh [of ps ?l] Cons.prems(1) 2 d(1) by simp
    with True run show ?thesis by auto
  next
    case False
    with Cons.IH [of ?l] Cons.prems 2 d(2) run show ?thesis by auto
  qed
qed simp

text \<open>In every state of a security manager a principal is authorized for an action on a resource
  exactly if one of the permissions stored for its name implies it, and permissions without an
  identifier that are added for a principal authorize it for everything they imply, as long as
  no more than two to the 64 are added at once.\<close>

theorem granted_permissions_authorize:
  assumes "list_all (\<lambda>p. pm_PermissionId p = []) ps" "length ps \<le> 2 ^ 64" "p \<in> set ps" "Implies p resource action"
  shows "Authorize (Some q) resource action (AddPrincipalPermissions q ps w) = Ok () \<and>
    (\<forall>v. Authorize (Some q) resource action v = Ok () \<longleftrightarrow>
      (\<exists>ids i r. la_principalPermissions (sg_adaptor v) (pr_name q) = Some ids \<and> i \<in> set ids \<and>
         la_permissions (sg_adaptor v) i = Some r \<and> Implies r resource action))"
proof
  define old where "old = (case la_principalPermissions (sg_adaptor w) (pr_name q) of None \<Rightarrow> [] | Some ids \<Rightarrow> ids)"
  let ?l = "(sg_adaptor w)\<lparr>la_principalPermissions := (la_principalPermissions (sg_adaptor w))(pr_name q \<mapsto> old)\<rparr>"
  obtain js l2 where run: "la_AddPermissions ps ?l = (js, l2)" by fastforce
  obtain i where i: "i \<in> set js" "la_permissions l2 i = Some (p\<lparr>pm_PermissionId := i\<rparr>)"
    using AddPermissions_stores [OF assms(1) fresh_ids_distinct [OF assms(1,2)] assms(3), of ?l] run by auto
  have "sg_adaptor (AddPrincipalPermissions q ps w) =
      l2\<lparr>la_principalPermissions := (la_principalPermissions l2)(pr_name q \<mapsto> old @ js)\<rparr>"
    using run i(1) by (auto simp: AddPrincipalPermissions_def onAdaptor_def la_AddPrincipalPermissions_def Let_def old_def [symmetric])
  moreover have "Implies (p\<lparr>pm_PermissionId := i\<rparr>) resource action" using assms(4) by (simp add: Implies_def)
  ultimately show "Authorize (Some q) resource action (AddPrincipalPermissions q ps w) = Ok ()"
    using i unfolding Authorize_iff by auto
qed (simp add: Authorize_iff)

definition no_cache :: "('v, unit) cache_ops" where
  "no_cache = \<lparr>ca_Add = (\<lambda>_ _ c. c), ca_Delete = (\<lambda>_ c. c), ca_Value = (\<lambda>_ c. (None, c))\<rparr>"

definition new_manager :: "(unit, unit) securityManager" where
  "new_manager = newDefaultSecurityManager [] NewLocalAdaptor () ()"

theorem granted_permissions_authorize_witness:
  "Authorize (Some (NewPrincipal ''u'')) ''r'' ''w'' (AddPrincipalPermissions (NewPrincipal ''u'') [NewPermission ''x,w'' [''q'', ''r'']] new_manager) = Ok ()"
proof -
  have "list_all (\<lambda>p. pm_PermissionId p = []) [NewPermission ''x,w'' [''q'', ''r'']]"
    "Implies (NewPermission ''x,w'' [''q'', ''r'']) ''r'' ''w''"
    by (simp_all add: NewPermission_def Implies_def)
  note * = granted_permissions_authorize [OF this(1) _ _ this(2), of "NewPrincipal ''u''" new_manager]
  show ?thesis by (rule conjunct1 [OF *]) simp_all
qed

text \<open>A permission cannot be taken back: in every reachable state of a security manager the removal of
  any permissions of any principal changes no authorization, because what it removes from the
  stored resources it appends again.\<close>

theorem permissions_never_revoked:
  assumes "sg_reach rca pca w"
  shows "Authorize p resource action (RemovePrincipalPermissions iter q ps w) = Authorize p resource action w"
proof (cases p)
  case (Some r)
  with RemovePrincipalPermissions_keeps [OF sg_reach_wf [OF assms], of r] show ?thesis
    by (simp add: Authorize_Some RemovePrincipalPermissions_def onAdaptor_def)
qed (simp add: Authorize_def)

theorem permissions_never_revoked_witness:
  "Authorize (Some (NewPrincipal ''u'')) ''r'' ''w''
     (RemovePrincipalPermissions (\<lambda>ks. ks) (NewPrincipal ''u'') [NewPermission ''w'' [''r'']]
       (AddPrincipalPermissions (NewPrincipal ''u'') [NewPermission ''w'' [''r'']] new_manager)) = Ok ()"
proof -
  let ?w = "AddPrincipalPermissions (NewPrincipal ''u'') [NewPermission ''w'' [''r'']] new_manager"
  have "sg_reach no_cache no_cache ?w"
    unfolding new_manager_def by (rule sg_next [OF sg_start]) (rule sg_step.intros)
  moreover have "Authorize (Some (NewPrincipal ''u'')) ''r'' ''w'' ?w = Ok ()"
    by (simp add: Authorize_Some AddPrincipalPermissions_def onAdaptor_def la_AddPrincipalPermissions_def add_permission_def
        new_manager_def newDefaultSecurityManager_def NewLocalAdaptor_def NewPermission_def NewPrincipal_def Let_def
        la_GetPrincipalPermissions_def la_GetPermissions_def map_filter_simps Implies_def)
  ultimately show ?thesis by (simp add: permissions_never_revoked)
qed

text \<open>Asking for an authorization with a token that is not authenticated panics instead of
  refusing, whatever the realms are.\<close>

theorem unauthenticated_token_panics:
  assumes "\<not> tk_Authenticated tok"
  shows "AuthorizeWithToken iter tok resource action w = Panic"
  using assms
  by (simp add: AuthorizeWithToken_def getPrincipals_def pc_GetPrimaryPrincipal_def NewPrincipalCollection_def Authorize_def)

theorem unauthenticated_token_panics_witness:
  "AuthorizeWithToken (\<lambda>ks. ks) \<lparr>tk_kind = JWTToken, tk_Principal = ''u'', tk_Crenditals = Some ''p'', tk_Authenticated = False\<rparr> ''r'' ''w'' new_manager = Panic"
  by (rule unauthenticated_token_panics) simp

text \<open>Permissions are not added to a role: the identifiers of the role's own permissions are
  appended to them a second time, and the given permissions are in none of the roles.\<close>

theorem role_permissions_not_added:
  "la_GetRolePermissions roleName (sg_adaptor (AddRolePermissions roleName ps w)) =
     (let ids = la_GetRolePermissions roleName (sg_adaptor w) in ids @ ids)"
proof -
  have roles: "la_roles (snd (la_AddPermissions qs l)) = la_roles l" for qs l
  proof (induction qs arbitrary: l)
    case (Cons q qs)
    obtain i l1 where 1: "add_permission q l = (i, l1)" by fastforce
    then have "la_roles l1 = la_roles l" by (auto simp: add_permission_def Let_def split: if_splits)
    with Cons [of l1] 1 show ?case by (cases "la_AddPermissions qs l1") simp
  qed simp
  have "la_roles (sg_adaptor (snd (add_all_permissions ps v))) = la_roles (sg_adaptor v)" for v :: "('a, 'b) securityManager"
  proof (induction ps arbitrary: v)
    case (Cons q ps)
    obtain i w1 where 1: "pg_AddPermission q v = (i, w1)" by fastforce
    then have "la_roles (sg_adaptor w1) = la_roles (sg_adaptor v)"
      using roles [of "[q]" "sg_adaptor v"] by (cases "la_AddPermissions [q] (sg_adaptor v)") (auto simp: pg_AddPermission_def)
    with Cons [of w1] 1 show ?case by (cases "add_all_permissions ps w1") simp
  qed simp
  from this [of w] show ?thesis
    by (cases "add_all_permissions ps w"; cases "la_roles (sg_adaptor w) roleName")
       (simp_all add: AddRolePermissions_def onAdaptor_def la_AddRolePermissions_def la_GetRolePermissions_def Let_def)
qed

end
