(* ===== verification/Go_Config.thy ===== *)
theory Go_Config
  imports Sentel_Prelude
begin

text \<open>
  The configuration (\<^verbatim>\<open>src/pkg/config/config.go\<close>): sections of items of any type, filled from
  tables in the program, from items given one by one and from files, whose values are always
  strings. \<^verbatim>\<open>glog.Fatal\<close>, which ends the process, is \<open>Panic\<close>. The library that reads the
  configuration file is a parameter: what it gives is the list of the sections, with the items of
  those that can be read.
\<close>

datatype cfg_value = CBool bool | CInt int | CStr string | COther nat

type_synonym cfg_items = "string \<rightharpoonup> cfg_value"

record config =
  cf_primary :: string
  cf_sections :: "string \<rightharpoonup> cfg_items"

datatype cfg_error = NoSection string | NoItem string string | BadValue string | NoFile

type_synonym cfg_file = "(string \<times> (string \<times> string) list option) list"

definition newConfig :: "string \<Rightarrow> config" where
  "newConfig primary = \<lparr>cf_primary = primary, cf_sections = [primary \<mapsto> Map.empty]\<rparr>"

definition section_of :: "config \<Rightarrow> string \<Rightarrow> cfg_items" where
  "section_of c s = (case cf_sections c s of None \<Rightarrow> Map.empty | Some items \<Rightarrow> items)"

definition checkItemExist :: "string \<Rightarrow> string \<Rightarrow> config \<Rightarrow> (cfg_error, cfg_value) outcome" where
  "checkItemExist s key c = (case cf_sections c s of
      None \<Rightarrow> Err (NoSection s)
    | Some items \<Rightarrow> (case items key of None \<Rightarrow> Err (NoItem key s) | Some v \<Rightarrow> Ok v))"

definition put_item :: "string \<Rightarrow> string \<Rightarrow> cfg_value \<Rightarrow> config \<Rightarrow> config" where
  "put_item s key v c = c\<lparr>cf_sections := (cf_sections c)(s \<mapsto> (section_of c s)(key \<mapsto> v))\<rparr>"

definition make_section :: "string \<Rightarrow> config \<Rightarrow> config" where
  "make_section s c = c\<lparr>cf_sections := (cf_sections c)(s \<mapsto> section_of c s)\<rparr>"

text \<open>\<open>None\<close> is a value that is nil.\<close>

definition AddConfigItemWithSection :: "string \<Rightarrow> string \<Rightarrow> cfg_value option \<Rightarrow> config \<Rightarrow> config" where
  "AddConfigItemWithSection s key v c = (let c' = make_section s c in
     case v of Some x \<Rightarrow> if key \<noteq> [] then put_item s key x c' else c' | None \<Rightarrow> c')"

definition AddConfigItem :: "string \<Rightarrow> cfg_value option \<Rightarrow> config \<Rightarrow> config" where
  "AddConfigItem key v c = AddConfigItemWithSection (cf_primary c) key v c"

definition BoolWithSection :: "string \<Rightarrow> string \<Rightarrow> config \<Rightarrow> (cfg_error, bool) outcome" where
  "BoolWithSection s key c = (case checkItemExist s key c of
      Ok (CBool b) \<Rightarrow> Ok b
    | Ok _ \<Rightarrow> Err (BadValue key)
    | Err e \<Rightarrow> Err e
    | Panic \<Rightarrow> Panic)"

definition IntWithSection :: "string \<Rightarrow> string \<Rightarrow> config \<Rightarrow> (cfg_error, int) outcome" where
  "IntWithSection s key c = (case checkItemExist s key c of
      Ok (CInt i) \<Rightarrow> Ok i
    | Ok _ \<Rightarrow> Err (BadValue key)
    | Err e \<Rightarrow> Err e
    | Panic \<Rightarrow> Panic)"

definition StringWithSection :: "string \<Rightarrow> string \<Rightarrow> config \<Rightarrow> (cfg_error, string) outcome" where
  "StringWithSection s key c = (case checkItemExist s key c of
      Ok (CStr v) \<Rightarrow> Ok v
    | _ \<Rightarrow> Err (BadValue key))"

definition ValueWithSection :: "string \<Rightarrow> string \<Rightarrow> config \<Rightarrow> (cfg_error, cfg_value) outcome" where
  "ValueWithSection s key c = (case checkItemExist s key c of Ok v \<Rightarrow> Ok v | _ \<Rightarrow> Err (BadValue key))"

definition must :: "('e, 'a) outcome \<Rightarrow> ('f, 'a) outcome" where
  "must r = (case r of Ok v \<Rightarrow> Ok v | _ \<Rightarrow> Panic)"

definition MustBoolWithSection :: "string \<Rightarrow> string \<Rightarrow> config \<Rightarrow> (unit, bool) outcome" where
  "MustBoolWithSection s key c = must (BoolWithSection s key c)"

definition MustIntWithSection :: "string \<Rightarrow> string \<Rightarrow> config \<Rightarrow> (unit, int) outcome" where
  "MustIntWithSection s key c = must (IntWithSection s key c)"

definition MustStringWithSection :: "string \<Rightarrow> string \<Rightarrow> config \<Rightarrow> (unit, string) outcome" where
  "MustStringWithSection s key c = must (StringWithSection s key c)"

definition MustValueWithSection :: "string \<Rightarrow> string \<Rightarrow> config \<Rightarrow> (unit, cfg_value) outcome" where
  "MustValueWithSection s key c = must (ValueWithSection s key c)"

definition SetValueWithSection :: "string \<Rightarrow> string \<Rightarrow> string \<Rightarrow> config \<Rightarrow> config" where
  "SetValueWithSection s key v c = c"

definition cfg_Bool :: "string \<Rightarrow> config \<Rightarrow> (cfg_error, bool) outcome" where
  "cfg_Bool key c = BoolWithSection (cf_primary c) key c"

definition cfg_Int :: "string \<Rightarrow> config \<Rightarrow> (cfg_error, int) outcome" where
  "cfg_Int key c = IntWithSection (cf_primary c) key c"

definition cfg_String :: "string \<Rightarrow> config \<Rightarrow> (cfg_error, string) outcome" where
  "cfg_String key c = StringWithSection (cf_primary c) key c"

definition cfg_Value :: "string \<Rightarrow> config \<Rightarrow> (cfg_error, cfg_value) outcome" where
  "cfg_Value key c = ValueWithSection (cf_primary c) key c"

definition MustString :: "string \<Rightarrow> config \<Rightarrow> (unit, string) outcome" where
  "MustString key c = MustStringWithSection (cf_primary c) key c"

definition MustInt :: "string \<Rightarrow> config \<Rightarrow> (unit, int) outcome" where
  "MustInt key c = MustIntWithSection (cf_primary c) key c"

definition MustBool :: "string \<Rightarrow> config \<Rightarrow> (unit, bool) outcome" where
  "MustBool key c = MustBoolWithSection (cf_primary c) key c"

definition MustValue :: "string \<Rightarrow> config \<Rightarrow> (unit, cfg_value) outcome" where
  "MustValue key c = MustValueWithSection (cf_primary c) key c"

definition SetValue :: "string \<Rightarrow> string \<Rightarrow> config \<Rightarrow> config" where
  "SetValue key v c = SetValueWithSection (cf_primary c) key v c"

text \<open>The tables are association lists, in the order their maps are iterated.\<close>

definition AddConfig :: "(string \<times> (string \<times> cfg_value) list) list \<Rightarrow> config \<Rightarrow> config" where
  "AddConfig options c = foldl (\<lambda>c (s, values). foldl (\<lambda>c (key, v). put_item s key v c) (make_section s c) values) c options"

definition AddConfigSection :: "string \<Rightarrow> (string \<times> string) list \<Rightarrow> config \<Rightarrow> config" where
  "AddConfigSection s items c = (case cf_sections c s of
      Some old \<Rightarrow> c\<lparr>cf_sections := (cf_sections c)(s \<mapsto> old)\<rparr>
    | None \<Rightarrow> foldl (\<lambda>c (key, v). put_item s key (CStr v) c) (make_section s c) items)"

definition load_section :: "string \<times> (string \<times> string) list option \<Rightarrow> config \<Rightarrow> config" where
  "load_section p c = (case p of (s, items) \<Rightarrow> (case items of
      None \<Rightarrow> make_section s c
    | Some kvs \<Rightarrow> foldl (\<lambda>c (key, v). put_item s key (CStr v) c) (make_section s c) kvs))"

definition AddConfigFile :: "cfg_file option \<Rightarrow> (config, cfg_error, unit) go" where
  "AddConfigFile file c = (case file of
      Some ss \<Rightarrow> (Ok (), foldl (\<lambda>c p. load_section p c) c ss)
    | None \<Rightarrow> (Err NoFile, c))"

definition NewWithFile :: "string \<Rightarrow> cfg_file option \<Rightarrow> (cfg_error, config) outcome" where
  "NewWithFile primary file = (case AddConfigFile file (newConfig primary) of
      (Ok _, c) \<Rightarrow> Ok c
    | (Err e, _) \<Rightarrow> Err e
    | (Panic, _) \<Rightarrow> Panic)"

subsection \<open>Reading what was added\<close>

lemma check_put [simp]:
  "checkItemExist s key (put_item s' key' v c) =
     (if s = s' \<and> key = key' then Ok v
      else if s = s' \<and> cf_sections c s = None then Err (NoItem key s)
      else checkItemExist s key c)"
  by (simp add: checkItemExist_def put_item_def section_of_def split: option.splits)

lemma check_make [simp]:
  "checkItemExist s key (make_section s' c) =
     (if s = s' \<and> cf_sections c s = None then Err (NoItem key s) else checkItemExist s key c)"
  by (simp add: checkItemExist_def make_section_def section_of_def split: option.splits)

lemma sections_put [simp]: "cf_sections (put_item s key v c) s' = None \<longleftrightarrow> s' \<noteq> s \<and> cf_sections c s' = None"
  by (simp add: put_item_def)

lemma sections_make [simp]: "cf_sections (make_section s c) s' = None \<longleftrightarrow> s' \<noteq> s \<and> cf_sections c s' = None"
  by (simp add: make_section_def)

lemma primary_kept [simp]: "cf_primary (put_item s key v c) = cf_primary c" "cf_primary (make_section s c) = cf_primary c"
  by (simp_all add: put_item_def make_section_def)

lemma put_all:
  assumes "cf_sections c s \<noteq> None"
  shows "checkItemExist s key (foldl (\<lambda>c (key, v). put_item s key (f v) c) c kvs) =
    (case map_of (rev kvs) key of Some v \<Rightarrow> Ok (f v) | None \<Rightarrow> checkItemExist s key c)"
  using assms
proof (induction kvs rule: rev_induct)
  case (snoc kv kvs)
  have "cf_sections (foldl (\<lambda>c (key, v). put_item s key (f v) c) c kvs) s \<noteq> None"
    using snoc.prems by (induction kvs rule: rev_induct) (auto simp del: not_None_eq split: prod.splits)
  with snoc show ?case by (cases kv) (auto simp: map_add_def)
qed simp

lemma put_all_other:
  "s \<noteq> s' \<Longrightarrow> checkItemExist s key (foldl (\<lambda>c (key, v). put_item s' key (f v) c) c kvs) = checkItemExist s key c"
  by (induction kvs rule: rev_induct) (auto simp del: not_None_eq split: prod.splits)

text \<open>What is in a section that a file gave is a string, unless it was there before.\<close>

definition strings_from :: "config \<Rightarrow> config \<Rightarrow> bool" where
  "strings_from c d \<longleftrightarrow> (\<forall>s key v. checkItemExist s key d = Ok v \<longrightarrow> checkItemExist s key c = Ok v \<or> (\<exists>x. v = CStr x))"

lemma strings_load: "strings_from c d \<Longrightarrow> strings_from c (load_section p d)"
proof -
  assume cd: "strings_from c d"
  obtain s items where p: "p = (s, items)" by fastforce
  have make: "strings_from c (make_section s d)" using cd by (auto simp: strings_from_def split: if_splits)
  have "strings_from c (foldl (\<lambda>c (key, v). put_item s key (CStr v) c) (make_section s d) kvs)" for kvs
    by (induction kvs rule: rev_induct) (use make in \<open>auto simp: strings_from_def split: prod.splits if_splits\<close>)
  with make p show ?thesis by (simp add: load_section_def split: option.splits)
qed

text \<open>An item added to the configuration is read back as it was added and with its own type only,
  and every other item keeps its value.\<close>

theorem config_item_roundtrip:
  assumes "key \<noteq> []"
  shows "ValueWithSection s key (AddConfigItemWithSection s key (Some v) c) = Ok v \<and>
    BoolWithSection s key (AddConfigItemWithSection s key (Some v) c) = (case v of CBool b \<Rightarrow> Ok b | _ \<Rightarrow> Err (BadValue key)) \<and>
    IntWithSection s key (AddConfigItemWithSection s key (Some v) c) = (case v of CInt i \<Rightarrow> Ok i | _ \<Rightarrow> Err (BadValue key)) \<and>
    StringWithSection s key (AddConfigItemWithSection s key (Some v) c) = (case v of CStr x \<Rightarrow> Ok x | _ \<Rightarrow> Err (BadValue key)) \<and>
    (\<forall>s' key'. (s', key') \<noteq> (s, key) \<longrightarrow>
      ValueWithSection s' key' (AddConfigItemWithSection s key (Some v) c) = ValueWithSection s' key' c)"
  using assms
  by (auto simp: AddConfigItemWithSection_def Let_def ValueWithSection_def BoolWithSection_def IntWithSection_def
      StringWithSection_def checkItemExist_def [of _ _ c] split: cfg_value.splits option.splits)

theorem config_item_roundtrip_witness:
  "IntWithSection ''mqtt'' ''port'' (AddConfigItemWithSection ''mqtt'' ''port'' (Some (CInt 1883)) (newConfig ''broker'')) = Ok 1883 \<and>
   ValueWithSection ''broker'' ''port'' (AddConfigItemWithSection ''mqtt'' ''port'' (Some (CInt 1883)) (newConfig ''broker'')) =
     ValueWithSection ''broker'' ''port'' (newConfig ''broker'')"
  using config_item_roundtrip [of "''port''" "''mqtt''" "CInt 1883" "newConfig ''broker''"] by simp



text \<open>A section that is there already is left as it is when another table is added to it.\<close>

lemma AddConfigSection_existing: "cf_sections c s \<noteq> None \<Longrightarrow> AddConfigSection s items c = c"
  by (cases c) (auto simp: AddConfigSection_def fun_upd_idem)

end
