(* ===== verification/Broker_Quto.thy ===== *)
theory Broker_Quto
  imports Go_Config Broker_Auth
begin

text \<open>
  The quota service (\<^verbatim>\<open>src/broker/quto\<close>): the cache with a capacity that forgets what was
  not used for the longest time, and the service that answers quotas from a cache in memory or in
  redis and from the database. The database and redis are parameters.
\<close>

subsection \<open>The cache of the least recently used\<close>

text \<open>
  The doubly linked list of \<^verbatim>\<open>container/list\<close> is the list of the addresses of its elements from
  the front; \<open>lc_heap\<close> holds the node of every element that was allocated, and the map of the cache
  refers to elements by their address. \<open>None\<close> is a list or a map that is nil.
\<close>

type_synonym ('k, 'v) CacheNode = "'k \<times> 'v"

record ('k, 'v) LRUCache =
  lc_Capacity :: int
  lc_dlist :: "nat list option"
  lc_map :: "('k \<rightharpoonup> nat) option"
  lc_heap :: "('k, 'v) CacheNode list"

datatype lru_error = NotInitialized

definition NewLRUCache :: "int \<Rightarrow> ('k, 'v) LRUCache" where
  "NewLRUCache cap = \<lparr>lc_Capacity = cap, lc_dlist = Some [], lc_map = Some Map.empty, lc_heap = []\<rparr>"

definition lru_Size :: "('k, 'v) LRUCache \<Rightarrow> (lru_error, int) outcome" where
  "lru_Size c = (case lc_dlist c of None \<Rightarrow> Panic | Some es \<Rightarrow> Ok (int (length es)))"

text \<open>The methods of the list leave it as it is when the element is not one of its own, on a nil list as well.\<close>

definition MoveToFront :: "nat \<Rightarrow> nat list option \<Rightarrow> nat list option" where
  "MoveToFront e l = map_option (\<lambda>es. if e \<in> set es then e # removeAll e es else es) l"

definition list_Remove :: "nat \<Rightarrow> nat list option \<Rightarrow> nat list option" where
  "list_Remove e l = map_option (removeAll e) l"

definition lookup_element :: "'k \<Rightarrow> ('k, 'v) LRUCache \<Rightarrow> nat option" where
  "lookup_element k c = Option.bind (lc_map c) (\<lambda>m. m k)"

definition lru_evict :: "('k, 'v) LRUCache \<Rightarrow> ('k, 'v) LRUCache" where
  "lru_evict c = (case lc_dlist c of
      None \<Rightarrow> c
    | Some es \<Rightarrow>
        (if int (length es) > lc_Capacity c \<and> es \<noteq> []
         then c\<lparr>lc_map := map_option (\<lambda>m. m(fst (lc_heap c ! last es) := None)) (lc_map c),
                lc_dlist := list_Remove (last es) (Some es)\<rparr>
         else c))"

definition lru_Set :: "'k \<Rightarrow> 'v \<Rightarrow> (('k, 'v) LRUCache, lru_error, unit) go" where
  "lru_Set k v c = (case lc_dlist c of
      None \<Rightarrow> (Err NotInitialized, c)
    | Some es \<Rightarrow>
        (case lookup_element k c of
           Some e \<Rightarrow> (Ok (), c\<lparr>lc_dlist := MoveToFront e (Some es), lc_heap := (lc_heap c)[e := (fst (lc_heap c ! e), v)]\<rparr>)
         | None \<Rightarrow>
             (let e = length (lc_heap c); c' = c\<lparr>lc_dlist := Some (e # es), lc_heap := lc_heap c @ [(k, v)]\<rparr> in
              case lc_map c of
                None \<Rightarrow> (Panic, c')
              | Some m \<Rightarrow> (Ok (), lru_evict (c'\<lparr>lc_map := Some (m(k \<mapsto> e))\<rparr>)))))"

definition lru_Get :: "'k \<Rightarrow> (('k, 'v) LRUCache, lru_error, 'v option) go" where
  "lru_Get k c = (case lc_map c of
      None \<Rightarrow> (Err NotInitialized, c)
    | Some m \<Rightarrow>
        (case m k of
           None \<Rightarrow> (Ok None, c)
         | Some e \<Rightarrow> (Ok (Some (snd (lc_heap c ! e))), c\<lparr>lc_dlist := MoveToFront e (lc_dlist c)\<rparr>)))"

definition lru_Remove :: "'k \<Rightarrow> ('k, 'v) LRUCache \<Rightarrow> bool \<times> ('k, 'v) LRUCache" where
  "lru_Remove k c = (case lc_map c of
      None \<Rightarrow> (False, c)
    | Some m \<Rightarrow>
        (case m k of
           None \<Rightarrow> (False, c)
         | Some e \<Rightarrow> (True, c\<lparr>lc_map := Some (m(fst (lc_heap c ! e) := None)), lc_dlist := list_Remove e (lc_dlist c)\<rparr>)))"

subsection \<open>The reference\<close>

text \<open>The entries of the cache, the one used last first.\<close>

definition spec_set :: "int \<Rightarrow> 'k \<Rightarrow> 'v \<Rightarrow> ('k \<times> 'v) list \<Rightarrow> ('k \<times> 'v) list" where
  "spec_set cap k v xs =
     (if k \<in> fst ` set xs then (k, v) # AList.delete k xs
      else if int (length xs) + 1 > cap then butlast ((k, v) # xs) else (k, v) # xs)"

definition spec_get :: "'k \<Rightarrow> ('k \<times> 'v) list \<Rightarrow> 'v option \<times> ('k \<times> 'v) list" where
  "spec_get k xs = (case map_of xs k of None \<Rightarrow> (None, xs) | Some v \<Rightarrow> (Some v, (k, v) # AList.delete k xs))"

definition spec_remove :: "'k \<Rightarrow> ('k \<times> 'v) list \<Rightarrow> bool \<times> ('k \<times> 'v) list" where
  "spec_remove k xs = (k \<in> fst ` set xs, AList.delete k xs)"

datatype ('k, 'v) lru_op = OpSet 'k 'v | OpGet 'k | OpRemove 'k

datatype 'v lru_answer = ASet | AGet "'v option" | ARemove bool | AFail

definition lru_run :: "('k, 'v) lru_op \<Rightarrow> ('k, 'v) LRUCache \<Rightarrow> 'v lru_answer \<times> ('k, 'v) LRUCache" where
  "lru_run opr c = (case opr of
      OpSet k v \<Rightarrow> (case lru_Set k v c of (Ok _, d) \<Rightarrow> (ASet, d) | (_, d) \<Rightarrow> (AFail, d))
    | OpGet k \<Rightarrow> (case lru_Get k c of (Ok r, d) \<Rightarrow> (AGet r, d) | (_, d) \<Rightarrow> (AFail, d))
    | OpRemove k \<Rightarrow> (case lru_Remove k c of (b, d) \<Rightarrow> (ARemove b, d)))"

definition spec_run :: "int \<Rightarrow> ('k, 'v) lru_op \<Rightarrow> ('k \<times> 'v) list \<Rightarrow> 'v lru_answer \<times> ('k \<times> 'v) list" where
  "spec_run cap opr xs = (case opr of
      OpSet k v \<Rightarrow> (ASet, spec_set cap k v xs)
    | OpGet k \<Rightarrow> (case spec_get k xs of (r, ys) \<Rightarrow> (AGet r, ys))
    | OpRemove k \<Rightarrow> (case spec_remove k xs of (b, ys) \<Rightarrow> (ARemove b, ys)))"

fun run_all :: "('o \<Rightarrow> 's \<Rightarrow> 'a \<times> 's) \<Rightarrow> 'o list \<Rightarrow> 's \<Rightarrow> 'a list \<times> 's" where
  "run_all f [] s = ([], s)"
| "run_all f (x # xs) s = (case f x s of (a, t) \<Rightarrow> (case run_all f xs t of (as, u) \<Rightarrow> (a # as, u)))"

text \<open>The entries of a cache in the order of its list, and the state the operations keep.\<close>

definition entries :: "('k, 'v) LRUCache \<Rightarrow> ('k \<times> 'v) list" where
  "entries c = map ((!) (lc_heap c)) (case lc_dlist c of None \<Rightarrow> [] | Some es \<Rightarrow> es)"

definition lru_wf :: "('k, 'v) LRUCache \<Rightarrow> bool" where
  "lru_wf c \<longleftrightarrow> (\<exists>es m. lc_dlist c = Some es \<and> lc_map c = Some m \<and> (\<forall>e \<in> set es. e < length (lc_heap c)) \<and>
     distinct (map (\<lambda>e. fst (lc_heap c ! e)) es) \<and> (\<forall>k e. m k = Some e \<longleftrightarrow> e \<in> set es \<and> fst (lc_heap c ! e) = k))"

subsection \<open>The cache and its reference agree\<close>

lemma lru_wfE:
  assumes "lru_wf c"
  obtains es m where "lc_dlist c = Some es" "lc_map c = Some m" "\<forall>e \<in> set es. e < length (lc_heap c)"
    "distinct (map (\<lambda>e. fst (lc_heap c ! e)) es)" "distinct es" "\<forall>k e. m k = Some e \<longleftrightarrow> e \<in> set es \<and> fst (lc_heap c ! e) = k"
    "entries c = map ((!) (lc_heap c)) es"
  using assms unfolding lru_wf_def entries_def by (auto simp: distinct_map)

lemma delete_map_nth:
  assumes "inj_on (\<lambda>i. fst (h ! i)) (insert e (set es))"
  shows "AList.delete (fst (h ! e)) (map ((!) h) es) = map ((!) h) (removeAll e es)"
  using assms by (induction es) (auto simp: inj_on_def)

lemma lru_miss:
  assumes "lc_map c = Some m" "\<forall>k e. m k = Some e \<longleftrightarrow> e \<in> set es \<and> fst (lc_heap c ! e) = k" "entries c = map ((!) (lc_heap c)) es"
  shows "m k = None \<longleftrightarrow> k \<notin> fst ` set (entries c)"
proof -
  have "m k \<noteq> None \<longleftrightarrow> (\<exists>e. m k = Some e)" by auto
  also have "\<dots> \<longleftrightarrow> (\<exists>e \<in> set es. fst (lc_heap c ! e) = k)" using assms(2) by auto
  finally show ?thesis using assms(3) by auto
qed

lemma map_of_entries:
  assumes "distinct (map (\<lambda>e. fst (h ! e)) es)" "e \<in> set es"
  shows "map_of (map ((!) h) es) (fst (h ! e)) = Some (snd (h ! e))"
  using assms by (intro map_of_is_SomeI) (auto simp: comp_def)

lemma lru_hit:
  assumes "lru_wf c" "lc_map c = Some m" "m k = Some e"
  shows "lru_wf (c\<lparr>lc_dlist := MoveToFront e (lc_dlist c)\<rparr>)"
    and "entries (c\<lparr>lc_dlist := MoveToFront e (lc_dlist c)\<rparr>) = lc_heap c ! e # AList.delete k (entries c)"
    and "k = fst (lc_heap c ! e)" and "map_of (entries c) k = Some (snd (lc_heap c ! e))" and "e < length (lc_heap c)"
proof -
  obtain es m' where w: "lc_dlist c = Some es" "lc_map c = Some m'" "\<forall>e \<in> set es. e < length (lc_heap c)"
      "distinct (map (\<lambda>e. fst (lc_heap c ! e)) es)" "distinct es" "\<forall>k e. m' k = Some e \<longleftrightarrow> e \<in> set es \<and> fst (lc_heap c ! e) = k"
      "entries c = map ((!) (lc_heap c)) es"
    by (rule lru_wfE [OF assms(1)])
  have e: "e \<in> set es" and k: "fst (lc_heap c ! e) = k" using w assms(2,3) by auto
  show "k = fst (lc_heap c ! e)" and "e < length (lc_heap c)" using e k w by auto
  show "map_of (entries c) k = Some (snd (lc_heap c ! e))" using map_of_entries [OF w(4) e] k w(7) by simp
  have inj: "inj_on (\<lambda>i. fst (lc_heap c ! i)) (set es)" using w(4) by (simp add: distinct_map)
  then have "distinct (map (\<lambda>e. fst (lc_heap c ! e)) (e # removeAll e es))"
    using e w(5) by (auto simp: distinct_map inj_on_def distinct_removeAll)
  then show "lru_wf (c\<lparr>lc_dlist := MoveToFront e (lc_dlist c)\<rparr>)"
    using e w unfolding lru_wf_def MoveToFront_def by (auto simp: w)
  show "entries (c\<lparr>lc_dlist := MoveToFront e (lc_dlist c)\<rparr>) = lc_heap c ! e # AList.delete k (entries c)"
    using delete_map_nth [of "lc_heap c" e es] e inj
    by (simp add: entries_def MoveToFront_def w insert_absorb flip: k)
qed

lemma lru_Get_refines:
  assumes "lru_wf c"
  obtains d where "lru_Get k c = (Ok (fst (spec_get k (entries c))), d)" "lru_wf d" "entries d = snd (spec_get k (entries c))"
    "lc_Capacity d = lc_Capacity c"
proof -
  obtain es m where w: "lc_dlist c = Some es" "lc_map c = Some m"  "\<forall>k e. m k = Some e \<longleftrightarrow> e \<in> set es \<and> fst (lc_heap c ! e) = k"
      "entries c = map ((!) (lc_heap c)) es"
    by (rule lru_wfE [OF assms])
  show ?thesis
  proof (cases "m k")
    case None
    then have "map_of (entries c) k = None" using lru_miss [OF w(2,3,4)] by (simp add: map_of_eq_None_iff)
    then show ?thesis using that [of c] None assms by (simp add: lru_Get_def spec_get_def w(2))
  next
    case (Some e)
    note h = lru_hit [OF assms w(2) Some]
    have "(k, snd (lc_heap c ! e)) = lc_heap c ! e" using h(3) by simp
    then have "spec_get k (entries c) = (Some (snd (lc_heap c ! e)), lc_heap c ! e # AList.delete k (entries c))"
      using h(4) by (simp add: spec_get_def)
    moreover have "lru_Get k c = (Ok (Some (snd (lc_heap c ! e))), c\<lparr>lc_dlist := MoveToFront e (lc_dlist c)\<rparr>)"
      using Some by (simp add: lru_Get_def w(2))
    ultimately show ?thesis using that [OF _ h(1)] h(2) by simp
  qed
qed

lemma lru_drop:
  assumes "lru_wf c" "lc_dlist c = Some es" "lc_map c = Some m" "e \<in> set es"
  shows "lru_wf (c\<lparr>lc_map := Some (m(fst (lc_heap c ! e) := None)), lc_dlist := list_Remove e (lc_dlist c)\<rparr>)"
    and "entries (c\<lparr>lc_map := Some (m(fst (lc_heap c ! e) := None)), lc_dlist := list_Remove e (lc_dlist c)\<rparr>) =
      AList.delete (fst (lc_heap c ! e)) (entries c)"
proof -
  have w: "\<forall>e \<in> set es. e < length (lc_heap c)"
      "distinct (map (\<lambda>e. fst (lc_heap c ! e)) es)" "\<forall>k e. m k = Some e \<longleftrightarrow> e \<in> set es \<and> fst (lc_heap c ! e) = k"
      "entries c = map ((!) (lc_heap c)) es"
    using lru_wfE [OF assms(1)] assms(2,3) by (metis option.inject)+
  have inj: "inj_on (\<lambda>i. fst (lc_heap c ! i)) (set es)" and d: "distinct es" using w(2) by (simp_all add: distinct_map)
  have "distinct (map (\<lambda>e. fst (lc_heap c ! e)) (removeAll e es))"
    using inj d by (auto simp: distinct_map inj_on_def distinct_removeAll)
  moreover have "\<forall>i \<in> set es. fst (lc_heap c ! i) = fst (lc_heap c ! e) \<longrightarrow> i = e" using inj assms(4) by (auto simp: inj_on_def)
  ultimately show "lru_wf (c\<lparr>lc_map := Some (m(fst (lc_heap c ! e) := None)), lc_dlist := list_Remove e (lc_dlist c)\<rparr>)"
    using w assms unfolding lru_wf_def list_Remove_def by auto
  show "entries (c\<lparr>lc_map := Some (m(fst (lc_heap c ! e) := None)), lc_dlist := list_Remove e (lc_dlist c)\<rparr>) =
      AList.delete (fst (lc_heap c ! e)) (entries c)"
    using delete_map_nth [of "lc_heap c" e es] inj assms(4)
    by (simp add: entries_def list_Remove_def assms(2) insert_absorb)
qed

lemma delete_absent: "k \<notin> fst ` set xs \<Longrightarrow> AList.delete k xs = xs"
  by (induction xs) auto

lemma lru_Remove_refines:
  assumes "lru_wf c"
  obtains d where "lru_Remove k c = (fst (spec_remove k (entries c)), d)" "lru_wf d" "entries d = snd (spec_remove k (entries c))"
    "lc_Capacity d = lc_Capacity c"
proof -
  obtain es m where w: "lc_dlist c = Some es" "lc_map c = Some m"  "\<forall>k e. m k = Some e \<longleftrightarrow> e \<in> set es \<and> fst (lc_heap c ! e) = k"
      "entries c = map ((!) (lc_heap c)) es"
    by (rule lru_wfE [OF assms])
  note miss = lru_miss [OF w(2,3,4), of k]
  show ?thesis
  proof (cases "m k")
    case None
    then show ?thesis using that [of c] assms miss by (simp add: lru_Remove_def spec_remove_def w(2) delete_absent)
  next
    case (Some e)
    then have e: "e \<in> set es" and k: "fst (lc_heap c ! e) = k" using w(3) by auto
    note d = lru_drop [OF assms w(1,2) e]
    show ?thesis
      using that [OF _ d(1)] d(2) Some miss by (simp add: lru_Remove_def spec_remove_def w(2) k)
  qed
qed

lemma delete_last:
  assumes "distinct (map fst xs)" "xs \<noteq> []"
  shows "AList.delete (fst (last xs)) xs = butlast xs"
  using assms
proof (induction xs)
  case (Cons x xs)
  show ?case
  proof (cases "xs = []")
    case False
    then have "fst (last xs) \<in> fst ` set xs" by simp
    moreover have "fst x \<notin> fst ` set xs" using Cons.prems(1) by simp
    ultimately have "fst (last xs) \<noteq> fst x" by metis
    then show ?thesis using Cons False by (cases x) auto
  qed (cases x, simp)
qed simp

lemma lru_evict_refines:
  assumes "lru_wf c"
  shows "lru_wf (lru_evict c)"
    "entries (lru_evict c) = (if int (length (entries c)) > lc_Capacity c then butlast (entries c) else entries c)"
    "lc_Capacity (lru_evict c) = lc_Capacity c"
proof -
  obtain es m where w: "lc_dlist c = Some es" "lc_map c = Some m" "distinct (map (\<lambda>e. fst (lc_heap c ! e)) es)"
      "entries c = map ((!) (lc_heap c)) es"
    by (rule lru_wfE [OF assms])
  note d = lru_drop [OF assms w(1,2), of "last es"]
  show "lru_wf (lru_evict c)" using d(1) assms by (simp add: lru_evict_def w(1,2))
  show "lc_Capacity (lru_evict c) = lc_Capacity c" by (simp add: lru_evict_def w(1))
  show "entries (lru_evict c) = (if int (length (entries c)) > lc_Capacity c then butlast (entries c) else entries c)"
    using d(2) delete_last [of "entries c"] w(3)
    by (cases "es = []") (auto simp: lru_evict_def w(1,2) w(4) comp_def last_map)
qed

lemma lru_Set_refines:
  assumes "lru_wf c"
  obtains d where "lru_Set k v c = (Ok (), d)" "lru_wf d" "entries d = spec_set (lc_Capacity c) k v (entries c)"
    "lc_Capacity d = lc_Capacity c"
proof -
  obtain es m where w: "lc_dlist c = Some es" "lc_map c = Some m" "\<forall>e \<in> set es. e < length (lc_heap c)"
      "distinct (map (\<lambda>e. fst (lc_heap c ! e)) es)" "distinct es" "\<forall>k e. m k = Some e \<longleftrightarrow> e \<in> set es \<and> fst (lc_heap c ! e) = k"
      "entries c = map ((!) (lc_heap c)) es"
    by (rule lru_wfE [OF assms])
  note miss = lru_miss [OF w(2,6,7), of k]
  show ?thesis
  proof (cases "m k")
    case None
    define n where "n = length (lc_heap c)"
    define d where "d = c\<lparr>lc_dlist := Some (n # es), lc_heap := lc_heap c @ [(k, v)], lc_map := Some (m(k \<mapsto> n))\<rparr>"
    have same: "\<forall>e \<in> set es. lc_heap d ! e = lc_heap c ! e" and new: "lc_heap d ! n = (k, v)" and n: "n \<notin> set es"
      using w(3) by (auto simp: d_def n_def nth_append)
    have ne: "\<forall>e \<in> set es. fst (lc_heap c ! e) \<noteq> k" using miss None w(7) by auto
    have ent: "entries d = (k, v) # entries c" using same new by (auto simp: entries_def w(1) d_def)
    have "distinct (map (\<lambda>e. fst (lc_heap d ! e)) (n # es))" using w(4) ne same new by (simp cong: map_cong) force
    moreover have "\<forall>k' e. (m(k \<mapsto> n)) k' = Some e \<longleftrightarrow> e \<in> set (n # es) \<and> fst (lc_heap d ! e) = k'"
      using w(6) same new ne n by auto
    moreover have "\<forall>e \<in> set (n # es). e < length (lc_heap d)" using w(3) by (auto simp: d_def n_def)
    ultimately have "lru_wf d" unfolding lru_wf_def by (intro exI conjI) (auto simp: d_def)
    note ev = lru_evict_refines [OF this]
    have "lru_Set k v c = (Ok (), lru_evict d)"
      using None by (simp add: lru_Set_def lookup_element_def w(1,2) d_def n_def Let_def)
    moreover have "lc_Capacity d = lc_Capacity c" by (simp add: d_def)
    ultimately show ?thesis using that [of "lru_evict d"] ev miss None by (simp add: spec_set_def ent add.commute)
  next
    case (Some e)
    note h = lru_hit [OF assms w(2) Some]
    let ?d = "c\<lparr>lc_dlist := MoveToFront e (lc_dlist c)\<rparr>"
    let ?d' = "?d\<lparr>lc_heap := (lc_heap c)[e := (k, v)]\<rparr>"
    have key: "fst ((lc_heap c)[e := (k, v)] ! i) = fst (lc_heap c ! i)" for i
      using h(3,5) by (cases "i = e") auto
    have wf: "lru_wf ?d'" using h(1) unfolding lru_wf_def by (simp add: key)
    have e: "e \<in> set es" using Some w(6) by auto
    have "entries ?d' = (k, v) # map ((!) ((lc_heap c)[e := (k, v)])) (removeAll e es)"
      using h(5) e by (simp add: entries_def MoveToFront_def w(1))
    also have "map ((!) ((lc_heap c)[e := (k, v)])) (removeAll e es) = map ((!) (lc_heap c)) (removeAll e es)"
      by auto
    also have "\<dots> = AList.delete k (entries c)"
      using h(2) e by (simp add: entries_def MoveToFront_def w(1))
    finally have ent: "entries ?d' = (k, v) # AList.delete k (entries c)" .
    have "lru_Set k v c = (Ok (), ?d')"
      using Some h(3) by (simp add: lru_Set_def lookup_element_def w(1,2))
    then show ?thesis using that [OF _ wf] ent miss Some by (simp add: spec_set_def)
  qed
qed

lemma lru_run_refines:
  assumes "lru_wf c"
  obtains d where "lru_run opr c = (fst (spec_run (lc_Capacity c) opr (entries c)), d)" "lru_wf d"
    "entries d = snd (spec_run (lc_Capacity c) opr (entries c))" "lc_Capacity d = lc_Capacity c"
proof (cases opr)
  case (OpSet k v)
  obtain d where "lru_Set k v c = (Ok (), d)" "lru_wf d" "entries d = spec_set (lc_Capacity c) k v (entries c)"
    "lc_Capacity d = lc_Capacity c"
    by (rule lru_Set_refines [OF assms])
  then show ?thesis using that [of d] by (simp add: OpSet lru_run_def spec_run_def)
next
  case (OpGet k)
  obtain d where "lru_Get k c = (Ok (fst (spec_get k (entries c))), d)" "lru_wf d"
    "entries d = snd (spec_get k (entries c))" "lc_Capacity d = lc_Capacity c"
    by (rule lru_Get_refines [OF assms])
  then show ?thesis using that [of d] by (simp add: OpGet lru_run_def spec_run_def case_prod_beta)
next
  case (OpRemove k)
  obtain d where "lru_Remove k c = (fst (spec_remove k (entries c)), d)" "lru_wf d"
    "entries d = snd (spec_remove k (entries c))" "lc_Capacity d = lc_Capacity c"
    by (rule lru_Remove_refines [OF assms])
  then show ?thesis using that [of d] by (simp add: OpRemove lru_run_def spec_run_def case_prod_beta)
qed

lemma run_all_refines:
  assumes "lru_wf c"
  shows "fst (run_all lru_run oprs c) = fst (run_all (spec_run (lc_Capacity c)) oprs (entries c)) \<and>
    lru_wf (snd (run_all lru_run oprs c)) \<and>
    entries (snd (run_all lru_run oprs c)) = snd (run_all (spec_run (lc_Capacity c)) oprs (entries c))"
  using assms
proof (induction oprs arbitrary: c)
  case (Cons opr oprs)
  obtain d where d: "lru_run opr c = (fst (spec_run (lc_Capacity c) opr (entries c)), d)" "lru_wf d"
    "entries d = snd (spec_run (lc_Capacity c) opr (entries c))" "lc_Capacity d = lc_Capacity c"
    by (rule lru_run_refines [OF Cons.prems])
  show ?case using Cons.IH [OF d(2)] d by (simp add: case_prod_beta)
qed simp

lemma new_cache [simp]: "lru_wf (NewLRUCache cap)" "entries (NewLRUCache cap) = []" "lc_Capacity (NewLRUCache cap) = cap"
  by (simp_all add: lru_wf_def NewLRUCache_def entries_def)

lemma delete_shorter: "k \<in> fst ` set xs \<Longrightarrow> length (AList.delete k xs) < length xs"
proof (induction xs)
  case (Cons x xs)
  then show ?case using length_delete_le [of k xs] by (cases "k = fst x") (cases x, simp_all)+
qed simp

lemma spec_set_bound:
  assumes "int (length xs) \<le> max 0 cap"
  shows "int (length (spec_set cap k v xs)) \<le> max 0 cap"
  using assms delete_shorter [of k xs] by (cases "k \<in> fst ` set xs") (simp_all add: spec_set_def)

lemma spec_get_bound: "length (snd (spec_get k xs)) \<le> length xs"
proof (cases "map_of xs k")
  case (Some v)
  then have "k \<in> fst ` set xs" by (metis map_of_eq_None_iff option.distinct(1))
  then show ?thesis using delete_shorter [of k xs] Some by (simp add: spec_get_def)
qed (simp add: spec_get_def)

lemma spec_run_bound:
  assumes "int (length xs) \<le> max 0 cap"
  shows "int (length (snd (spec_run cap opr xs))) \<le> max 0 cap"
proof (cases opr)
  case (OpSet k v)
  then show ?thesis using spec_set_bound [OF assms] by (simp add: spec_run_def)
next
  case (OpGet k)
  then show ?thesis using spec_get_bound [of k xs] assms by (simp add: spec_run_def case_prod_beta)
next
  case (OpRemove k)
  then show ?thesis using length_delete_le [of k xs] assms by (simp add: spec_run_def spec_remove_def)
qed

lemma run_all_bound:
  "int (length xs) \<le> max 0 cap \<Longrightarrow> int (length (snd (run_all (spec_run cap) oprs xs))) \<le> max 0 cap"
proof (induction oprs arbitrary: xs)
  case (Cons opr oprs)
  show ?case using Cons.IH [OF spec_run_bound [OF Cons.prems, of opr]] by (simp add: case_prod_beta)
qed simp

text \<open>C32. A cache made by \<open>NewLRUCache\<close> answers every sequence of \<open>Set\<close>, \<open>Get\<close> and \<open>Remove\<close> as the list of the entries
  in the order of their last use does, and never fails.\<close>

theorem cache_is_recency_list:
  "fst (run_all lru_run oprs (NewLRUCache cap)) = fst (run_all (spec_run cap) oprs [])"
  using run_all_refines [of "NewLRUCache cap" oprs] by simp

text \<open>C37. After any sequence of operations the cache holds at most as many entries as its capacity, a capacity below zero
  counting as zero, and its size is the number of entries.\<close>

theorem cache_within_capacity:
  "\<exists>n. lru_Size (snd (run_all lru_run oprs (NewLRUCache cap))) = Ok n \<and> 0 \<le> n \<and> n \<le> max 0 cap"
proof -
  let ?d = "snd (run_all lru_run oprs (NewLRUCache cap :: ('a, 'b) LRUCache))"
  have wf: "lru_wf ?d" using run_all_refines [of "NewLRUCache cap" oprs] by simp
  have "int (length (entries ?d)) \<le> max 0 cap"
    using run_all_refines [of "NewLRUCache cap" oprs] run_all_bound [of "[]" cap oprs] by simp
  then show ?thesis using wf by (auto simp: lru_wf_def lru_Size_def entries_def)
qed

subsection \<open>The service\<close>

text \<open>
  The cache of the service is a map in memory or a redis server, as the configuration says. The
  server is accessed with the two operations the authentication service uses too, and a client that
  is nil is \<open>None\<close>. The database answers a search by one field of its documents, \<open>None\<close> for every
  error, and can be unreachable.
\<close>

record Quto =
  qu_QutoId :: string
  qu_BrokerId :: string
  qu_Key :: string
  qu_Value :: "64 word"

datatype quto_error = BadCacheId string | BadPolicy | RedisError | ParseError | NoDatabase | NotFound

record 'r qutoService =
  qs_config :: config
  qs_cachePolicy :: string
  qs_cacheMap :: "string \<rightharpoonup> 64 word"
  qs_rclient :: "'r option"

record 'r quto_deps =
  q_redis :: "'r redis"
  q_connect :: "string \<Rightarrow> string \<Rightarrow> int \<Rightarrow> 'r option"
  q_dial :: "string \<Rightarrow> int \<Rightarrow> bool"
  q_find :: "string \<Rightarrow> string \<Rightarrow> Quto option"

definition cachePolicyMemory :: string where "cachePolicyMemory = ''memory''"

definition cachePolicyRedis :: string where "cachePolicyRedis = ''redis''"

text \<open>Opening a session with the database, which both the constructor and the two readers do first.\<close>

definition open_database :: "'r quto_deps \<Rightarrow> config \<Rightarrow> (quto_error, unit) outcome" where
  "open_database d c = (case MustString ''mongo'' c of
      Ok hosts \<Rightarrow> (case MustInt ''connect_timeout'' c of
          Ok timeout \<Rightarrow> if q_dial d hosts timeout then Ok () else Err NoDatabase
        | _ \<Rightarrow> Panic)
    | _ \<Rightarrow> Panic)"

definition cache_policy :: "config \<Rightarrow> string" where
  "cache_policy c = (case StringWithSection ''quto'' ''cace_policy'' c of
      Ok v \<Rightarrow> if v = cachePolicyRedis then cachePolicyRedis else cachePolicyMemory
    | _ \<Rightarrow> cachePolicyMemory)"

definition connect_redis :: "'r quto_deps \<Rightarrow> config \<Rightarrow> (quto_error, 'r) outcome" where
  "connect_redis d c =
     (let addr = (case cfg_String ''redis'' c of Ok a \<Rightarrow> a | _ \<Rightarrow> []) in
      case MustStringWithSection ''quto'' ''redis_password'' c of
        Ok password \<Rightarrow> (case MustIntWithSection ''quto'' ''redis_db'' c of
            Ok db \<Rightarrow> (case q_connect d addr password db of None \<Rightarrow> Err RedisError | Some r \<Rightarrow> Ok r)
          | _ \<Rightarrow> Panic)
      | _ \<Rightarrow> Panic)"

definition newQutoService :: "'r quto_deps \<Rightarrow> config \<Rightarrow> (quto_error, 'r qutoService) outcome" where
  "newQutoService d c = (case open_database d c of
      Ok _ \<Rightarrow>
        (let policy = cache_policy c;
             svc = (\<lambda>rc. \<lparr>qs_config = c, qs_cachePolicy = policy, qs_cacheMap = Map.empty, qs_rclient = rc\<rparr>) in
         if policy = cachePolicyRedis
         then (case connect_redis d c of Ok r \<Rightarrow> Ok (svc (Some r)) | Err e \<Rightarrow> Err e | Panic \<Rightarrow> Panic)
         else Ok (svc None))
    | Err e \<Rightarrow> Err e
    | Panic \<Rightarrow> Panic)"

definition getCacheItem :: "'r quto_deps \<Rightarrow> string \<Rightarrow> 'r qutoService \<Rightarrow> (quto_error, 64 word) outcome" where
  "getCacheItem d ident s =
     (if qs_cachePolicy s = cachePolicyMemory
      then (case qs_cacheMap s ident of None \<Rightarrow> Err (BadCacheId ident) | Some v \<Rightarrow> Ok v)
      else if qs_cachePolicy s = cachePolicyRedis
      then (case qs_rclient s of
              None \<Rightarrow> Panic
            | Some r \<Rightarrow> (case rd_get (q_redis d) ident r of
                None \<Rightarrow> Err RedisError
              | Some val \<Rightarrow> (case ParseUint val of None \<Rightarrow> Err ParseError | Some v \<Rightarrow> Ok v)))
      else Err BadPolicy)"

definition setCacheItem :: "'r quto_deps \<Rightarrow> string \<Rightarrow> 64 word \<Rightarrow> ('r qutoService, quto_error, unit) go" where
  "setCacheItem d ident val s =
     (if qs_cachePolicy s = cachePolicyMemory then (Ok (), s\<lparr>qs_cacheMap := (qs_cacheMap s)(ident \<mapsto> val)\<rparr>)
      else if qs_cachePolicy s = cachePolicyRedis
      then (case qs_rclient s of
              None \<Rightarrow> (Panic, s)
            | Some r \<Rightarrow> (Ok (), s\<lparr>qs_rclient := Some (rd_set (q_redis d) ident (decimal (unat val)) r)\<rparr>))
      else (Ok (), s))"

definition handleQutoChanged :: "'r quto_deps \<Rightarrow> event \<Rightarrow> ('r qutoService, quto_error, unit) go" where
  "handleQutoChanged d e s = (case e of
      QutoChange t \<Rightarrow>
        (case open_database d (qs_config s) of
           Ok _ \<Rightarrow> (case q_find d ''qutoId'' (qc_QutoId t) of
               None \<Rightarrow> (Ok (), s)
             | Some quto \<Rightarrow> setCacheItem d (qu_Key quto) (qu_Value quto) s)
         | Err _ \<Rightarrow> (Ok (), s)
         | Panic \<Rightarrow> (Panic, s))
    | _ \<Rightarrow> (Panic, s))"

definition getQuto :: "'r quto_deps \<Rightarrow> string \<Rightarrow> ('r qutoService, quto_error, 64 word) go" where
  "getQuto d ident s = (case getCacheItem d ident s of
      Ok val \<Rightarrow> (Ok val, s)
    | Panic \<Rightarrow> (Panic, s)
    | Err _ \<Rightarrow>
        (case open_database d (qs_config s) of
           Ok _ \<Rightarrow> (case q_find d ''Key'' ident of
               None \<Rightarrow> (Err NotFound, s)
             | Some quto \<Rightarrow> seqM (setCacheItem d ident (qu_Value quto)) (\<lambda>_. retM (qu_Value quto)) s)
         | Err e \<Rightarrow> (Err e, s)
         | Panic \<Rightarrow> (Panic, s)))"

definition checkQuto :: "string \<Rightarrow> 64 word \<Rightarrow> 'r qutoService \<Rightarrow> bool" where
  "checkQuto ident value s = True"

text \<open>The services the constructor makes: a cache in memory, or a client for redis.\<close>

definition quto_wf :: "'r qutoService \<Rightarrow> bool" where
  "quto_wf s \<longleftrightarrow> qs_cachePolicy s = cachePolicyMemory \<or> qs_cachePolicy s = cachePolicyRedis \<and> qs_rclient s \<noteq> None"

lemma policies_differ [simp]: "cachePolicyMemory \<noteq> cachePolicyRedis" "cachePolicyRedis \<noteq> cachePolicyMemory"
  by (simp_all add: cachePolicyMemory_def cachePolicyRedis_def)

lemma newQutoService_wf: "newQutoService d c = Ok s \<Longrightarrow> quto_wf s \<and> qs_config s = c"
  by (auto simp: newQutoService_def quto_wf_def cache_policy_def Let_def split: outcome.splits if_splits)

lemma set_cache_item:
  assumes "quto_wf s" "redis_laws (q_redis d)"
  obtains t where "setCacheItem d k v s = (Ok (), t)" "quto_wf t" "getCacheItem d k t = Ok v"
    "\<And>j. j \<noteq> k \<Longrightarrow> getCacheItem d j t = getCacheItem d j s" "qs_config t = qs_config s"
proof (cases "qs_cachePolicy s = cachePolicyMemory")
  case True
  then show ?thesis
    using that [of "s\<lparr>qs_cacheMap := (qs_cacheMap s)(k \<mapsto> v)\<rparr>"] by (simp add: setCacheItem_def getCacheItem_def quto_wf_def)
next
  case False
  then obtain r where "qs_cachePolicy s = cachePolicyRedis" "qs_rclient s = Some r" using assms(1) by (auto simp: quto_wf_def)
  then show ?thesis
    using that [of "s\<lparr>qs_rclient := Some (rd_set (q_redis d) k (decimal (unat v)) r)\<rparr>"] assms(2)
    by (simp add: setCacheItem_def getCacheItem_def quto_wf_def redis_laws_def)
qed

text \<open>Whatever the cache, when the service is told that a quota changed and the database has the quota, the quota of
  its key is the new value from then on, without any help of the database, and the cached quotas of the other keys are as before.\<close>

theorem quota_change_is_cached:
  assumes "newQutoService d c = Ok s\<^sub>0" "redis_laws (q_redis d)"
    and "quto_wf s" "qs_config s = c" "q_find d ''qutoId'' (qc_QutoId t) = Some quto"
  shows "\<exists>s'. handleQutoChanged d (QutoChange t) s = (Ok (), s') \<and> quto_wf s' \<and>
    (\<forall>find. getQuto (d\<lparr>q_find := find\<rparr>) (qu_Key quto) s' = (Ok (qu_Value quto), s')) \<and>
    (\<forall>k. k \<noteq> qu_Key quto \<longrightarrow> getCacheItem d k s' = getCacheItem d k s)"
proof -
  have dial: "open_database d c = Ok ()" using assms(1) by (simp add: newQutoService_def split: outcome.splits)
  obtain s' where s': "setCacheItem d (qu_Key quto) (qu_Value quto) s = (Ok (), s')" "quto_wf s'"
    "getCacheItem d (qu_Key quto) s' = Ok (qu_Value quto)"
    "\<And>j. j \<noteq> qu_Key quto \<Longrightarrow> getCacheItem d j s' = getCacheItem d j s" "qs_config s' = qs_config s"
    by (rule set_cache_item [OF assms(3,2), of "qu_Key quto" "qu_Value quto"]) blast
  have "getCacheItem (d\<lparr>q_find := find\<rparr>) k s' = getCacheItem d k s'" for find k by (simp add: getCacheItem_def split: option.split)
  then show ?thesis using s' dial assms(4,5) by (intro exI [of _ s']) (simp add: handleQutoChanged_def getQuto_def)
qed

definition sample_quto :: Quto where
  "sample_quto = \<lparr>qu_QutoId = ''q1'', qu_BrokerId = ''b'', qu_Key = ''max_connections'', qu_Value = 1000\<rparr>"

definition sample_quto_deps :: "(string \<times> string) list quto_deps" where
  "sample_quto_deps = \<lparr>q_redis = map_redis, q_connect = (\<lambda>_ _ _. Some []), q_dial = (\<lambda>_ _. True),
     q_find = (\<lambda>field v. if field = ''qutoId'' \<and> v = ''q1'' then Some sample_quto else None)\<rparr>"

definition sample_quto_config :: config where
  "sample_quto_config = AddConfigItemWithSection ''quto'' ''redis_db'' (Some (CInt 0))
     (AddConfigItemWithSection ''quto'' ''redis_password'' (Some (CStr []))
     (AddConfigItemWithSection ''quto'' ''cace_policy'' (Some (CStr ''redis''))
     (AddConfigItem ''connect_timeout'' (Some (CInt 5)) (AddConfigItem ''mongo'' (Some (CStr ''localhost'')) (newConfig ''broker'')))))"

lemma sample_quto_service:
  "newQutoService sample_quto_deps sample_quto_config =
     Ok \<lparr>qs_config = sample_quto_config, qs_cachePolicy = cachePolicyRedis, qs_cacheMap = Map.empty, qs_rclient = Some []\<rparr>"
  by (simp add: newQutoService_def open_database_def MustString_def MustInt_def MustStringWithSection_def MustIntWithSection_def
    StringWithSection_def IntWithSection_def checkItemExist_def must_def sample_quto_config_def sample_quto_deps_def
    AddConfigItem_def AddConfigItemWithSection_def make_section_def put_item_def section_of_def newConfig_def Let_def
    cache_policy_def cachePolicyRedis_def cachePolicyMemory_def connect_redis_def cfg_String_def)

theorem quota_change_is_cached_witness:
  "\<exists>s s'. newQutoService sample_quto_deps sample_quto_config = Ok s \<and>
     handleQutoChanged sample_quto_deps (QutoChange \<lparr>qc_BrokerId = [], qc_Type = 6, qc_ClientId = [],
       qc_Persistent = False, qc_QutoId = ''q1''\<rparr>) s = (Ok (), s') \<and>
     getQuto sample_quto_deps ''max_connections'' s' = (Ok 1000, s')"
proof -
  let ?s = "\<lparr>qs_config = sample_quto_config, qs_cachePolicy = cachePolicyRedis, qs_cacheMap = Map.empty, qs_rclient = Some []\<rparr>"
  let ?t = "\<lparr>qc_BrokerId = [], qc_Type = 6, qc_ClientId = [], qc_Persistent = False, qc_QutoId = ''q1''\<rparr>"
  have laws: "redis_laws (q_redis sample_quto_deps)" by (simp add: redis_laws_def sample_quto_deps_def map_redis_def)
  have wf: "quto_wf ?s" by (simp add: quto_wf_def)
  have found: "q_find sample_quto_deps ''qutoId'' (qc_QutoId ?t) = Some sample_quto" by (simp add: sample_quto_deps_def)
  obtain s' where s': "handleQutoChanged sample_quto_deps (QutoChange ?t) ?s = (Ok (), s')"
    "\<forall>find. getQuto (sample_quto_deps\<lparr>q_find := find\<rparr>) (qu_Key sample_quto) s' = (Ok (qu_Value sample_quto), s')"
    using quota_change_is_cached [OF sample_quto_service laws wf _ found] by auto
  have "getQuto sample_quto_deps ''max_connections'' s' = (Ok 1000, s')"
    using s'(2) [rule_format, of "q_find sample_quto_deps"] by (simp add: sample_quto_def)
  then show ?thesis using sample_quto_service s'(1) by blast
qed

end
