(* ===== verification/Message_Bus.thy ===== *)
theory Message_Bus
  imports Go_Config Go_Json "HOL-Library.Monad_Syntax"
begin

text \<open>
  The messages between the services and the way they travel (\<^verbatim>\<open>src/pkg/message\<close>): the four kinds of
  messages with their JSON form, the producer that writes them to a topic of kafka and the consumer
  that reads them from there. The kafka client is a parameter. A closure in a \<^verbatim>\<open>for\<close> loop refers
  to the one loop variable, as in the versions of Go the repository is written for.
\<close>

subsection \<open>Messages\<close>

record TenantMsg =
  mt_TopicName :: string
  mt_TenantId :: string
  mt_Action :: string

record ProductMsg =
  mp_TopicName :: string
  mp_ProductId :: string
  mp_Action :: string
  mp_TenantId :: string
  mp_Replicas :: "32 word"

record RuleMsg =
  mr_TopicName :: string
  mr_RuleName :: string
  mr_ProductId :: string
  mr_Action :: string

record BrokerMessage =
  mb_TopicName :: string
  mb_EventType :: "32 word"
  mb_Payload :: bytes

datatype message = MTenant TenantMsg | MProduct ProductMsg | MRule RuleMsg | MBroker BrokerMessage

definition TopicNameTenant :: string where "TopicNameTenant = ''sentel-iot-tenant''"
definition TopicNameProduct :: string where "TopicNameProduct = ''sentel-iot-product''"
definition TopicNameRule :: string where "TopicNameRule = ''sentel-iot-rule''"

definition ActionCreate :: string where "ActionCreate = ''register''"
definition ActionRemove :: string where "ActionRemove = ''unregister''"
definition ActionUpdate :: string where "ActionUpdate = ''update''"
definition ActionStart :: string where "ActionStart = ''start''"
definition ActionStop :: string where "ActionStop = ''stop''"

fun Topic :: "message \<Rightarrow> string" where
  "Topic (MTenant _) = TopicNameTenant"
| "Topic (MProduct _) = TopicNameProduct"
| "Topic (MRule _) = TopicNameRule"
| "Topic (MBroker b) = mb_TopicName b"

fun SetTopic :: "string \<Rightarrow> message \<Rightarrow> message" where
  "SetTopic name (MBroker b) = MBroker (b\<lparr>mb_TopicName := name\<rparr>)"
| "SetTopic name m = m"

text \<open>The factory of the consumers: what a topic name creates.\<close>

definition CreateMessage :: "string \<Rightarrow> message" where
  "CreateMessage topicName =
     (if topicName = TopicNameTenant then MTenant \<lparr>mt_TopicName = [], mt_TenantId = [], mt_Action = []\<rparr>
      else if topicName = TopicNameProduct
      then MProduct \<lparr>mp_TopicName = [], mp_ProductId = [], mp_Action = [], mp_TenantId = [], mp_Replicas = 0\<rparr>
      else if topicName = TopicNameRule
      then MRule \<lparr>mr_TopicName = [], mr_RuleName = [], mr_ProductId = [], mr_Action = []\<rparr>
      else MBroker \<lparr>mb_TopicName = topicName, mb_EventType = 0, mb_Payload = []\<rparr>)"

subsection \<open>JSON\<close>

definition j_int32 :: "32 word \<Rightarrow> json" where "j_int32 w = JNum (sint w)"

fun as_int32 :: "json \<Rightarrow> 32 word \<Rightarrow> 32 word option" where
  "as_int32 JNull a = Some a"
| "as_int32 (JNum n) a = (if - (2 ^ 31) \<le> n \<and> n < 2 ^ 31 then Some (word_of_int n) else None)"
| "as_int32 _ a = None"

datatype msg_error = BadCodec | BadJson | NoKafka | BadProducer | SendFailed | AlreadySubscribed string | NoConsumer

text \<open>The serialization format; only JSON is known.\<close>

fun marshal_message :: "message \<Rightarrow> json" where
  "marshal_message (MTenant m) = JObj [(''TopicName'', j_str (mt_TopicName m)), (''productId'', j_str (mt_TenantId m)),
     (''action'', j_str (mt_Action m))]"
| "marshal_message (MProduct m) = JObj [(''TopicName'', j_str (mp_TopicName m)), (''productId'', j_str (mp_ProductId m)),
     (''action'', j_str (mp_Action m)), (''tenantId'', j_str (mp_TenantId m)), (''replicas'', j_int32 (mp_Replicas m))]"
| "marshal_message (MRule m) = JObj [(''TopicName'', j_str (mr_TopicName m)), (''ruleName'', j_str (mr_RuleName m)),
     (''productId'', j_str (mr_ProductId m)), (''action'', j_str (mr_Action m))]"
| "marshal_message (MBroker m) = JObj [(''TopicName'', j_str (mb_TopicName m)), (''eventType'', j_word (mb_EventType m)),
     (''payload'', j_bytes (mb_Payload m))]"

text \<open>Reading fills the object it is given: a field without a member keeps its value.\<close>

fun unmarshal_message :: "json \<Rightarrow> message \<Rightarrow> message option" where
  "unmarshal_message j (MTenant m) = do {
     a \<leftarrow> read_member as_str (mt_TopicName m) ''TopicName'' j;
     b \<leftarrow> read_member as_str (mt_TenantId m) ''productId'' j;
     c \<leftarrow> read_member as_str (mt_Action m) ''action'' j;
     Some (MTenant \<lparr>mt_TopicName = a, mt_TenantId = b, mt_Action = c\<rparr>) }"
| "unmarshal_message j (MProduct m) = do {
     a \<leftarrow> read_member as_str (mp_TopicName m) ''TopicName'' j;
     b \<leftarrow> read_member as_str (mp_ProductId m) ''productId'' j;
     c \<leftarrow> read_member as_str (mp_Action m) ''action'' j;
     d \<leftarrow> read_member as_str (mp_TenantId m) ''tenantId'' j;
     e \<leftarrow> read_member as_int32 (mp_Replicas m) ''replicas'' j;
     Some (MProduct \<lparr>mp_TopicName = a, mp_ProductId = b, mp_Action = c, mp_TenantId = d, mp_Replicas = e\<rparr>) }"
| "unmarshal_message j (MRule m) = do {
     a \<leftarrow> read_member as_str (mr_TopicName m) ''TopicName'' j;
     b \<leftarrow> read_member as_str (mr_RuleName m) ''ruleName'' j;
     c \<leftarrow> read_member as_str (mr_ProductId m) ''productId'' j;
     d \<leftarrow> read_member as_str (mr_Action m) ''action'' j;
     Some (MRule \<lparr>mr_TopicName = a, mr_RuleName = b, mr_ProductId = c, mr_Action = d\<rparr>) }"
| "unmarshal_message j (MBroker m) = do {
     a \<leftarrow> read_member as_str (mb_TopicName m) ''TopicName'' j;
     b \<leftarrow> read_member as_word (mb_EventType m) ''eventType'' j;
     c \<leftarrow> read_member as_bytes (mb_Payload m) ''payload'' j;
     Some (MBroker \<lparr>mb_TopicName = a, mb_EventType = b, mb_Payload = c\<rparr>) }"

definition Serialize :: "message \<Rightarrow> string \<Rightarrow> (msg_error, json) outcome" where
  "Serialize m format = (if format = ''json'' then Ok (marshal_message m) else Err BadCodec)"

definition Deserialize :: "json option \<Rightarrow> string \<Rightarrow> message \<Rightarrow> (msg_error, message) outcome" where
  "Deserialize buf format obj =
     (if format = ''json''
      then (case buf of
              None \<Rightarrow> Err BadJson
            | Some j \<Rightarrow> if is_struct j then (case unmarshal_message j obj of None \<Rightarrow> Err BadJson | Some m \<Rightarrow> Ok m) else Err BadJson)
      else Err BadCodec)"

subsection \<open>Producing\<close>

text \<open>What the kafka client offers: connecting to hosts, sending and waiting, and handing over without waiting.\<close>

record 'k kafka =
  kf_dial :: "string list \<Rightarrow> bool \<Rightarrow> 'k \<Rightarrow> bool"
  kf_send :: "(string \<times> json) list \<Rightarrow> ('k, msg_error, unit) go"
  kf_input :: "string \<times> json \<Rightarrow> 'k \<Rightarrow> 'k"
  kf_partitions :: "string \<Rightarrow> 'k \<Rightarrow> nat option"
  kf_consume :: "string \<Rightarrow> nat \<Rightarrow> 'k \<Rightarrow> bool"

record kafkaProducer =
  kp_khosts :: string
  kp_clientId :: string
  kp_sync :: bool
  kp_syncProducer :: bool
  kp_asyncProducer :: bool

definition newKafkaProducer :: "'k kafka \<Rightarrow> config \<Rightarrow> string \<Rightarrow> bool \<Rightarrow> 'k \<Rightarrow> (msg_error, kafkaProducer) outcome" where
  "newKafkaProducer kf c clientId sync k = (case cfg_String ''kafka'' c of
      Ok khosts \<Rightarrow>
        (if khosts = [] then Err NoKafka
         else if kf_dial kf (split_on (CHR '','') khosts) sync k
         then Ok \<lparr>kp_khosts = khosts, kp_clientId = clientId, kp_sync = sync, kp_syncProducer = sync, kp_asyncProducer = \<not> sync\<rparr>
         else Err NoKafka)
    | _ \<Rightarrow> Err NoKafka)"

definition kp_SendMessage :: "'k kafka \<Rightarrow> kafkaProducer \<Rightarrow> message \<Rightarrow> ('k, msg_error, unit) go" where
  "kp_SendMessage kf p m k = (case Serialize m ''json'' of
      Ok v \<Rightarrow>
        (if kp_sync p \<and> kp_syncProducer p then kf_send kf [(Topic m, v)] k
         else if kp_asyncProducer p then (Ok (), kf_input kf (Topic m, v) k)
         else (Err BadProducer, k))
    | Err e \<Rightarrow> (Err e, k)
    | Panic \<Rightarrow> (Panic, k))"

definition serialize_all :: "message list \<Rightarrow> (msg_error, (string \<times> json) list) outcome" where
  "serialize_all ms = foldr (\<lambda>m r. case Serialize m ''json'' of
      Ok v \<Rightarrow> (case r of Ok vs \<Rightarrow> Ok ((Topic m, v) # vs) | Err e \<Rightarrow> Err e | Panic \<Rightarrow> Panic)
    | Err e \<Rightarrow> Err e | Panic \<Rightarrow> Panic) ms (Ok [])"

definition kp_SendMessages :: "'k kafka \<Rightarrow> kafkaProducer \<Rightarrow> message list \<Rightarrow> ('k, msg_error, unit) go" where
  "kp_SendMessages kf p ms k = (case serialize_all ms of
      Ok vs \<Rightarrow>
        (if kp_sync p \<and> kp_syncProducer p then kf_send kf vs k
         else if kp_asyncProducer p then (Ok (), foldl (\<lambda>k v. kf_input kf v k) k vs)
         else (Err BadProducer, k))
    | Err e \<Rightarrow> (Err e, k)
    | Panic \<Rightarrow> (Panic, k))"

text \<open>The error of a producer that cannot be made is assigned to a variable of the inner scope and is not returned.\<close>

definition PostMessage :: "'k kafka \<Rightarrow> config \<Rightarrow> message \<Rightarrow> ('k, msg_error, unit) go" where
  "PostMessage kf c m k = (case newKafkaProducer kf c [] False k of Ok p \<Rightarrow> kp_SendMessage kf p m k | _ \<Rightarrow> (Ok (), k))"

definition PostMessages :: "'k kafka \<Rightarrow> config \<Rightarrow> message list \<Rightarrow> ('k, msg_error, unit) go" where
  "PostMessages kf c ms k = (case newKafkaProducer kf c [] False k of Ok p \<Rightarrow> kp_SendMessages kf p ms k | _ \<Rightarrow> (Ok (), k))"

definition SendMessage :: "'k kafka \<Rightarrow> config \<Rightarrow> message \<Rightarrow> ('k, msg_error, unit) go" where
  "SendMessage kf c m k = (case newKafkaProducer kf c [] True k of Ok p \<Rightarrow> kp_SendMessage kf p m k | _ \<Rightarrow> (Ok (), k))"

definition SendMessages :: "'k kafka \<Rightarrow> config \<Rightarrow> message list \<Rightarrow> ('k, msg_error, unit) go" where
  "SendMessages kf c ms k = (case newKafkaProducer kf c [] True k of Ok p \<Rightarrow> kp_SendMessages kf p ms k | _ \<Rightarrow> (Ok (), k))"

subsection \<open>Consuming\<close>

text \<open>
  Handlers are identified by numbers. The subscribers are in the order in which the map is iterated; the
  consumers of the partitions that run are the started ones, each with its subscriber.
\<close>

record subscriber =
  sb_topic :: string
  sb_handler :: "nat option"
  sb_clientId :: string

record kafkaConsumer =
  kc_khosts :: string
  kc_clientId :: string
  kc_subscribers :: "(string \<times> subscriber) list"

definition newKafkaConsumer :: "config \<Rightarrow> string \<Rightarrow> (msg_error, kafkaConsumer) outcome" where
  "newKafkaConsumer c clientId = (case cfg_String ''kafka'' c of
      Ok khosts \<Rightarrow> if khosts = [] then Err NoKafka else Ok \<lparr>kc_khosts = khosts, kc_clientId = clientId, kc_subscribers = []\<rparr>
    | _ \<Rightarrow> Err NoKafka)"

definition kc_Subscribe :: "'k kafka \<Rightarrow> 'k \<Rightarrow> string \<Rightarrow> nat option \<Rightarrow> (kafkaConsumer, msg_error, unit) go" where
  "kc_Subscribe kf k topic handler p =
     (if map_of (kc_subscribers p) topic \<noteq> None then (Err (AlreadySubscribed topic), p)
      else if kf_dial kf (split_on (CHR '','') (kc_khosts p)) True k
      then (Ok (), p\<lparr>kc_subscribers := kc_subscribers p @ [(topic, \<lparr>sb_topic = topic, sb_handler = handler,
        sb_clientId = kc_clientId p @ ''_'' @ decimal (length (kc_subscribers p))\<rparr>)]\<rparr>)
      else (Err NoConsumer, p))"

text \<open>The loop over the partitions of a topic: the consumers it starts, and whether it went to the end.\<close>

fun start_partitions :: "'k kafka \<Rightarrow> 'k \<Rightarrow> string \<Rightarrow> subscriber \<Rightarrow> nat list \<Rightarrow> bool \<times> (subscriber \<times> nat) list" where
  "start_partitions kf k topic sub [] = (True, [])"
| "start_partitions kf k topic sub (i # is) =
     (if kf_consume kf topic i k
      then (case start_partitions kf k topic sub is of (b, ps) \<Rightarrow> (b, (sub, i) # ps))
      else (False, []))"

text \<open>The loop over the subscribers gives, with its result, the value its variable \<^verbatim>\<open>topic\<close> is left with.\<close>

fun kc_Start :: "'k kafka \<Rightarrow> 'k \<Rightarrow> string \<Rightarrow> (string \<times> subscriber) list \<Rightarrow> (msg_error, unit) outcome \<times> string \<times> (subscriber \<times> nat) list" where
  "kc_Start kf k topic [] = (Ok (), topic, [])"
| "kc_Start kf k _ ((topic, sub) # subs) =
     (let n = (case kf_partitions kf topic k of None \<Rightarrow> 0 | Some n \<Rightarrow> n) in
      case start_partitions kf k topic sub [0..<n] of
        (True, ps) \<Rightarrow> (case kc_Start kf k topic subs of (r, t, qs) \<Rightarrow> (r, t, ps @ qs))
      | (False, ps) \<Rightarrow> (Err NoConsumer, topic, ps))"

text \<open>One message that arrives for a started consumer: the call of its handler, if there is one.\<close>

definition on_message :: "string \<Rightarrow> subscriber \<Rightarrow> json option \<Rightarrow> (nat \<times> message) list" where
  "on_message topic s value = (case sb_handler s of
      None \<Rightarrow> []
    | Some h \<Rightarrow> (case Deserialize value ''json'' (CreateMessage topic) of Ok m \<Rightarrow> [(h, m)] | _ \<Rightarrow> []))"

subsection \<open>Properties\<close>

lemma message_names [simp]:
  "fold_name ''TopicName'' = ''TOPICNAME''" "fold_name ''productId'' = ''PRODUCTID''" "fold_name ''action'' = ''ACTION''"
  "fold_name ''tenantId'' = ''TENANTID''" "fold_name ''replicas'' = ''REPLICAS''" "fold_name ''ruleName'' = ''RULENAME''"
  "fold_name ''eventType'' = ''EVENTTYPE''" "fold_name ''payload'' = ''PAYLOAD''"
  by (simp_all add: fold_name.simps upper_char_def)

lemma as_int32_written [simp]: "as_int32 (j_int32 w) a = Some w"
  using sint_ge [of w] sint_lt [of w] by (simp add: j_int32_def)

fun message_strings :: "message \<Rightarrow> string list" where
  "message_strings (MTenant m) = [mt_TopicName m, mt_TenantId m, mt_Action m]"
| "message_strings (MProduct m) = [mp_TopicName m, mp_ProductId m, mp_Action m, mp_TenantId m]"
| "message_strings (MRule m) = [mr_TopicName m, mr_RuleName m, mr_ProductId m, mr_Action m]"
| "message_strings (MBroker m) = [mb_TopicName m]"

definition proper :: "message \<Rightarrow> bool" where
  "proper m \<longleftrightarrow> map json_string (message_strings m) = message_strings m \<and>
     (case m of MBroker b \<Rightarrow> mb_TopicName b \<notin> {TopicNameTenant, TopicNameProduct, TopicNameRule} | _ \<Rightarrow> True)"

lemmas topic_names = TopicNameTenant_def TopicNameProduct_def TopicNameRule_def

lemma deserialize_serialize:
  "proper m \<Longrightarrow> Deserialize (Some (marshal_message m)) ''json'' (CreateMessage (Topic m)) = Ok m"
  by (cases m) (auto simp: proper_def Deserialize_def CreateMessage_def topic_names read_member_def)

lemma start_partitions_subscriber: "start_partitions kf k topic sub is = (b, ps) \<Longrightarrow> (s, i) \<in> set ps \<Longrightarrow> s = sub"
  by (induction "is" arbitrary: b ps) (auto split: if_splits prod.splits)

lemma start_one:
  assumes "kc_Start kf k t0 [(topic, sub)] = (Ok (), t, started)"
  shows "t = topic" "(s, i) \<in> set started \<Longrightarrow> s = sub"
proof -
  obtain b ps where st: "start_partitions kf k topic sub [0..<(case kf_partitions kf topic k of None \<Rightarrow> 0 | Some n \<Rightarrow> n)] = (b, ps)"
    by fastforce
  then have "b" "t = topic" "started = ps" using assms by (cases b; simp add: Let_def)+
  then show "t = topic" "(s, i) \<in> set started \<Longrightarrow> s = sub" using start_partitions_subscriber [OF st] by simp_all
qed

text \<open>C21. What is sent to a topic arrives: a consumer that subscribed to the topic of a message and was started hands the
  message, read back from the form it was sent in, to its handler, in whichever partition it comes in. The strings of the message
  have to be UTF-8, and a broker event must not use one of the three reserved topics.\<close>

theorem message_reaches_handler:
  assumes "newKafkaConsumer c clientId = Ok p\<^sub>0" "kc_Subscribe kf k (Topic m) (Some h) p\<^sub>0 = (Ok (), p)"
    "kc_Start kf k [] (kc_subscribers p) = (Ok (), t, started)" "(s, i) \<in> set started"
    "proper m" "Serialize m ''json'' = Ok v"
  shows "on_message t s (Some v) = [(h, m)]"
proof -
  have "kc_subscribers p\<^sub>0 = []" using assms(1) by (auto simp: newKafkaConsumer_def split: outcome.splits if_splits)
  then obtain sub where sub: "kc_subscribers p = [(Topic m, sub)]" "sb_handler sub = Some h"
    using assms(2) by (auto simp: kc_Subscribe_def split: if_splits)
  have start: "kc_Start kf k [] [(Topic m, sub)] = (Ok (), t, started)" using assms(3) sub(1) by simp
  have "t = Topic m" "s = sub" using start_one [OF start] assms(4) by auto
  moreover have "v = marshal_message m" using assms(6) by (simp add: Serialize_def)
  ultimately show ?thesis using deserialize_serialize [OF assms(5)] sub(2) by (simp add: on_message_def)
qed

definition list_kafka :: "(string \<times> json) list kafka" where
  "list_kafka = \<lparr>kf_dial = (\<lambda>_ _ _. True), kf_send = (\<lambda>vs k. (Ok (), k @ vs)), kf_input = (\<lambda>v k. k @ [v]),
     kf_partitions = (\<lambda>_ _. Some 1), kf_consume = (\<lambda>_ _ _. True)\<rparr>"

definition kafka_config :: config where
  "kafka_config = AddConfigItem ''kafka'' (Some (CStr ''localhost:9092'')) (newConfig ''sentel'')"

lemma kafka_config_host: "cfg_String ''kafka'' kafka_config = Ok ''localhost:9092''"
  by (simp add: kafka_config_def cfg_String_def StringWithSection_def AddConfigItem_def AddConfigItemWithSection_def Let_def newConfig_def
    make_section_def put_item_def checkItemExist_def section_of_def)

definition sample_rule_msg :: message where
  "sample_rule_msg = MRule \<lparr>mr_TopicName = ''sentel-iot-rule'', mr_RuleName = ''r1'', mr_ProductId = ''p1'', mr_Action = ''register''\<rparr>"

theorem message_reaches_handler_witness:
  "\<exists>p s t. newKafkaConsumer kafka_config ''c'' = Ok p \<and>
     kc_Start list_kafka [] [] (kc_subscribers (snd (kc_Subscribe list_kafka [] (Topic sample_rule_msg) (Some 7) p))) = (Ok (), t, [(s, 0)]) \<and>
     on_message t s (Some (marshal_message sample_rule_msg)) = [(7, sample_rule_msg)]"
proof -
  let ?p = "\<lparr>kc_khosts = ''localhost:9092'', kc_clientId = ''c'', kc_subscribers = []\<rparr>"
  let ?s = "\<lparr>sb_topic = TopicNameRule, sb_handler = Some 7, sb_clientId = ''c_'' @ decimal 0\<rparr>"
  have new: "newKafkaConsumer kafka_config ''c'' = Ok ?p" by (simp add: newKafkaConsumer_def kafka_config_host)
  have sub: "kc_Subscribe list_kafka [] (Topic sample_rule_msg) (Some 7) ?p = (Ok (), ?p\<lparr>kc_subscribers := [(TopicNameRule, ?s)]\<rparr>)"
    by (simp add: kc_Subscribe_def list_kafka_def sample_rule_msg_def)
  have start: "kc_Start list_kafka [] [] (kc_subscribers (?p\<lparr>kc_subscribers := [(TopicNameRule, ?s)]\<rparr>)) = (Ok (), TopicNameRule, [(?s, 0)])"
    by (simp add: list_kafka_def)
  have "on_message TopicNameRule ?s (Some (marshal_message sample_rule_msg)) = [(7, sample_rule_msg)]"
    by (rule message_reaches_handler [OF new sub start]) (simp_all add: proper_def sample_rule_msg_def json_string_ascii Serialize_def)
  then show ?thesis using new sub start by auto
qed

text \<open>A consumer with more than one topic reads the messages of all of them as those of the topic it came to last: with a
  subscription to the tenants and one to the products, either the messages about tenants come as messages about products, with the
  tenant in the place of the product, or the other way round.\<close>

theorem topics_are_confused:
  assumes "kc_Start kf k [] [(TopicNameTenant, s1), (TopicNameProduct, s2)] = (Ok (), t, started)"
    "kc_Start kf k [] [(TopicNameProduct, s2), (TopicNameTenant, s1)] = (Ok (), t', started')"
    "sb_handler s1 = Some h1" "sb_handler s2 = Some h2" "proper (MTenant m)" "proper (MProduct q)"
  shows "on_message t s1 (Some (marshal_message (MTenant m))) = [(h1, MProduct \<lparr>mp_TopicName = mt_TopicName m,
      mp_ProductId = mt_TenantId m, mp_Action = mt_Action m, mp_TenantId = [], mp_Replicas = 0\<rparr>)] \<and>
    on_message t' s2 (Some (marshal_message (MProduct q))) = [(h2, MTenant \<lparr>mt_TopicName = mp_TopicName q,
      mt_TenantId = mp_ProductId q, mt_Action = mp_Action q\<rparr>)]"
proof -
  have last: "kc_Start kf k t0 [(a, x), (b, y)] = (Ok (), c, ss) \<Longrightarrow> c = b" for t0 a b c x y ss
    by (auto simp: Let_def split: prod.splits bool.splits)
  have "t = TopicNameProduct" "t' = TopicNameTenant" using last [OF assms(1)] last [OF assms(2)] by simp_all
  then show ?thesis
    using assms(3-6) by (simp add: on_message_def Deserialize_def CreateMessage_def topic_names proper_def read_member_def)
qed

theorem topics_are_confused_witness:
  "\<exists>t t'. on_message t \<lparr>sb_topic = TopicNameTenant, sb_handler = Some 1, sb_clientId = []\<rparr>
     (Some (marshal_message (MTenant \<lparr>mt_TopicName = [], mt_TenantId = ''t1'', mt_Action = ''register''\<rparr>))) =
     [(1, MProduct \<lparr>mp_TopicName = [], mp_ProductId = ''t1'', mp_Action = ''register'', mp_TenantId = [], mp_Replicas = 0\<rparr>)] \<and>
   on_message t' \<lparr>sb_topic = TopicNameProduct, sb_handler = Some 2, sb_clientId = []\<rparr>
     (Some (marshal_message (MProduct \<lparr>mp_TopicName = [], mp_ProductId = ''p1'', mp_Action = ''register'', mp_TenantId = ''t1'', mp_Replicas = 1\<rparr>))) =
     [(2, MTenant \<lparr>mt_TopicName = [], mt_TenantId = ''p1'', mt_Action = ''register''\<rparr>)]"
proof -
  let ?s1 = "\<lparr>sb_topic = TopicNameTenant, sb_handler = Some 1, sb_clientId = []\<rparr>"
  let ?s2 = "\<lparr>sb_topic = TopicNameProduct, sb_handler = Some 2, sb_clientId = []\<rparr>"
  have start: "kc_Start list_kafka [] [] [(a, x), (b, y)] = (Ok (), b, [(x, 0), (y, 0)])" for a b x y
    by (simp add: list_kafka_def)
  show ?thesis
    using topics_are_confused [OF start start, of ?s1 1 ?s2 2 "\<lparr>mt_TopicName = [], mt_TenantId = ''t1'', mt_Action = ''register''\<rparr>"
      "\<lparr>mp_TopicName = [], mp_ProductId = ''p1'', mp_Action = ''register'', mp_TenantId = ''t1'', mp_Replicas = 1\<rparr>"]
    by (auto simp: proper_def json_string_ascii)
qed

text \<open>Without a kafka server, or without one in the configuration, nothing is sent and no error is reported.\<close>

theorem unsent_reports_success:
  assumes "\<And>sync. kf_dial kf (split_on (CHR '','') hosts) sync k \<Longrightarrow> hosts = []" "cfg_String ''kafka'' c = Ok hosts"
  shows "PostMessage kf c m k = (Ok (), k) \<and> SendMessage kf c m k = (Ok (), k) \<and>
    PostMessages kf c ms k = (Ok (), k) \<and> SendMessages kf c ms k = (Ok (), k)"
proof -
  have "newKafkaProducer kf c [] sync k = Err NoKafka" for sync
    using assms by (auto simp: newKafkaProducer_def)
  then show ?thesis by (simp add: PostMessage_def SendMessage_def PostMessages_def SendMessages_def)
qed

theorem unsent_reports_success_witness:
  "SendMessage (list_kafka\<lparr>kf_dial := (\<lambda>_ _ _. False)\<rparr>) kafka_config sample_rule_msg [] = (Ok (), [])"
  using unsent_reports_success [OF _ kafka_config_host, of "list_kafka\<lparr>kf_dial := (\<lambda>_ _ _. False)\<rparr>" "[]" sample_rule_msg] by simp

end
