(* ===== verification/Conductor.thy ===== *)
theory Conductor
  imports Message_Bus
begin

text \<open>
  The conductor of the manager (\<^verbatim>\<open>src/iotmanager/conductor\<close>), which runs one broker service for every tenant that has
  products, and the cluster of local processes (\<^verbatim>\<open>src/iotmanager/cluster\<close>). The conductor is written against the
  two interfaces of the cluster manager and of the manager's database: here records of operations, of which
  the local cluster is one instance. Tenants are in a heap, since the code stores pointers to them. The
  mutex is a flag; locking it while it is locked blocks for ever, which is the error \<open>CBlocked\<close>.
\<close>

subsection \<open>Interfaces\<close>

record ServiceSpec =
  ss_TenantId :: string
  ss_ServiceName :: string
  ss_Image :: string
  ss_NetworkId :: string
  ss_Replicas :: "32 word"
  ss_Environment :: "string list"

record ServiceIntrospec =
  si_ServiceName :: string
  si_ServiceId :: string
  si_ServiceState :: string
  si_Endpoints :: "(string \<times> 32 word) list"

datatype conductor_error = CBlocked | CExists string | CMissing string | CCluster string | CBadMessage

record 'cl cluster =
  cl_CreateNetwork :: "string \<Rightarrow> 'cl \<Rightarrow> 'cl"
  cl_CreateService :: "ServiceSpec \<Rightarrow> ('cl, conductor_error, string) go"
  cl_RemoveService :: "string \<Rightarrow> ('cl, conductor_error, unit) go"
  cl_IntrospectService :: "string \<Rightarrow> 'cl \<Rightarrow> (conductor_error, ServiceIntrospec) outcome"

definition ServiceStateNone :: string where "ServiceStateNone = ''none''"
definition ServiceStateStarted :: string where "ServiceStateStarted = ''started''"

record mgrTenant =
  gt_TenantId :: string
  gt_Products :: "(string \<times> int) list"
  gt_ServiceName :: string
  gt_ServiceId :: string
  gt_ServiceState :: string
  gt_InstanceReplicas :: "32 word"
  gt_NetworkId :: string
  gt_CreatedAt :: int

record 'm managerdb =
  md_GetAllTenants :: "'m \<Rightarrow> mgrTenant list"
  md_AddTenant :: "mgrTenant \<Rightarrow> 'm \<Rightarrow> 'm"
  md_RemoveTenant :: "string \<Rightarrow> 'm \<Rightarrow> 'm"
  md_AddProduct :: "string \<Rightarrow> string \<Rightarrow> 'm \<Rightarrow> 'm"
  md_RemoveProduct :: "string \<Rightarrow> string \<Rightarrow> 'm \<Rightarrow> 'm"

subsection \<open>The local cluster\<close>

text \<open>
  The maps of the services and of their contexts are the lists of their keys. Starting the process and the
  random numbers are parameters.
\<close>

record localCluster =
  lo_services :: "string list"
  lo_ports :: "(32 word \<times> string) list"
  lo_portIndex :: "32 word"
  lo_serviceSpecs :: "(string \<times> ServiceIntrospec) list"
  lo_ctxs :: "string list"
  lo_discovered :: "(string \<times> string \<times> 32 word) list"

definition newLocalCluster :: localCluster where
  "newLocalCluster = \<lparr>lo_services = [], lo_ports = [], lo_portIndex = 10000, lo_serviceSpecs = [], lo_ctxs = [], lo_discovered = []\<rparr>"

text \<open>The random port is tested, and the port that is returned is another one.\<close>

fun make_port :: "(nat \<Rightarrow> nat) \<Rightarrow> localCluster \<Rightarrow> nat list \<Rightarrow> 32 word" where
  "make_port rnd p [] = 0"
| "make_port rnd p (i # is) =
     (if map_of (lo_ports p) (lo_portIndex p + word_of_nat (rnd i)) = None then lo_portIndex p + word_of_nat i
      else make_port rnd p is)"

definition port_scope :: nat where "port_scope = 1000"

definition makePort :: "(nat \<Rightarrow> nat) \<Rightarrow> localCluster \<Rightarrow> 32 word" where
  "makePort rnd p = make_port rnd p [0..<port_scope]"

definition lo_CreateService :: "bool \<Rightarrow> (nat \<Rightarrow> nat) \<Rightarrow> ServiceSpec \<Rightarrow> (localCluster, conductor_error, string) go" where
  "lo_CreateService started rnd spec p =
     (let port = makePort rnd p;
          serviceID = decimal (length (lo_services p) + 1);
          sip = \<lparr>si_ServiceName = ss_TenantId spec, si_ServiceId = serviceID, si_ServiceState = ServiceStateStarted,
            si_Endpoints = [(''127.0.0.1'', port)]\<rparr> in
      if started
      then (Ok serviceID, p\<lparr>lo_services := List.insert serviceID (lo_services p), lo_ports := AList.update port serviceID (lo_ports p),
        lo_serviceSpecs := AList.update serviceID sip (lo_serviceSpecs p), lo_ctxs := List.insert serviceID (lo_ctxs p),
        lo_discovered := lo_discovered p @ [(ss_TenantId spec, serviceID, port)]\<rparr>)
      else (Err (CCluster (ss_TenantId spec)), p))"

text \<open>The endpoints are those of the specification that was deleted before: there are none, and taking the first is a panic.\<close>

definition lo_RemoveService :: "string \<Rightarrow> (localCluster, conductor_error, unit) go" where
  "lo_RemoveService serviceID p =
     (if serviceID \<notin> set (lo_services p) then (Err (CMissing serviceID), p)
      else if serviceID \<notin> set (lo_ctxs p) then (Panic, p)
      else
        (let p1 = p\<lparr>lo_services := removeAll serviceID (lo_services p), lo_ctxs := removeAll serviceID (lo_ctxs p),
               lo_serviceSpecs := AList.delete serviceID (lo_serviceSpecs p)\<rparr> in
         case map_of (lo_serviceSpecs p1) serviceID of
           None \<Rightarrow> (Panic, p1)
         | Some spec \<Rightarrow> (case si_Endpoints spec of
             [] \<Rightarrow> (Panic, p1)
           | e # _ \<Rightarrow> (Ok (), p1\<lparr>lo_ports := AList.delete (snd e) (lo_ports p1),
               lo_discovered := filter (\<lambda>(_, i, _). i \<noteq> serviceID) (lo_discovered p1)\<rparr>))))"

definition lo_IntrospectService :: "string \<Rightarrow> localCluster \<Rightarrow> (conductor_error, ServiceIntrospec) outcome" where
  "lo_IntrospectService serviceID p = (case map_of (lo_serviceSpecs p) serviceID of None \<Rightarrow> Err (CMissing serviceID) | Some s \<Rightarrow> Ok s)"

definition local_cluster :: "bool \<Rightarrow> (nat \<Rightarrow> nat) \<Rightarrow> localCluster cluster" where
  "local_cluster started rnd = \<lparr>cl_CreateNetwork = (\<lambda>_ p. p), cl_CreateService = lo_CreateService started rnd,
     cl_RemoveService = lo_RemoveService, cl_IntrospectService = lo_IntrospectService\<rparr>"

subsection \<open>The conductor\<close>

record ('cl, 'm) conductorService =
  cd_config :: config
  cd_cluster :: 'cl
  cd_db :: 'm
  cd_tenants :: "(string \<times> nat) list"
  cd_heap :: "mgrTenant list"
  cd_locked :: bool

record ('cl, 'm) conductor_deps =
  cp_cluster :: "'cl cluster"
  cp_db :: "'m managerdb"
  cp_now :: int

type_synonym ('cl, 'm, 'a) conducting = "(('cl, 'm) conductorService, conductor_error, 'a) go"

definition newConductor :: "config \<Rightarrow> 'cl \<Rightarrow> 'm \<Rightarrow> ('cl, 'm) conductorService" where
  "newConductor c cl db = \<lparr>cd_config = c, cd_cluster = cl, cd_db = db, cd_tenants = [], cd_heap = [], cd_locked = False\<rparr>"

text \<open>\<^verbatim>\<open>p.mutex.Lock(); defer p.mutex.Unlock()\<close>: an operation that blocks keeps the lock.\<close>

definition locked :: "('cl, 'm, 'a) conducting \<Rightarrow> ('cl, 'm, 'a) conducting" where
  "locked m s =
     (if cd_locked s then (Err CBlocked, s)
      else case m (s\<lparr>cd_locked := True\<rparr>) of
        (Err CBlocked, t) \<Rightarrow> (Err CBlocked, t)
      | (r, t) \<Rightarrow> (r, t\<lparr>cd_locked := False\<rparr>))"

text \<open>
  The pointers to the tenants of the database are all the address of the loop variable, whose last value is
  the last tenant. Then the service waits for a receiver that only \<^verbatim>\<open>Start\<close> makes.
\<close>

definition cd_Initialize :: "('cl, 'm) conductor_deps \<Rightarrow> ('cl, 'm, unit) conducting" where
  "cd_Initialize d s =
     (let ts = md_GetAllTenants (cp_db d) (cd_db s); a = length (cd_heap s) in
      if ts = [] then (Ok (), s)
      else (Err CBlocked, s\<lparr>cd_tenants := fold (\<lambda>t m. AList.update (gt_TenantId t) a m) ts (cd_tenants s),
        cd_heap := cd_heap s @ [last ts]\<rparr>))"

definition network_of :: "config \<Rightarrow> string" where
  "network_of c = (case cfg_String ''network'' c of Ok n \<Rightarrow> n | _ \<Rightarrow> [])"

definition recovery_spec :: "string \<Rightarrow> string \<Rightarrow> mgrTenant \<Rightarrow> ServiceSpec" where
  "recovery_spec network tid t = \<lparr>ss_TenantId = tid, ss_ServiceName = ''tenant_'' @ tid, ss_Image = ''sentel/broker'',
     ss_NetworkId = network, ss_Replicas = gt_InstanceReplicas t,
     ss_Environment = [''KAFKA_HOST=kafka:9092'', ''MONGO_HOST=mongo:27017'', ''BROKER_TENANT='' @ tid]\<rparr>"

definition retry_spec :: "string \<Rightarrow> mgrTenant \<Rightarrow> ServiceSpec" where
  "retry_spec network t = \<lparr>ss_TenantId = gt_TenantId t, ss_ServiceName = [], ss_Image = [], ss_NetworkId = network,
     ss_Replicas = gt_InstanceReplicas t, ss_Environment = []\<rparr>"

fun recover_tenants :: "'cl cluster \<Rightarrow> string \<Rightarrow> (string \<times> mgrTenant) list \<Rightarrow> ('cl, conductor_error, mgrTenant list) go" where
  "recover_tenants cl network [] c = (Ok [], c)"
| "recover_tenants cl network ((tid, t) # ts) c =
     (if gt_ServiceState t \<noteq> ServiceStateNone
      then (case cl_IntrospectService cl tid c of
          Ok _ \<Rightarrow> recover_tenants cl network ts c
        | Panic \<Rightarrow> (Panic, c)
        | Err _ \<Rightarrow> (case cl_CreateService cl (recovery_spec network tid t) c of
            (Ok _, c1) \<Rightarrow> recover_tenants cl network ts c1
          | (Panic, c1) \<Rightarrow> (Panic, c1)
          | (Err _, c1) \<Rightarrow> (case recover_tenants cl network ts c1 of (Ok rs, c2) \<Rightarrow> (Ok (t # rs), c2) | x \<Rightarrow> x)))
      else recover_tenants cl network ts c)"

fun retry_tenants :: "'cl cluster \<Rightarrow> string \<Rightarrow> mgrTenant list \<Rightarrow> ('cl, conductor_error, unit) go" where
  "retry_tenants cl network [] c = (Ok (), c)"
| "retry_tenants cl network (t # ts) c = (case cl_CreateService cl (retry_spec network t) c of
      (Panic, c1) \<Rightarrow> (Panic, c1)
    | (_, c1) \<Rightarrow> retry_tenants cl network ts c1)"

definition recoverStartup :: "('cl, 'm) conductor_deps \<Rightarrow> ('cl, 'm, unit) conducting" where
  "recoverStartup d = locked (\<lambda>s.
     let network = network_of (cd_config s);
         c0 = (if network \<noteq> [] then cl_CreateNetwork (cp_cluster d) network (cd_cluster s) else cd_cluster s) in
     case seqM (recover_tenants (cp_cluster d) network (map (\<lambda>(tid, a). (tid, cd_heap s ! a)) (cd_tenants s)))
            (retry_tenants (cp_cluster d) network) c0 of
       (r, c1) \<Rightarrow> (r, s\<lparr>cd_cluster := c1\<rparr>))"

definition tenant_at :: "string \<Rightarrow> ('cl, 'm) conductorService \<Rightarrow> mgrTenant option" where
  "tenant_at tid s = map_option ((!) (cd_heap s)) (map_of (cd_tenants s) tid)"

definition set_tenant :: "string \<Rightarrow> mgrTenant \<Rightarrow> ('cl, 'm) conductorService \<Rightarrow> ('cl, 'm) conductorService" where
  "set_tenant tid t s = (case map_of (cd_tenants s) tid of None \<Rightarrow> s | Some a \<Rightarrow> s\<lparr>cd_heap := (cd_heap s)[a := t]\<rparr>)"

definition createTenant :: "('cl, 'm) conductor_deps \<Rightarrow> string \<Rightarrow> ('cl, 'm, unit) conducting" where
  "createTenant d tid = locked (\<lambda>s. case map_of (cd_tenants s) tid of
      Some _ \<Rightarrow> (Err (CExists tid), s)
    | None \<Rightarrow>
        (let t = \<lparr>gt_TenantId = tid, gt_Products = [], gt_ServiceName = [], gt_ServiceId = [], gt_ServiceState = ServiceStateNone,
               gt_InstanceReplicas = 0, gt_NetworkId = [], gt_CreatedAt = cp_now d\<rparr> in
         (Ok (), s\<lparr>cd_tenants := cd_tenants s @ [(tid, length (cd_heap s))], cd_heap := cd_heap s @ [t],
            cd_db := md_AddTenant (cp_db d) t (cd_db s)\<rparr>)))"

definition isProductExist :: "string \<Rightarrow> string \<Rightarrow> ('cl, 'm) conductorService \<Rightarrow> bool" where
  "isProductExist tid pid s = (case tenant_at tid s of None \<Rightarrow> False | Some t \<Rightarrow> map_of (gt_Products t) pid \<noteq> None)"

definition add_product :: "('cl, 'm) conductor_deps \<Rightarrow> string \<Rightarrow> string \<Rightarrow> mgrTenant \<Rightarrow> ('cl, 'm, string) conducting" where
  "add_product d tid pid t s = (Ok (gt_ServiceId t),
     (set_tenant tid (t\<lparr>gt_Products := AList.update pid (cp_now d) (gt_Products t)\<rparr>) s)
       \<lparr>cd_db := md_AddProduct (cp_db d) tid pid (cd_db s)\<rparr>)"

definition createProduct :: "('cl, 'm) conductor_deps \<Rightarrow> string \<Rightarrow> string \<Rightarrow> 32 word \<Rightarrow> ('cl, 'm, string) conducting" where
  "createProduct d tid pid replicas = locked (\<lambda>s.
     if isProductExist tid pid s then (Err (CExists pid), s)
     else case tenant_at tid s of
       None \<Rightarrow> (Panic, s)
     | Some t \<Rightarrow>
         (if gt_ServiceState t = ServiceStateNone
          then (case cl_CreateService (cp_cluster d) \<lparr>ss_TenantId = tid, ss_ServiceName = [], ss_Image = ''sentel/broker'',
                   ss_NetworkId = network_of (cd_config s), ss_Replicas = replicas, ss_Environment = []\<rparr> (cd_cluster s) of
              (Ok serviceId, c) \<Rightarrow> add_product d tid pid (t\<lparr>gt_ServiceState := ServiceStateStarted, gt_ServiceId := serviceId,
                gt_ServiceName := tid\<rparr>) (s\<lparr>cd_cluster := c\<rparr>)
            | (Err e, c) \<Rightarrow> (Err e, s\<lparr>cd_cluster := c\<rparr>)
            | (Panic, c) \<Rightarrow> (Panic, s\<lparr>cd_cluster := c\<rparr>))
          else add_product d tid pid t s))"

definition removeProduct :: "('cl, 'm) conductor_deps \<Rightarrow> string \<Rightarrow> string \<Rightarrow> ('cl, 'm, unit) conducting" where
  "removeProduct d tid pid = locked (\<lambda>s. case tenant_at tid s of
      None \<Rightarrow> (Err (CMissing pid), s)
    | Some t \<Rightarrow>
        (if \<not> isProductExist tid pid s then (Err (CMissing pid), s)
         else
           (let t1 = t\<lparr>gt_Products := AList.delete pid (gt_Products t)\<rparr>; db1 = md_RemoveProduct (cp_db d) tid pid (cd_db s) in
            if gt_Products t1 = []
            then (case cl_RemoveService (cp_cluster d) (gt_ServiceId t) (cd_cluster s) of
                (Panic, c) \<Rightarrow> (Panic, (set_tenant tid t1 s)\<lparr>cd_cluster := c\<rparr>)
              | (_, c) \<Rightarrow> (Ok (), (set_tenant tid (t1\<lparr>gt_ServiceState := ServiceStateNone\<rparr>) s)\<lparr>cd_cluster := c, cd_db := db1\<rparr>))
            else (Ok (), (set_tenant tid t1 s)\<lparr>cd_db := db1\<rparr>))))"

text \<open>The loop over the products of a tenant: an error is logged, a call that blocks is the end.\<close>

fun remove_products :: "('cl, 'm) conductor_deps \<Rightarrow> string \<Rightarrow> string list \<Rightarrow> ('cl, 'm, unit) conducting" where
  "remove_products d tid [] s = (Ok (), s)"
| "remove_products d tid (name # names) s = (case removeProduct d tid name s of
      (Panic, t) \<Rightarrow> (Panic, t)
    | (Err CBlocked, t) \<Rightarrow> (Err CBlocked, t)
    | (_, t) \<Rightarrow> remove_products d tid names t)"

definition removeTenant :: "('cl, 'm) conductor_deps \<Rightarrow> string \<Rightarrow> ('cl, 'm, unit) conducting" where
  "removeTenant d tid = locked (\<lambda>s. case tenant_at tid s of
      None \<Rightarrow> (Err (CMissing tid), s)
    | Some t \<Rightarrow>
        (case (if gt_ServiceState t \<noteq> ServiceStateNone then cl_RemoveService (cp_cluster d) (gt_ServiceId t) (cd_cluster s)
               else (Ok (), cd_cluster s)) of
           (Panic, c) \<Rightarrow> (Panic, s\<lparr>cd_cluster := c\<rparr>)
         | (_, c) \<Rightarrow> seqM (remove_products d tid (map fst (gt_Products t)))
             (\<lambda>_ u. (Ok (), u\<lparr>cd_tenants := AList.delete tid (cd_tenants u), cd_db := md_RemoveTenant (cp_db d) tid (cd_db u)\<rparr>))
             (s\<lparr>cd_cluster := c\<rparr>)))"

definition handleProductNotify :: "('cl, 'm) conductor_deps \<Rightarrow> message \<Rightarrow> ('cl, 'm, unit) conducting" where
  "handleProductNotify d msg s = (case msg of
      MProduct tf \<Rightarrow>
        (if mp_Action tf = ActionCreate
         then seqM (createProduct d (mp_TenantId tf) (mp_ProductId tf) (mp_Replicas tf)) (\<lambda>_. retM ()) s
         else if mp_Action tf = ActionRemove then removeProduct d (mp_TenantId tf) (mp_ProductId tf) s
         else (Ok (), s))
    | _ \<Rightarrow> (Err CBadMessage, s))"

definition handleTenantNotify :: "('cl, 'm) conductor_deps \<Rightarrow> message \<Rightarrow> ('cl, 'm, unit) conducting" where
  "handleTenantNotify d msg s = (case msg of
      MTenant tf \<Rightarrow>
        (if mt_Action tf = ActionCreate
         then (case createTenant d (mt_TenantId tf) s of
             (Err CBlocked, t) \<Rightarrow> (Err CBlocked, t)
           | (Panic, t) \<Rightarrow> (Panic, t)
           | (_, t) \<Rightarrow> (Ok (), t))
         else if mt_Action tf = ActionRemove then removeTenant d (mt_TenantId tf) s
         else (Ok (), s))
    | _ \<Rightarrow> (Err CBadMessage, s))"

definition cd_messageHandlerFunc :: "('cl, 'm) conductor_deps \<Rightarrow> message \<Rightarrow> ('cl, 'm, unit) conducting" where
  "cd_messageHandlerFunc d msg s =
     (if Topic msg = TopicNameTenant then handleTenantNotify d msg s
      else if Topic msg = TopicNameProduct then handleProductNotify d msg s
      else (Ok (), s))"

subsection \<open>A tenant has a service exactly while it has products\<close>

definition conductor_inv :: "('cl, 'm) conductorService \<Rightarrow> bool" where
  "conductor_inv s \<longleftrightarrow> distinct (map snd (cd_tenants s)) \<and> (\<forall>(tid, a) \<in> set (cd_tenants s). a < length (cd_heap s)) \<and>
     (\<forall>(tid, a) \<in> set (cd_tenants s). gt_ServiceState (cd_heap s ! a) = ServiceStateNone \<longleftrightarrow> gt_Products (cd_heap s ! a) = [])"

text \<open>The messages one after the other, as long as the process lives.\<close>

fun conduct :: "('cl, 'm) conductor_deps \<Rightarrow> message list \<Rightarrow> ('cl, 'm) conductorService \<Rightarrow> ('cl, 'm) conductorService option" where
  "conduct d [] s = Some s"
| "conduct d (m # ms) s = (case cd_messageHandlerFunc d m s of (Panic, _) \<Rightarrow> None | (_, t) \<Rightarrow> conduct d ms t)"

definition keeps :: "(('cl, 'm) conductorService \<Rightarrow> bool) \<Rightarrow> ('cl, 'm, 'a) conducting \<Rightarrow> bool" where
  "keeps P m \<longleftrightarrow> (\<forall>s r t. P s \<longrightarrow> m s = (r, t) \<longrightarrow> r \<noteq> Panic \<longrightarrow> P t)"

lemma keepsD: "keeps P m \<Longrightarrow> P s \<Longrightarrow> m s = (r, t) \<Longrightarrow> r \<noteq> Panic \<Longrightarrow> P t"
  unfolding keeps_def by blast

lemma inv_update [simp]:
  "conductor_inv (s\<lparr>cd_locked := b\<rparr>) = conductor_inv s" "conductor_inv (s\<lparr>cd_cluster := c\<rparr>) = conductor_inv s"
  "conductor_inv (s\<lparr>cd_db := db\<rparr>) = conductor_inv s"
  by (simp_all add: conductor_inv_def)

lemma tenant_at_update [simp]:
  "tenant_at tid (s\<lparr>cd_locked := b\<rparr>) = tenant_at tid s" "tenant_at tid (s\<lparr>cd_cluster := c\<rparr>) = tenant_at tid s"
  "tenant_at tid (s\<lparr>cd_db := db\<rparr>) = tenant_at tid s"
  by (simp_all add: tenant_at_def)

lemma exist_update [simp]:
  "isProductExist tid pid (s\<lparr>cd_locked := b\<rparr>) = isProductExist tid pid s" "isProductExist tid pid (s\<lparr>cd_cluster := c\<rparr>) = isProductExist tid pid s"
  by (simp_all add: isProductExist_def)

lemma locked_keeps:
  assumes "keeps conductor_inv m"
  shows "keeps conductor_inv (locked m)"
  unfolding keeps_def
proof (intro allI impI)
  fix s :: "('a, 'b) conductorService" and r t
  assume s: "conductor_inv s" and run: "locked m s = (r, t)" and r: "r \<noteq> Panic"
  show "conductor_inv t"
  proof (cases "cd_locked s")
    case False
    obtain r' t' where m: "m (s\<lparr>cd_locked := True\<rparr>) = (r', t')" by fastforce
    then have "r' = r" "t = t' \<or> t = t'\<lparr>cd_locked := False\<rparr>"
      using run False by (auto simp: locked_def split: outcome.splits conductor_error.splits)
    moreover from this have "conductor_inv t'" using keepsD [OF assms _ m] s r by simp
    ultimately show ?thesis by auto
  qed (use s run in \<open>simp add: locked_def\<close>)
qed

lemma set_tenant_inv:
  assumes "conductor_inv s" "gt_ServiceState t = ServiceStateNone \<longleftrightarrow> gt_Products t = []"
  shows "conductor_inv (set_tenant tid t s)"
proof (cases "map_of (cd_tenants s) tid")
  case (Some a)
  have "a < length (cd_heap s)" using assms(1) map_of_SomeD [OF Some] by (auto simp: conductor_inv_def)
  then show ?thesis using assms by (auto simp: set_tenant_def Some conductor_inv_def nth_list_update)
qed (use assms in \<open>simp add: set_tenant_def\<close>)

lemma tenant_at_inv:
  assumes "conductor_inv s" "tenant_at tid s = Some t"
  shows "gt_ServiceState t = ServiceStateNone \<longleftrightarrow> gt_Products t = []"
proof -
  obtain a where "map_of (cd_tenants s) tid = Some a" "t = cd_heap s ! a" using assms(2) by (auto simp: tenant_at_def)
  then show ?thesis using assms(1) map_of_SomeD [of "cd_tenants s" tid a] by (auto simp: conductor_inv_def)
qed

lemma createTenant_keeps: "keeps conductor_inv (createTenant d tid)"
  unfolding createTenant_def
  by (rule locked_keeps) (auto simp: keeps_def conductor_inv_def Let_def nth_append split: option.splits)

lemma update_not_Nil: "AList.update k v xs \<noteq> []"
  by (induction xs) auto

lemma started_not_none: "ServiceStateStarted \<noteq> ServiceStateNone"
  by (simp add: ServiceStateStarted_def ServiceStateNone_def)

lemma add_product_inv:
  assumes "conductor_inv s" "gt_ServiceState t \<noteq> ServiceStateNone" "add_product d tid pid t s = (r, u)"
  shows "conductor_inv u"
  using assms by (auto simp: add_product_def update_not_Nil intro!: set_tenant_inv)

lemma createProduct_keeps: "keeps conductor_inv (createProduct d tid pid replicas)"
  unfolding createProduct_def
proof (rule locked_keeps, unfold keeps_def, intro allI impI, goal_cases)
  case (1 s r u)
  show ?case
  proof (cases "isProductExist tid pid s \<or> tenant_at tid s = None")
    case False
    then obtain t where t: "tenant_at tid s = Some t" "\<not> isProductExist tid pid s" by auto
    let ?spec = "\<lparr>ss_TenantId = tid, ss_ServiceName = [], ss_Image = ''sentel/broker'',
      ss_NetworkId = network_of (cd_config s), ss_Replicas = replicas, ss_Environment = []\<rparr>"
    obtain r' c where c: "cl_CreateService (cp_cluster d) ?spec (cd_cluster s) = (r', c)" by fastforce
    have "conductor_inv (s\<lparr>cd_cluster := c\<rparr>)" using 1(1) by simp
    then show ?thesis
      using 1 t c add_product_inv started_not_none
      by (cases r') (auto split: if_splits elim!: add_product_inv [rotated 2])
  qed (use 1 in \<open>auto split: if_splits\<close>)
qed

lemma removeProduct_keeps: "keeps conductor_inv (removeProduct d tid pid)"
  unfolding removeProduct_def
proof (rule locked_keeps, unfold keeps_def, intro allI impI, goal_cases)
  case (1 s r u)
  show ?case
  proof (cases "isProductExist tid pid s \<and> tenant_at tid s \<noteq> None")
    case True
    then obtain t where t: "tenant_at tid s = Some t" "isProductExist tid pid s" by auto
    let ?t1 = "t\<lparr>gt_Products := AList.delete pid (gt_Products t)\<rparr>"
    have started: "gt_ServiceState t \<noteq> ServiceStateNone"
      using tenant_at_inv [OF 1(1) t(1)] t by (auto simp: isProductExist_def)
    show ?thesis
    proof (cases "gt_Products ?t1 = []")
      case empty: True
      obtain r' c where "cl_RemoveService (cp_cluster d) (gt_ServiceId t) (cd_cluster s) = (r', c)" by fastforce
      moreover have "conductor_inv (set_tenant tid (?t1\<lparr>gt_ServiceState := ServiceStateNone\<rparr>) s)"
        using empty by (intro set_tenant_inv [OF 1(1)]) simp
      ultimately show ?thesis using 1 t empty by (cases r') (auto simp: Let_def)
    next
      case False
      moreover have "conductor_inv (set_tenant tid ?t1 s)" using False started by (intro set_tenant_inv [OF 1(1)]) simp
      ultimately show ?thesis using 1 t by (auto simp: Let_def)
    qed
  qed (use 1 in \<open>auto split: option.splits\<close>)
qed

lemma blocked_simps:
  assumes "cd_locked s"
  shows "createTenant d tid s = (Err CBlocked, s)" "createProduct d tid pid n s = (Err CBlocked, s)"
    "removeProduct d tid pid s = (Err CBlocked, s)" "removeTenant d tid s = (Err CBlocked, s)"
  using assms by (simp_all add: createTenant_def createProduct_def removeProduct_def removeTenant_def locked_def)

lemma remove_products_blocked:
  "cd_locked s \<Longrightarrow> remove_products d tid names s = (if names = [] then Ok () else Err CBlocked, s)"
  by (cases names) (simp_all add: blocked_simps)

lemma inv_delete: "conductor_inv s \<Longrightarrow> conductor_inv (s\<lparr>cd_tenants := AList.delete tid (cd_tenants s)\<rparr>)"
proof -
  have "distinct (map snd xs) \<Longrightarrow> distinct (map snd (AList.delete tid xs))" for xs :: "(string \<times> nat) list"
    by (induction xs) (auto simp: AList.delete_eq)
  then show "conductor_inv s \<Longrightarrow> conductor_inv (s\<lparr>cd_tenants := AList.delete tid (cd_tenants s)\<rparr>)"
    by (auto simp: conductor_inv_def AList.delete_eq)
qed

lemma removeTenant_run:
  assumes "\<not> cd_locked s" "tenant_at tid s = Some t"
    "(if gt_ServiceState t \<noteq> ServiceStateNone then cl_RemoveService (cp_cluster d) (gt_ServiceId t) (cd_cluster s)
      else (Ok (), cd_cluster s)) = (r, c)" "r \<noteq> Panic"
  shows "removeTenant d tid s =
    (if gt_Products t = []
     then (Ok (), s\<lparr>cd_cluster := c, cd_tenants := AList.delete tid (cd_tenants s), cd_db := md_RemoveTenant (cp_db d) tid (cd_db s)\<rparr>)
     else (Err CBlocked, s\<lparr>cd_cluster := c, cd_locked := True\<rparr>))"
  using assms by (cases r) (auto simp: removeTenant_def locked_def remove_products_blocked seqM_def)

lemma removeTenant_keeps: "keeps conductor_inv (removeTenant d tid)"
  unfolding keeps_def
proof (intro allI impI)
  fix s r u assume s: "conductor_inv s" and run: "removeTenant d tid s = (r, u)" and r: "r \<noteq> Panic"
  show "conductor_inv u"
  proof (cases "cd_locked s \<or> tenant_at tid s = None")
    case True
    then show ?thesis using s run by (cases "cd_locked s") (auto simp: removeTenant_def locked_def)
  next
    case False
    then obtain t where t: "\<not> cd_locked s" "tenant_at tid s = Some t" by auto
    obtain r' c where c: "(if gt_ServiceState t \<noteq> ServiceStateNone then cl_RemoveService (cp_cluster d) (gt_ServiceId t) (cd_cluster s)
      else (Ok (), cd_cluster s)) = (r', c)" by fastforce
    have "r' \<noteq> Panic"
      using run r t c by (cases "gt_ServiceState t = ServiceStateNone") (auto simp: removeTenant_def locked_def)
    from removeTenant_run [OF t c this] show ?thesis
      using s run inv_delete [of s tid] by (auto simp: conductor_inv_def split: if_splits)
  qed
qed

lemma handler_keeps: "keeps conductor_inv (cd_messageHandlerFunc d m)"
  unfolding keeps_def
proof (intro allI impI)
  fix s r u assume s: "conductor_inv s" and run: "cd_messageHandlerFunc d m s = (r, u)" and r: "r \<noteq> Panic"
  show "conductor_inv u"
  proof (cases m)
    case (MTenant tf)
    obtain r' t where c: "createTenant d (mt_TenantId tf) s = (r', t)" by fastforce
    have "r' \<noteq> Panic \<Longrightarrow> conductor_inv t" by (rule keepsD [OF createTenant_keeps s c])
    then show ?thesis
      using run r s c MTenant keepsD [OF removeTenant_keeps s]
      by (auto simp: cd_messageHandlerFunc_def handleTenantNotify_def split: if_splits outcome.splits conductor_error.splits)
  next
    case (MProduct tf)
    obtain r' t where c: "createProduct d (mp_TenantId tf) (mp_ProductId tf) (mp_Replicas tf) s = (r', t)" by fastforce
    have "r' \<noteq> Panic \<Longrightarrow> conductor_inv t" by (rule keepsD [OF createProduct_keeps s c])
    then show ?thesis
      using run r s c MProduct keepsD [OF removeProduct_keeps s]
      by (auto simp: cd_messageHandlerFunc_def handleProductNotify_def seqM_def topic_names split: if_splits outcome.splits)
  qed (use s run in \<open>auto simp: cd_messageHandlerFunc_def handleTenantNotify_def handleProductNotify_def topic_names split: if_splits\<close>)
qed


definition unit_db :: "unit managerdb" where
  "unit_db = \<lparr>md_GetAllTenants = (\<lambda>_. []), md_AddTenant = (\<lambda>_ _. ()), md_RemoveTenant = (\<lambda>_ _. ()),
     md_AddProduct = (\<lambda>_ _ _. ()), md_RemoveProduct = (\<lambda>_ _ _. ())\<rparr>"

definition local_deps :: "(localCluster, unit) conductor_deps" where
  "local_deps = \<lparr>cp_cluster = local_cluster True (\<lambda>i. 7), cp_db = unit_db, cp_now = 0\<rparr>"

definition tenant_message :: "string \<Rightarrow> string \<Rightarrow> message" where
  "tenant_message tid action = MTenant \<lparr>mt_TopicName = TopicNameTenant, mt_TenantId = tid, mt_Action = action\<rparr>"

definition product_message :: "string \<Rightarrow> string \<Rightarrow> string \<Rightarrow> message" where
  "product_message tid pid action =
     MProduct \<lparr>mp_TopicName = TopicNameProduct, mp_ProductId = pid, mp_Action = action, mp_TenantId = tid, mp_Replicas = 1\<rparr>"

definition sample_tenant :: "localCluster \<Rightarrow> (localCluster, unit) conductorService" where
  "sample_tenant cl = \<lparr>cd_config = newConfig ''m'', cd_cluster = cl, cd_db = (), cd_tenants = [(''t1'', 0)],
     cd_heap = [\<lparr>gt_TenantId = ''t1'', gt_Products = [(''p1'', 0)], gt_ServiceName = ''t1'', gt_ServiceId = ''1'',
       gt_ServiceState = ServiceStateStarted, gt_InstanceReplicas = 0, gt_NetworkId = [], gt_CreatedAt = 0\<rparr>], cd_locked = False\<rparr>"

definition sample_cluster :: localCluster where
  "sample_cluster = \<lparr>lo_services = [''1''], lo_ports = [(10000, ''1'')], lo_portIndex = 10000,
     lo_serviceSpecs = [(''1'', \<lparr>si_ServiceName = ''t1'', si_ServiceId = ''1'', si_ServiceState = ServiceStateStarted,
       si_Endpoints = [(''127.0.0.1'', 10000)]\<rparr>)], lo_ctxs = [''1''], lo_discovered = [(''t1'', ''1'', 10000)]\<rparr>"

lemma first_port: "map_of (lo_ports p) (lo_portIndex p + word_of_nat (rnd 0)) = None \<Longrightarrow> makePort rnd p = lo_portIndex p"
proof -
  have "[0..<port_scope] = 0 # [Suc 0..<port_scope]" by (rule upt_conv_Cons) (simp add: port_scope_def)
  then show "map_of (lo_ports p) (lo_portIndex p + word_of_nat (rnd 0)) = None \<Longrightarrow> makePort rnd p = lo_portIndex p"
    by (simp add: makePort_def)
qed

lemma sample_service:
  "lo_CreateService True (\<lambda>i. 7) spec newLocalCluster = (Ok ''1'', sample_cluster)" if "ss_TenantId spec = ''t1''"
proof -
  have "makePort (\<lambda>i. 7) newLocalCluster = 10000" by (simp add: first_port newLocalCluster_def)
  moreover have "decimal (Suc 0) = ''1''" by code_simp
  moreover have "length (lo_services newLocalCluster) = 0" by (simp add: newLocalCluster_def)
  ultimately show ?thesis
    using that by (simp add: lo_CreateService_def Let_def) (simp add: newLocalCluster_def sample_cluster_def)
qed

lemma sample_run:
  "conduct local_deps [tenant_message ''t1'' ActionCreate, product_message ''t1'' ''p1'' ActionCreate]
     (newConductor (newConfig ''m'') newLocalCluster ()) = Some (sample_tenant sample_cluster)"
proof -
  let ?t = "\<lparr>gt_TenantId = ''t1'', gt_Products = [], gt_ServiceName = [], gt_ServiceId = [], gt_ServiceState = ServiceStateNone,
    gt_InstanceReplicas = 0, gt_NetworkId = [], gt_CreatedAt = 0\<rparr>"
  let ?s = "\<lparr>cd_config = newConfig ''m'', cd_cluster = newLocalCluster, cd_db = (), cd_tenants = [(''t1'', 0)], cd_heap = [?t], cd_locked = False\<rparr>"
  have "cd_messageHandlerFunc local_deps (tenant_message ''t1'' ActionCreate) (newConductor (newConfig ''m'') newLocalCluster ()) = (Ok (), ?s)"
    by (simp add: tenant_message_def cd_messageHandlerFunc_def handleTenantNotify_def createTenant_def locked_def newConductor_def
      local_deps_def unit_db_def Let_def)
  moreover have "cd_messageHandlerFunc local_deps (product_message ''t1'' ''p1'' ActionCreate) ?s = (Ok (), sample_tenant sample_cluster)"
    by (simp add: product_message_def cd_messageHandlerFunc_def handleProductNotify_def createProduct_def locked_def local_deps_def unit_db_def
      local_cluster_def sample_service tenant_at_def isProductExist_def add_product_def set_tenant_def seqM_def sample_tenant_def topic_names)
  ultimately show ?thesis by simp
qed


text \<open>A tenant that has products cannot be removed: the removal waits for ever for the lock that it holds itself, the tenant
  stays, and from then on no tenant and no product can be added or removed.\<close>

theorem tenant_removal_deadlocks:
  assumes "\<not> cd_locked s" "tenant_at tid s = Some t" "gt_Products t \<noteq> []"
    "fst (cl_RemoveService (cp_cluster d) (gt_ServiceId t) (cd_cluster s)) \<noteq> Panic"
  shows "\<exists>s'. removeTenant d tid s = (Err CBlocked, s') \<and> tenant_at tid s' = Some t \<and>
    (\<forall>tid' pid n. createTenant d tid' s' = (Err CBlocked, s') \<and> removeTenant d tid' s' = (Err CBlocked, s') \<and>
       createProduct d tid' pid n s' = (Err CBlocked, s') \<and> removeProduct d tid' pid s' = (Err CBlocked, s'))"
proof -
  obtain r c where c: "(if gt_ServiceState t \<noteq> ServiceStateNone then cl_RemoveService (cp_cluster d) (gt_ServiceId t) (cd_cluster s)
      else (Ok (), cd_cluster s)) = (r, c)" by fastforce
  then have "r \<noteq> Panic" using assms(4) by (auto split: if_splits)
  from removeTenant_run [OF assms(1,2) c this] assms(2,3) show ?thesis
    by (intro exI [of _ "s\<lparr>cd_cluster := c, cd_locked := True\<rparr>"]) (simp add: blocked_simps)
qed

theorem tenant_removal_deadlocks_witness:
  "fst (removeTenant (local_deps\<lparr>cp_cluster := (local_cluster True (\<lambda>i. 7))\<lparr>cl_RemoveService := (\<lambda>_ p. (Ok (), p))\<rparr>\<rparr>)
     ''t1'' (sample_tenant sample_cluster)) = Err CBlocked"
proof -
  let ?d = "local_deps\<lparr>cp_cluster := (local_cluster True (\<lambda>i. 7))\<lparr>cl_RemoveService := (\<lambda>_ p. (Ok (), p))\<rparr>\<rparr>"
  let ?s = "sample_tenant sample_cluster"
  have "\<not> cd_locked ?s" "tenant_at ''t1'' ?s = Some (cd_heap ?s ! 0)" "gt_Products (cd_heap ?s ! 0) \<noteq> []"
    "fst (cl_RemoveService (cp_cluster ?d) (gt_ServiceId (cd_heap ?s ! 0)) (cd_cluster ?s)) \<noteq> Panic"
    by (simp_all add: tenant_at_def sample_tenant_def)
  from tenant_removal_deadlocks [OF this] show ?thesis by auto
qed

text \<open>In the local cluster, removing the last product of a tenant whose service runs crashes the manager, and so does removing
  any service that runs.\<close>

theorem local_removal_panics:
  assumes "\<not> cd_locked s" "tenant_at tid s = Some t" "map fst (gt_Products t) = [pid]" "gt_ServiceId t \<in> set (lo_services (cd_cluster s))"
    "cp_cluster d = local_cluster started rnd"
  shows "fst (removeProduct d tid pid s) = Panic \<and> fst (lo_RemoveService (gt_ServiceId t) (cd_cluster s)) = Panic"
proof -
  have gone: "fst (lo_RemoveService (gt_ServiceId t) (cd_cluster s)) = Panic"
    using assms(4) by (simp add: lo_RemoveService_def Let_def AList.delete_conv)
  then obtain c where "lo_RemoveService (gt_ServiceId t) (cd_cluster s) = (Panic, c)" by (cases "lo_RemoveService (gt_ServiceId t) (cd_cluster s)") auto
  moreover obtain x where "gt_Products t = [(pid, x)]" using assms(3) by auto
  ultimately have "fst (removeProduct d tid pid s) = Panic"
    using assms(1,2,5) by (simp add: removeProduct_def locked_def isProductExist_def Let_def local_cluster_def)
  with gone show ?thesis by blast
qed

theorem local_removal_panics_witness:
  "fst (removeProduct local_deps ''t1'' ''p1'' (sample_tenant sample_cluster)) = Panic"
  by (rule conjunct1 [OF local_removal_panics [where t = "cd_heap (sample_tenant sample_cluster) ! 0" and started = True and rnd = "\<lambda>i. 7"]])
     (simp_all add: tenant_at_def sample_tenant_def sample_cluster_def local_deps_def)

text \<open>Local services get the same port unless a random number hits the port in use: the port that is tested is not the
  one that is given.\<close>

theorem local_ports_collide:
  assumes "0 < rnd 0" "rnd 0 < port_scope" "lo_CreateService True rnd' spec newLocalCluster = (Ok i, p)"
  shows "makePort rnd' newLocalCluster = 10000 \<and> makePort rnd p = 10000"
proof -
  have first: "makePort rnd' newLocalCluster = 10000" by (simp add: first_port newLocalCluster_def)
  then have p: "lo_ports p = [(10000, i)]" "lo_portIndex p = 10000" using assms(3) by (auto simp: lo_CreateService_def newLocalCluster_def Let_def)
  have "(word_of_nat (rnd 0) :: 32 word) \<noteq> 0"
    using assms(1,2) by (simp add: word_of_nat_eq_0_iff nat_dvd_not_less port_scope_def)
  then have "map_of (lo_ports p) (lo_portIndex p + word_of_nat (rnd 0)) = None" using p by simp
  then have "makePort rnd p = 10000" using first_port p(2) by metis
  with first show ?thesis by blast
qed

theorem local_ports_collide_witness:
  "\<exists>i p. lo_CreateService True (\<lambda>i. 7) (recovery_spec [] ''t1'' (cd_heap (sample_tenant sample_cluster) ! 0)) newLocalCluster = (Ok i, p) \<and>
     makePort (\<lambda>i. 7) p = 10000"
proof -
  have "lo_CreateService True (\<lambda>i. 7) (recovery_spec [] ''t1'' (cd_heap (sample_tenant sample_cluster) ! 0)) newLocalCluster = (Ok ''1'', sample_cluster)"
    by (rule sample_service) (simp add: recovery_spec_def)
  with local_ports_collide [OF _ _ this, of "\<lambda>i. 7"] show ?thesis by (auto simp: port_scope_def)
qed

end
