(* ===== verification/Registry.thy ===== *)
theory Registry
  imports Go_Config Broker_Event "HOL-Library.Multiset"
begin

text \<open>
  The registry of the platform's objects (\<^verbatim>\<open>src/pkg/registry\<close>): tenants, products, devices, run
  logs, rules and topic flavors, each a document of a collection of the database. The database server is
  a parameter, a record of the four operations the code calls; what it is relied on for is
  \<open>store_laws\<close>. What a search had delivered before it failed is left out. A time is its number of nanoseconds since 1970, of which a document keeps
  the milliseconds.
\<close>

subsection \<open>Documents\<close>

datatype bson = BStr string | BBool bool | BInt int | BTime int | BArr "bson list" | BDoc "(string \<times> bson) list"

type_synonym document = "(string \<times> bson) list"

datatype db_error = ErrNotFound | ErrServer | ErrDuplicate | ErrExist string | ErrTarget

record 'db store =
  st_find :: "string \<Rightarrow> document \<Rightarrow> string option \<Rightarrow> 'db \<Rightarrow> (db_error, document list) outcome"
  st_insert :: "string \<Rightarrow> document \<Rightarrow> ('db, db_error, unit) go"
  st_remove :: "string \<Rightarrow> document \<Rightarrow> ('db, db_error, unit) go"
  st_update :: "string \<Rightarrow> document \<Rightarrow> document \<Rightarrow> ('db, db_error, unit) go"

type_synonym ('db, 'a) reading = "'db \<Rightarrow> (db_error, 'a) outcome"
type_synonym 'db writing = "('db, db_error, unit) go"

definition find_one :: "'db store \<Rightarrow> string \<Rightarrow> document \<Rightarrow> ('db, document) reading" where
  "find_one st c q db = (case st_find st c q None db of
      Ok [] \<Rightarrow> Err ErrNotFound
    | Ok (d # _) \<Rightarrow> Ok d
    | Err e \<Rightarrow> Err e
    | Panic \<Rightarrow> Panic)"

definition get_one :: "(document \<Rightarrow> 'a) \<Rightarrow> 'db store \<Rightarrow> string \<Rightarrow> document \<Rightarrow> ('db, 'a) reading" where
  "get_one dec st c q db = (case find_one st c q db of Ok d \<Rightarrow> Ok (dec d) | Err e \<Rightarrow> Err e | Panic \<Rightarrow> Panic)"

definition get_all :: "(document \<Rightarrow> 'a) \<Rightarrow> 'db store \<Rightarrow> string \<Rightarrow> document \<Rightarrow> string option \<Rightarrow> ('db, 'a list) reading" where
  "get_all dec st c q order db = (case st_find st c q order db of Ok ds \<Rightarrow> Ok (map dec ds) | Err e \<Rightarrow> Err e | Panic \<Rightarrow> Panic)"

text \<open>\<^verbatim>\<open>All\<close> into a slice whose error is not looked at.\<close>

definition all_or_none :: "(db_error, 'a list) outcome \<Rightarrow> 'a list" where
  "all_or_none r = (case r of Ok xs \<Rightarrow> xs | _ \<Rightarrow> [])"

text \<open>Fields of structs: a field that is missing or of another type is left at its zero value.\<close>

definition millis :: "int \<Rightarrow> int" where "millis t = t div 1000000"

definition zero_time :: int where "zero_time = -62135596800000000000"

definition b_str :: "string \<Rightarrow> document \<Rightarrow> string" where
  "b_str k d = (case map_of d k of Some (BStr s) \<Rightarrow> s | _ \<Rightarrow> [])"

definition b_bool :: "string \<Rightarrow> document \<Rightarrow> bool" where
  "b_bool k d = (case map_of d k of Some (BBool b) \<Rightarrow> b | _ \<Rightarrow> False)"

definition b_time :: "string \<Rightarrow> document \<Rightarrow> int" where
  "b_time k d = (case map_of d k of Some (BTime t) \<Rightarrow> t * 1000000 | _ \<Rightarrow> zero_time)"

definition b_strs :: "string \<Rightarrow> document \<Rightarrow> string list" where
  "b_strs k d = (case map_of d k of
      Some (BArr vs) \<Rightarrow> List.map_filter (\<lambda>v. case v of BStr s \<Rightarrow> Some s | _ \<Rightarrow> None) vs
    | _ \<Rightarrow> [])"

definition b_doc :: "string \<Rightarrow> document \<Rightarrow> document" where
  "b_doc k d = (case map_of d k of Some (BDoc e) \<Rightarrow> e | _ \<Rightarrow> [])"

definition e_time :: "int \<Rightarrow> bson" where "e_time t = BTime (millis t)"

definition e_strs :: "string list \<Rightarrow> bson" where "e_strs xs = BArr (map BStr xs)"

subsection \<open>Objects\<close>

record Tenant =
  tn_TenantId :: string
  tn_Password :: string
  tn_SecretKey :: string
  tn_CreatedAt :: int
  tn_UpdatedAt :: int
  tn_Roles :: "string list"

record Product =
  pr_TenantId :: string
  pr_ProductId :: string
  pr_ProductName :: string
  pr_Description :: string
  pr_TimeCreated :: int
  pr_TimeUpdated :: int
  pr_Category :: string
  pr_TopicFlavor :: string

record Device =
  dv_ProductId :: string
  dv_DeviceId :: string
  dv_DeviceName :: string
  dv_DeviceStatus :: string
  dv_DeviceSecret :: string
  dv_Props :: string
  dv_TimeCreated :: int
  dv_TimeUpdated :: int

record Runlog =
  rl_ProductId :: string
  rl_DeviceId :: string
  rl_DeviceName :: string
  rl_DeviceStatus :: string
  rl_IsShow :: string
  rl_TimeCreated :: int
  rl_TimeUpdated :: int

record RuleDataProcess =
  dp_Topic :: string
  dp_Condition :: string
  dp_Fields :: "string list"

record RuleDataTarget =
  dt_Type :: string
  dt_Topic :: string
  dt_DatabaseHost :: string
  dt_DatabaseName :: string
  dt_Collection :: string
  dt_Username :: string
  dt_Password :: string

record Rule =
  ru_ProductId :: string
  ru_RuleName :: string
  ru_DataFormat :: string
  ru_Description :: string
  ru_DataProcess :: RuleDataProcess
  ru_DataTarget :: RuleDataTarget
  ru_Status :: string
  ru_TimeCreated :: int
  ru_TimeUpdated :: int

text \<open>The field names are those of the \<^verbatim>\<open>bson\<close> tags, and without such a tag the name of the field in lower case.\<close>

definition enc_tenant :: "Tenant \<Rightarrow> document" where
  "enc_tenant t = [(''TenantId'', BStr (tn_TenantId t)), (''Password'', BStr (tn_Password t)), (''secretKey'', BStr (tn_SecretKey t)),
     (''CreatedAt'', e_time (tn_CreatedAt t)), (''UpdatedAt'', e_time (tn_UpdatedAt t)), (''roles'', e_strs (tn_Roles t))]"

definition dec_tenant :: "document \<Rightarrow> Tenant" where
  "dec_tenant d = \<lparr>tn_TenantId = b_str ''TenantId'' d, tn_Password = b_str ''Password'' d, tn_SecretKey = b_str ''secretKey'' d,
     tn_CreatedAt = b_time ''CreatedAt'' d, tn_UpdatedAt = b_time ''UpdatedAt'' d, tn_Roles = b_strs ''roles'' d\<rparr>"

definition enc_product :: "Product \<Rightarrow> document" where
  "enc_product p = [(''TenantId'', BStr (pr_TenantId p)), (''ProductId'', BStr (pr_ProductId p)),
     (''ProductName'', BStr (pr_ProductName p)), (''Description'', BStr (pr_Description p)),
     (''TimeCreated'', e_time (pr_TimeCreated p)), (''TimeModified'', e_time (pr_TimeUpdated p)),
     (''CategoryId'', BStr (pr_Category p)), (''TopicFlavor'', BStr (pr_TopicFlavor p))]"

definition dec_product :: "document \<Rightarrow> Product" where
  "dec_product d = \<lparr>pr_TenantId = b_str ''TenantId'' d, pr_ProductId = b_str ''ProductId'' d, pr_ProductName = b_str ''ProductName'' d,
     pr_Description = b_str ''Description'' d, pr_TimeCreated = b_time ''TimeCreated'' d, pr_TimeUpdated = b_time ''TimeModified'' d,
     pr_Category = b_str ''CategoryId'' d, pr_TopicFlavor = b_str ''TopicFlavor'' d\<rparr>"

definition enc_device :: "Device \<Rightarrow> document" where
  "enc_device v = [(''ProductId'', BStr (dv_ProductId v)), (''DeviceId'', BStr (dv_DeviceId v)), (''DeviceName'', BStr (dv_DeviceName v)),
     (''DeviceStatus'', BStr (dv_DeviceStatus v)), (''DeviceSecret'', BStr (dv_DeviceSecret v)), (''Props'', BStr (dv_Props v)),
     (''TimeCreated'', e_time (dv_TimeCreated v)), (''TimeUpdated'', e_time (dv_TimeUpdated v))]"

definition dec_device :: "document \<Rightarrow> Device" where
  "dec_device d = \<lparr>dv_ProductId = b_str ''ProductId'' d, dv_DeviceId = b_str ''DeviceId'' d, dv_DeviceName = b_str ''DeviceName'' d,
     dv_DeviceStatus = b_str ''DeviceStatus'' d, dv_DeviceSecret = b_str ''DeviceSecret'' d, dv_Props = b_str ''Props'' d,
     dv_TimeCreated = b_time ''TimeCreated'' d, dv_TimeUpdated = b_time ''TimeUpdated'' d\<rparr>"

definition enc_runlog :: "Runlog \<Rightarrow> document" where
  "enc_runlog l = [(''ProductId'', BStr (rl_ProductId l)), (''DeviceId'', BStr (rl_DeviceId l)), (''DeviceName'', BStr (rl_DeviceName l)),
     (''DeviceStatus'', BStr (rl_DeviceStatus l)), (''IsShow'', BStr (rl_IsShow l)),
     (''TimeCreated'', e_time (rl_TimeCreated l)), (''TimeUpdated'', e_time (rl_TimeUpdated l))]"

definition enc_process :: "RuleDataProcess \<Rightarrow> document" where
  "enc_process p = [(''Topic'', BStr (dp_Topic p)), (''Condition'', BStr (dp_Condition p)), (''Fields'', e_strs (dp_Fields p))]"

definition dec_process :: "document \<Rightarrow> RuleDataProcess" where
  "dec_process d = \<lparr>dp_Topic = b_str ''Topic'' d, dp_Condition = b_str ''Condition'' d, dp_Fields = b_strs ''Fields'' d\<rparr>"

definition enc_target :: "RuleDataTarget \<Rightarrow> document" where
  "enc_target t = [(''type'', BStr (dt_Type t)), (''topic'', BStr (dt_Topic t)), (''databasehost'', BStr (dt_DatabaseHost t)),
     (''databasename'', BStr (dt_DatabaseName t)), (''collection'', BStr (dt_Collection t)),
     (''username'', BStr (dt_Username t)), (''password'', BStr (dt_Password t))]"

definition dec_target :: "document \<Rightarrow> RuleDataTarget" where
  "dec_target d = \<lparr>dt_Type = b_str ''type'' d, dt_Topic = b_str ''topic'' d, dt_DatabaseHost = b_str ''databasehost'' d,
     dt_DatabaseName = b_str ''databasename'' d, dt_Collection = b_str ''collection'' d,
     dt_Username = b_str ''username'' d, dt_Password = b_str ''password'' d\<rparr>"

definition enc_rule :: "Rule \<Rightarrow> document" where
  "enc_rule r = [(''ProductId'', BStr (ru_ProductId r)), (''RuleName'', BStr (ru_RuleName r)), (''Format'', BStr (ru_DataFormat r)),
     (''Desc'', BStr (ru_Description r)), (''Dataprocess'', BDoc (enc_process (ru_DataProcess r))),
     (''Datatarget'', BDoc (enc_target (ru_DataTarget r))), (''Status'', BStr (ru_Status r)),
     (''TimeCreated'', e_time (ru_TimeCreated r)), (''TimeUpdated'', e_time (ru_TimeUpdated r))]"

definition dec_rule :: "document \<Rightarrow> Rule" where
  "dec_rule d = \<lparr>ru_ProductId = b_str ''ProductId'' d, ru_RuleName = b_str ''RuleName'' d, ru_DataFormat = b_str ''Format'' d,
     ru_Description = b_str ''Desc'' d, ru_DataProcess = dec_process (b_doc ''Dataprocess'' d),
     ru_DataTarget = dec_target (b_doc ''Datatarget'' d), ru_Status = b_str ''Status'' d,
     ru_TimeCreated = b_time ''TimeCreated'' d, ru_TimeUpdated = b_time ''TimeUpdated'' d\<rparr>"

definition enc_flavor :: "TopicFlavor \<Rightarrow> document" where
  "enc_flavor f = [(''FlavorName'', BStr (tf_FlavorName f)), (''Builtin'', BBool (tf_Builtin f)), (''TenantId'', BStr (tf_TenantId f)),
     (''Topics'', BDoc (map (\<lambda>(t, r). (t, BInt (uint r))) (tf_Topics f)))]"

definition dec_flavor :: "document \<Rightarrow> TopicFlavor" where
  "dec_flavor d = \<lparr>tf_FlavorName = b_str ''FlavorName'' d, tf_Builtin = b_bool ''Builtin'' d, tf_TenantId = b_str ''TenantId'' d,
     tf_Topics = List.map_filter (\<lambda>(t, v). case v of BInt r \<Rightarrow> Some (t, word_of_int r) | _ \<Rightarrow> None) (b_doc ''Topics'' d)\<rparr>"

subsection \<open>Tenants\<close>

definition by_tenant :: "string \<Rightarrow> document" where "by_tenant i = [(''TenantId'', BStr i)]"

text \<open>The handle of the registry: reading the configuration ends the process when the item is missing.\<close>

definition registry_New :: "(string \<Rightarrow> bool) \<Rightarrow> config \<Rightarrow> (db_error, unit) outcome" where
  "registry_New dial c = (case MustString ''mongo'' c of
      Ok hosts \<Rightarrow> if dial hosts then Ok () else Err ErrServer
    | _ \<Rightarrow> Panic)"

definition CheckTenantNameAvailable :: "'db store \<Rightarrow> string \<Rightarrow> ('db, unit) reading" where
  "CheckTenantNameAvailable st i db = get_one (\<lambda>_. ()) st ''tenants'' (by_tenant i) db"

text \<open>Adding a document unless one like it is found: an error of the search counts as none found.\<close>

definition insert_new :: "'db store \<Rightarrow> string \<Rightarrow> document \<Rightarrow> string \<Rightarrow> document \<Rightarrow> 'db writing" where
  "insert_new st c q name d db = (case find_one st c q db of
      Ok _ \<Rightarrow> (Err (ErrExist name), db)
    | Err _ \<Rightarrow> st_insert st c d db
    | Panic \<Rightarrow> (Panic, db))"

definition RegisterTenant :: "'db store \<Rightarrow> Tenant \<Rightarrow> 'db writing" where
  "RegisterTenant st t db = insert_new st ''tenants'' (by_tenant (tn_TenantId t)) (tn_TenantId t) (enc_tenant t) db"

definition DeleteTenant :: "'db store \<Rightarrow> string \<Rightarrow> 'db writing" where
  "DeleteTenant st i db = st_remove st ''tenants'' (by_tenant i) db"

definition GetTenant :: "'db store \<Rightarrow> string \<Rightarrow> ('db, Tenant) reading" where
  "GetTenant st i db = get_one dec_tenant st ''tenants'' (by_tenant i) db"

definition GetAllTenants :: "'db store \<Rightarrow> ('db, Tenant list) reading" where
  "GetAllTenants st db = get_all dec_tenant st ''tenants'' [] (Some ''TenantId'') db"

definition UpdateTenant :: "'db store \<Rightarrow> string \<Rightarrow> Tenant \<Rightarrow> 'db writing" where
  "UpdateTenant st i t db = st_update st ''tenants'' (by_tenant i) (enc_tenant t) db"

subsection \<open>Products\<close>

definition by_product :: "string \<Rightarrow> document" where "by_product i = [(''ProductId'', BStr i)]"

definition by_tenant_product :: "Product \<Rightarrow> document" where
  "by_tenant_product p = [(''TenantId'', BStr (pr_TenantId p)), (''ProductId'', BStr (pr_ProductId p))]"

definition CheckProductNameAvailable :: "'db store \<Rightarrow> Product \<Rightarrow> 'db \<Rightarrow> bool" where
  "CheckProductNameAvailable st p db = (case find_one st ''products'' (by_tenant_product p) db of Ok _ \<Rightarrow> False | _ \<Rightarrow> True)"

definition RegisterProduct :: "'db store \<Rightarrow> Product \<Rightarrow> 'db writing" where
  "RegisterProduct st p db = insert_new st ''products'' (by_tenant_product p) (pr_ProductId p) (enc_product p) db"

definition DeleteProduct :: "'db store \<Rightarrow> string \<Rightarrow> 'db writing" where
  "DeleteProduct st i db = st_remove st ''products'' (by_product i) db"

definition GetProduct :: "'db store \<Rightarrow> string \<Rightarrow> ('db, Product) reading" where
  "GetProduct st i db = get_one dec_product st ''products'' (by_product i) db"

definition GetProducts :: "'db store \<Rightarrow> string \<Rightarrow> ('db, Product list) reading" where
  "GetProducts st tenantId db = get_all dec_product st ''products'' (by_tenant tenantId) (Some ''ProductId'') db"

text \<open>The conditions are a map: an association list with distinct keys, in which the tenant is put last.\<close>

definition GetProductsWithCondition :: "'db store \<Rightarrow> string \<Rightarrow> (string \<times> string) list \<Rightarrow> ('db, Product list) reading" where
  "GetProductsWithCondition st tenantId conditions db =
     get_all dec_product st ''products'' (AList.update ''TenantId'' (BStr tenantId) (map (\<lambda>(k, v). (k, BStr v)) conditions))
       (Some ''ProductId'') db"

definition GetProductDevices :: "'db store \<Rightarrow> string \<Rightarrow> ('db, Device list) reading" where
  "GetProductDevices st i db = get_all dec_device st ''devices'' (by_product i) (Some ''DeviceId'') db"

definition UpdateProduct :: "'db store \<Rightarrow> Product \<Rightarrow> 'db writing" where
  "UpdateProduct st p db = st_update st ''products'' (by_product (pr_ProductId p)) (enc_product p) db"

subsection \<open>Devices\<close>

definition by_device :: "string \<Rightarrow> string \<Rightarrow> document" where
  "by_device productId deviceId = [(''ProductId'', BStr productId), (''DeviceId'', BStr deviceId)]"

definition by_device_name :: "string \<Rightarrow> string \<Rightarrow> document" where
  "by_device_name productId deviceName = [(''ProductId'', BStr productId), (''DeviceName'', BStr deviceName)]"

definition by_device_id :: "string \<Rightarrow> document" where "by_device_id i = [(''DeviceId'', BStr i)]"

definition RegisterDevice :: "'db store \<Rightarrow> Device \<Rightarrow> 'db writing" where
  "RegisterDevice st v db = insert_new st ''devices'' (by_device_id (dv_DeviceId v)) (dv_DeviceId v) (enc_device v) db"

definition GetDevice :: "'db store \<Rightarrow> string \<Rightarrow> string \<Rightarrow> ('db, Device) reading" where
  "GetDevice st productId deviceId db = get_one dec_device st ''devices'' (by_device productId deviceId) db"

text \<open>The result argument is not the address of a slice, for which the database library panics.\<close>

definition GetDeviceList :: "'db store \<Rightarrow> string \<Rightarrow> ('db, Device list) reading" where
  "GetDeviceList st productId db = Panic"

definition GetDeviceByName :: "'db store \<Rightarrow> string \<Rightarrow> string \<Rightarrow> ('db, Device) reading" where
  "GetDeviceByName st productId deviceName db = get_one dec_device st ''devices'' (by_device_name productId deviceName) db"

definition GetDevicesByName :: "'db store \<Rightarrow> string \<Rightarrow> string \<Rightarrow> ('db, Device list) reading" where
  "GetDevicesByName st productId deviceName db = get_all dec_device st ''devices'' (by_device_name productId deviceName) None db"

fun BulkRegisterDevices :: "'db store \<Rightarrow> Device list \<Rightarrow> 'db writing" where
  "BulkRegisterDevices st [] db = (Ok (), db)"
| "BulkRegisterDevices st (v # vs) db = seqM (RegisterDevice st v) (\<lambda>_. BulkRegisterDevices st vs) db"

text \<open>
  The devices of a search are added when the search fails and not when it succeeds, so none are added; the
  error is that of the last search.
\<close>

fun bulk_get :: "'db store \<Rightarrow> Device list \<Rightarrow> (db_error, unit) outcome \<Rightarrow> ('db, Device list) reading" where
  "bulk_get st [] latest db = (case latest of Ok _ \<Rightarrow> Ok [] | Err e \<Rightarrow> Err e | Panic \<Rightarrow> Panic)"
| "bulk_get st (v # vs) latest db =
     (case GetDevicesByName st (dv_ProductId v) (dv_DeviceName v) db of
        Ok _ \<Rightarrow> bulk_get st vs (Ok ()) db
      | Err e \<Rightarrow> bulk_get st vs (Err e) db
      | Panic \<Rightarrow> Panic)"

definition BulkGetDevices :: "'db store \<Rightarrow> Device list \<Rightarrow> ('db, Device list) reading" where
  "BulkGetDevices st vs db = bulk_get st vs (Ok ()) db"

definition DeleteDevice :: "'db store \<Rightarrow> string \<Rightarrow> string \<Rightarrow> 'db writing" where
  "DeleteDevice st productId deviceId db = st_remove st ''devices'' (by_device productId deviceId) db"

fun BulkDeleteDevice :: "'db store \<Rightarrow> Device list \<Rightarrow> 'db writing" where
  "BulkDeleteDevice st [] db = (Ok (), db)"
| "BulkDeleteDevice st (v # vs) db = BulkDeleteDevice st vs (snd (DeleteDevice st (dv_ProductId v) (dv_DeviceId v) db))"

definition UpdateDevice :: "'db store \<Rightarrow> Device \<Rightarrow> 'db writing" where
  "UpdateDevice st v db = st_update st ''devices'' (by_device (dv_ProductId v) (dv_DeviceId v)) (enc_device v) db"

fun BulkUpdateDevice :: "'db store \<Rightarrow> Device list \<Rightarrow> 'db writing" where
  "BulkUpdateDevice st [] db = (Ok (), db)"
| "BulkUpdateDevice st (v # vs) db = BulkUpdateDevice st vs (snd (UpdateDevice st v db))"

definition SaveDeviceRunlog :: "'db store \<Rightarrow> int \<Rightarrow> int \<Rightarrow> string \<Rightarrow> string \<Rightarrow> string \<Rightarrow> 'db writing" where
  "SaveDeviceRunlog st now now' productId deviceId status db =
     st_insert st ''runlogs'' (enc_runlog \<lparr>rl_ProductId = productId, rl_DeviceId = deviceId, rl_DeviceName = [],
       rl_DeviceStatus = status, rl_IsShow = ''0'', rl_TimeCreated = now, rl_TimeUpdated = now'\<rparr>) db"

text \<open>
  With a log that is shown, the search for the newer logs is given a slice and not its address, which is a
  panic; without one, the search for the first log is given a struct and not its address,
  which is an error whether it finds something or not.
\<close>

definition GetShadowDevice :: "'db store \<Rightarrow> string \<Rightarrow> string \<Rightarrow> ('db, Runlog) reading" where
  "GetShadowDevice st productId deviceId db =
     (case find_one st ''runlogs'' [(''ProductId'', BStr productId), (''DeviceId'', BStr deviceId), (''IsShow'', BStr ''1'')] db of
        Ok _ \<Rightarrow> Panic
      | Panic \<Rightarrow> Panic
      | Err _ \<Rightarrow> (case find_one st ''runlogs'' (by_device productId deviceId) db of
          Ok _ \<Rightarrow> Err ErrTarget
        | Err e \<Rightarrow> Err e
        | Panic \<Rightarrow> Panic))"

subsection \<open>Rules\<close>

definition by_rule :: "string \<Rightarrow> string \<Rightarrow> document" where
  "by_rule productId ruleName = [(''RuleName'', BStr ruleName), (''ProductId'', BStr productId)]"

definition GetRulesWithStatus :: "'db store \<Rightarrow> string \<Rightarrow> 'db \<Rightarrow> Rule list" where
  "GetRulesWithStatus st status db = all_or_none (get_all dec_rule st ''rules'' [(''Status'', BStr status)] None db)"

text \<open>The test for an existing rule compares a query that was not run with nil, which it never is.\<close>

definition RegisterRule :: "'db store \<Rightarrow> Rule \<Rightarrow> 'db writing" where
  "RegisterRule st r db = st_insert st ''rules'' (enc_rule r) db"

definition GetRule :: "'db store \<Rightarrow> string \<Rightarrow> string \<Rightarrow> ('db, Rule) reading" where
  "GetRule st productId ruleName db = get_one dec_rule st ''rules'' (by_rule productId ruleName) db"

text \<open>A document is no string: reading one into a list of names is an error.\<close>

definition GetProductRuleNames :: "'db store \<Rightarrow> string \<Rightarrow> ('db, string list) reading" where
  "GetProductRuleNames st productId db = (case st_find st ''rules'' (by_product productId) (Some ''RuleName'') db of
      Ok [] \<Rightarrow> Ok []
    | Ok (_ # _) \<Rightarrow> Err ErrTarget
    | Err e \<Rightarrow> Err e
    | Panic \<Rightarrow> Panic)"

definition RemoveRule :: "'db store \<Rightarrow> string \<Rightarrow> string \<Rightarrow> 'db writing" where
  "RemoveRule st productId ruleName db = st_remove st ''rules'' (by_rule productId ruleName) db"

definition UpdateRule :: "'db store \<Rightarrow> Rule \<Rightarrow> 'db writing" where
  "UpdateRule st r db = st_update st ''rules'' (by_rule (ru_ProductId r) (ru_RuleName r)) (enc_rule r) db"

subsection \<open>Topic flavors\<close>

definition by_flavor :: "TopicFlavor \<Rightarrow> document" where
  "by_flavor f = [(''FlavorName'', BStr (tf_FlavorName f)), (''Builtin'', BBool (tf_Builtin f)), (''TenantId'', BStr (tf_TenantId f))]"

definition CreateTopicFlavor :: "'db store \<Rightarrow> TopicFlavor \<Rightarrow> 'db writing" where
  "CreateTopicFlavor st f db = insert_new st ''topicflavors''
     [(''flavorName'', BStr (tf_FlavorName f)), (''builtin'', BBool (tf_Builtin f)), (''tenantId'', BStr (tf_TenantId f))]
     (tf_FlavorName f) (enc_flavor f) db"

definition GetBuiltinTopicFlavors :: "'db store \<Rightarrow> 'db \<Rightarrow> TopicFlavor list" where
  "GetBuiltinTopicFlavors st db = all_or_none (get_all dec_flavor st ''topicflavors'' [(''Builtin'', BBool True)] None db)"

definition GetTenantTopicFlavors :: "'db store \<Rightarrow> string \<Rightarrow> 'db \<Rightarrow> TopicFlavor list" where
  "GetTenantTopicFlavors st tenantId db = all_or_none (get_all dec_flavor st ''topicflavors'' (by_tenant tenantId) None db)"

definition GetTenantTopicFlavor :: "'db store \<Rightarrow> string \<Rightarrow> string \<Rightarrow> ('db, TopicFlavor) reading" where
  "GetTenantTopicFlavor st tenantId flavorName db =
     get_one dec_flavor st ''topicflavors'' [(''TenantId'', BStr tenantId), (''FlavorName'', BStr flavorName)] db"

definition RemoveTopicFlavor :: "'db store \<Rightarrow> TopicFlavor \<Rightarrow> 'db writing" where
  "RemoveTopicFlavor st f db = st_remove st ''topicflavors'' (by_flavor f) db"

definition GetProductTopicFlavors :: "'db store \<Rightarrow> string \<Rightarrow> 'db \<Rightarrow> TopicFlavor list" where
  "GetProductTopicFlavors st productId db = (case GetProduct st productId db of
      Ok p \<Rightarrow> (case GetTenantTopicFlavor st (pr_ProductId p) (pr_TopicFlavor p) db of Ok f \<Rightarrow> [f] | _ \<Rightarrow> [])
    | _ \<Rightarrow> [])"

definition UpdateTopicFlavor :: "'db store \<Rightarrow> TopicFlavor \<Rightarrow> 'db writing" where
  "UpdateTopicFlavor st f db = st_update st ''topicflavors'' (by_flavor f) (enc_flavor f) db"

subsection \<open>What the database is relied on for\<close>

text \<open>
  A search gives the documents of the collection whose fields have the values asked for, a field that is an
  array also if it contains the value. An insertion adds the document unless a unique index of the collection
  forbids it; a removal takes one of the documents searched for away, an update replaces one.
\<close>

definition matches :: "document \<Rightarrow> document \<Rightarrow> bool" where
  "matches q d \<longleftrightarrow> list_all (\<lambda>(k, v). case map_of d k of None \<Rightarrow> False
     | Some w \<Rightarrow> w = v \<or> (case w of BArr ws \<Rightarrow> v \<in> set ws | _ \<Rightarrow> False)) q"

definition same_key :: "string list \<Rightarrow> document \<Rightarrow> document \<Rightarrow> bool" where
  "same_key ks d e \<longleftrightarrow> ks \<noteq> [] \<and> list_all (\<lambda>k. map_of d k \<noteq> None \<and> map_of d k = map_of e k) ks"

type_synonym 'db contents = "'db \<Rightarrow> string \<Rightarrow> document multiset"

definition find_law :: "'db store \<Rightarrow> 'db contents \<Rightarrow> bool" where
  "find_law st contents \<longleftrightarrow> (\<forall>c q order db. \<exists>ds. st_find st c q order db = Ok ds \<and> mset ds = filter_mset (matches q) (contents db c))"

definition insert_law :: "'db store \<Rightarrow> 'db contents \<Rightarrow> (string \<Rightarrow> string list) \<Rightarrow> bool" where
  "insert_law st contents uniq \<longleftrightarrow> (\<forall>c d db.
     if \<exists>e \<in># contents db c. same_key (uniq c) d e then st_insert st c d db = (Err ErrDuplicate, db)
     else \<exists>db'. st_insert st c d db = (Ok (), db') \<and> contents db' = (contents db)(c := add_mset d (contents db c)))"

definition remove_law :: "'db store \<Rightarrow> 'db contents \<Rightarrow> bool" where
  "remove_law st contents \<longleftrightarrow> (\<forall>c q db.
     if filter_mset (matches q) (contents db c) = {#} then st_remove st c q db = (Err ErrNotFound, db)
     else \<exists>db' e. st_remove st c q db = (Ok (), db') \<and> e \<in># contents db c \<and> matches q e \<and>
       contents db' = (contents db)(c := contents db c - {#e#}))"

definition update_law :: "'db store \<Rightarrow> 'db contents \<Rightarrow> (string \<Rightarrow> string list) \<Rightarrow> bool" where
  "update_law st contents uniq \<longleftrightarrow> (\<forall>c q d db.
     if filter_mset (matches q) (contents db c) = {#} then st_update st c q d db = (Err ErrNotFound, db)
     else \<exists>e. e \<in># contents db c \<and> matches q e \<and>
       (if \<exists>e' \<in># contents db c - {#e#}. same_key (uniq c) d e' then st_update st c q d db = (Err ErrDuplicate, db)
        else \<exists>db'. st_update st c q d db = (Ok (), db') \<and>
          contents db' = (contents db)(c := add_mset d (contents db c - {#e#}))))"

definition store_laws :: "'db store \<Rightarrow> 'db contents \<Rightarrow> (string \<Rightarrow> string list) \<Rightarrow> bool" where
  "store_laws st contents uniq \<longleftrightarrow>
     find_law st contents \<and> insert_law st contents uniq \<and> remove_law st contents \<and> update_law st contents uniq"

subsection \<open>Reading what was written\<close>

lemma find_one_none:
  assumes "store_laws st contents uniq"
  shows "find_one st c q db = Err ErrNotFound \<longleftrightarrow> filter_mset (matches q) (contents db c) = {#}"
    "find_one st c q db \<noteq> Panic"
    "find_one st c q db = Err e \<Longrightarrow> e = ErrNotFound"
proof -
  obtain ds where ds: "st_find st c q None db = Ok ds" "mset ds = filter_mset (matches q) (contents db c)"
    using assms unfolding store_laws_def find_law_def by blast
  show "find_one st c q db = Err ErrNotFound \<longleftrightarrow> filter_mset (matches q) (contents db c) = {#}"
    unfolding ds(2) [symmetric] using ds(1) by (cases ds) (simp_all add: find_one_def)
  show "find_one st c q db \<noteq> Panic" "find_one st c q db = Err e \<Longrightarrow> e = ErrNotFound"
    using ds(1) by (cases ds; simp add: find_one_def)+
qed

lemma find_one_some:
  assumes "store_laws st contents uniq" "find_one st c q db = Ok d"
  shows "d \<in># contents db c" "matches q d"
proof -
  obtain ds where ds: "st_find st c q None db = Ok ds" "mset ds = filter_mset (matches q) (contents db c)"
    using assms(1) unfolding store_laws_def find_law_def by blast
  have "d \<in># filter_mset (matches q) (contents db c)"
    unfolding ds(2) [symmetric] using ds(1) assms(2) by (cases ds) (simp_all add: find_one_def)
  then show "d \<in># contents db c" "matches q d" by simp_all
qed

lemma find_one_cases:
  assumes "store_laws st contents uniq"
  obtains (found) d where "find_one st c q db = Ok d" "d \<in># contents db c" "matches q d"
  | (absent) "find_one st c q db = Err ErrNotFound" "filter_mset (matches q) (contents db c) = {#}"
  using find_one_none [OF assms, of c q db] find_one_some [OF assms, of c q db] by (cases "find_one st c q db") auto

lemma find_one_unique:
  assumes "store_laws st contents uniq" "filter_mset (matches q) (contents db c) = {#d#}"
  shows "find_one st c q db = Ok d"
proof (rule find_one_cases [OF assms(1), of c q db])
  fix e assume "find_one st c q db = Ok e" "e \<in># contents db c" "matches q e"
  moreover from this have "e \<in># filter_mset (matches q) (contents db c)" by simp
  ultimately show ?thesis using assms(2) by simp
qed (use assms(2) in simp)

lemma insert_new_ok:
  assumes "store_laws st contents uniq" "insert_new st c q name d db = (Ok (), db')"
  shows "filter_mset (matches q) (contents db c) = {#}" "contents db' = (contents db)(c := add_mset d (contents db c))"
proof -
  have absent: "find_one st c q db = Err ErrNotFound" "filter_mset (matches q) (contents db c) = {#}"
    by (rule find_one_cases [OF assms(1), of c q db]; use assms(2) in \<open>simp add: insert_new_def\<close>)+
  then show "filter_mset (matches q) (contents db c) = {#}" by simp
  have "st_insert st c d db = (Ok (), db')" using absent(1) assms(2) by (simp add: insert_new_def)
  then show "contents db' = (contents db)(c := add_mset d (contents db c))"
    using assms(1) unfolding store_laws_def insert_law_def by (auto dest!: spec [of _ c] spec [of _ d] spec [of _ db] split: if_splits)
qed

lemma insert_new_err:
  assumes "store_laws st contents uniq" "insert_new st c q name d db = (Err e, db')"
  shows "db' = db"
  using assms(2) assms(1) [unfolded store_laws_def insert_law_def, THEN conjunct2, THEN conjunct1, rule_format, of db c d]
  by (auto simp: insert_new_def split: outcome.splits if_splits)

lemma matches_simps [simp]: "matches [] d" "matches ((k, v) # q) d \<longleftrightarrow> (case map_of d k of None \<Rightarrow> False
     | Some w \<Rightarrow> w = v \<or> (case w of BArr ws \<Rightarrow> v \<in> set ws | _ \<Rightarrow> False)) \<and> matches q d"
  by (simp_all add: matches_def)

definition to_millis :: "int \<Rightarrow> int" where "to_millis t = millis t * 1000000"

lemma strs_roundtrip [simp]: "List.map_filter (\<lambda>v. case v of BStr s \<Rightarrow> Some s | _ \<Rightarrow> None) (map BStr xs) = xs"
  by (induction xs) (simp_all add: List.map_filter_def)

lemma dec_enc_device:
  "dec_device (enc_device v) = v\<lparr>dv_TimeCreated := to_millis (dv_TimeCreated v), dv_TimeUpdated := to_millis (dv_TimeUpdated v)\<rparr>"
  by (simp add: dec_device_def enc_device_def b_str_def b_time_def e_time_def to_millis_def)

lemma dec_enc_tenant:
  "dec_tenant (enc_tenant t) = t\<lparr>tn_CreatedAt := to_millis (tn_CreatedAt t), tn_UpdatedAt := to_millis (tn_UpdatedAt t)\<rparr>"
  by (simp add: dec_tenant_def enc_tenant_def b_str_def b_time_def e_time_def to_millis_def b_strs_def e_strs_def)

lemma dec_enc_product:
  "dec_product (enc_product p) = p\<lparr>pr_TimeCreated := to_millis (pr_TimeCreated p), pr_TimeUpdated := to_millis (pr_TimeUpdated p)\<rparr>"
  by (simp add: dec_product_def enc_product_def b_str_def b_time_def e_time_def to_millis_def)

lemma dec_enc_rule:
  "dec_rule (enc_rule r) = r\<lparr>ru_TimeCreated := to_millis (ru_TimeCreated r), ru_TimeUpdated := to_millis (ru_TimeUpdated r)\<rparr>"
  by (simp add: dec_rule_def enc_rule_def dec_process_def enc_process_def dec_target_def enc_target_def b_str_def b_time_def
    b_doc_def b_strs_def e_strs_def e_time_def to_millis_def)

lemma dec_enc_flavor: "dec_flavor (enc_flavor f) = f"
proof -
  have "List.map_filter (\<lambda>(t, v). case v of BInt r \<Rightarrow> Some (t, word_of_int r) | _ \<Rightarrow> None)
      (map (\<lambda>(t, r). (t, BInt (uint r))) xs) = xs" for xs :: "(string \<times> byte) list"
    by (induction xs) (auto simp: List.map_filter_def)
  then show ?thesis by (simp add: dec_flavor_def enc_flavor_def b_str_def b_bool_def b_doc_def)
qed

text \<open>A database that keeps the laws: every collection a list.\<close>

definition list_store :: "(string \<Rightarrow> string list) \<Rightarrow> (string \<Rightarrow> document list) store" where
  "list_store uniq = \<lparr>
     st_find = (\<lambda>c q order db. Ok (filter (matches q) (db c))),
     st_insert = (\<lambda>c d db. if list_ex (same_key (uniq c) d) (db c) then (Err ErrDuplicate, db) else (Ok (), db(c := d # db c))),
     st_remove = (\<lambda>c q db. case filter (matches q) (db c) of
        [] \<Rightarrow> (Err ErrNotFound, db) | e # _ \<Rightarrow> (Ok (), db(c := remove1 e (db c)))),
     st_update = (\<lambda>c q d db. case filter (matches q) (db c) of
        [] \<Rightarrow> (Err ErrNotFound, db)
      | e # _ \<Rightarrow> if list_ex (same_key (uniq c) d) (remove1 e (db c)) then (Err ErrDuplicate, db)
                 else (Ok (), db(c := d # remove1 e (db c))))\<rparr>"

definition list_contents :: "(string \<Rightarrow> document list) contents" where
  "list_contents db c = mset (db c)"

lemma filter_Cons_mem: "filter P xs = e # es \<Longrightarrow> e \<in> set xs \<and> P e"
  by (metis Cons_eq_filterD list.set_intros(1) set_append UnCI)

lemma list_store_laws: "store_laws (list_store uniq) list_contents uniq"
proof -
  have upd: "list_contents (db(c := xs)) = (list_contents db)(c := mset xs)" for db c xs
    by (rule ext) (simp add: list_contents_def)
  have none: "filter_mset (matches q) (list_contents db c) = {#} \<longleftrightarrow> filter (matches q) (db c) = []" for q db c
    unfolding list_contents_def mset_filter [symmetric] by (auto simp: filter_empty_conv)
  have "find_law (list_store uniq) list_contents"
    by (simp add: find_law_def list_store_def list_contents_def)
  moreover have "insert_law (list_store uniq) list_contents uniq"
    unfolding insert_law_def by (auto simp: list_store_def upd list_ex_iff) (auto simp: list_contents_def)
  moreover have "remove_law (list_store uniq) list_contents"
    unfolding remove_law_def none
    by (auto simp: list_store_def upd split: list.splits dest!: filter_Cons_mem) (auto simp: list_contents_def)
  moreover have "update_law (list_store uniq) list_contents uniq"
    unfolding update_law_def none
  proof (intro allI)
    fix c q d db
    have rest: "list_contents db c - {#e#} = mset (remove1 e (db c))" for e by (simp add: list_contents_def)
    show "if filter (matches q) (db c) = [] then st_update (list_store uniq) c q d db = (Err ErrNotFound, db)
       else \<exists>e. e \<in># list_contents db c \<and> matches q e \<and>
         (if \<exists>e' \<in># list_contents db c - {#e#}. same_key (uniq c) d e' then st_update (list_store uniq) c q d db = (Err ErrDuplicate, db)
          else \<exists>db'. st_update (list_store uniq) c q d db = (Ok (), db') \<and>
            list_contents db' = (list_contents db)(c := add_mset d (list_contents db c - {#e#})))"
    proof (cases "filter (matches q) (db c)")
      case (Cons e es)
      then have "e \<in># list_contents db c" "matches q e" using filter_Cons_mem [OF Cons] by (simp_all add: list_contents_def)
      then show ?thesis
        unfolding rest using Cons by (auto simp: list_store_def list_ex_iff upd simp del: mset_remove1 intro!: exI [of _ e])
    qed (simp add: list_store_def)
  qed
  ultimately show ?thesis by (simp add: store_laws_def)
qed

lemma device_matches [simp]:
  "matches (by_device p i) (enc_device v) \<longleftrightarrow> dv_ProductId v = p \<and> dv_DeviceId v = i"
  "matches (by_device_id i) (enc_device v) \<longleftrightarrow> dv_DeviceId v = i"
  "matches (by_device_name p n) (enc_device v) \<longleftrightarrow> dv_ProductId v = p \<and> dv_DeviceName v = n"
  by (simp_all add: by_device_def by_device_id_def by_device_name_def enc_device_def)

lemma by_device_id: "matches (by_device p i) d \<Longrightarrow> matches (by_device_id i) d"
  by (auto simp: by_device_def by_device_id_def split: option.splits)

lemma filter_mset_none: "filter_mset P M = {#} \<longleftrightarrow> (\<forall>x \<in># M. \<not> P x)"
  by (induction M) auto

lemma filter_mset_weaken:
  assumes "filter_mset P M = {#}" "\<And>x. Q x \<Longrightarrow> P x"
  shows "filter_mset Q M = {#}"
  using assms by (auto simp: filter_mset_none)

lemma registered_device:
  assumes "store_laws st contents uniq" "RegisterDevice st v db = (Ok (), db')"
  shows "GetDevice st (dv_ProductId v) (dv_DeviceId v) db' =
      Ok (v\<lparr>dv_TimeCreated := to_millis (dv_TimeCreated v), dv_TimeUpdated := to_millis (dv_TimeUpdated v)\<rparr>)"
    "filter_mset (matches (by_device_id (dv_DeviceId v))) (contents db ''devices'') = {#}"
    "contents db' = (contents db)(''devices'' := add_mset (enc_device v) (contents db ''devices''))"
    "dv_DeviceId w = dv_DeviceId v \<Longrightarrow> RegisterDevice st w db' = (Err (ErrExist (dv_DeviceId v)), db')"
proof -
  note added = insert_new_ok [OF assms(1), OF assms(2) [unfolded RegisterDevice_def]]
  show none: "filter_mset (matches (by_device_id (dv_DeviceId v))) (contents db ''devices'') = {#}" by (rule added(1))
  show new: "contents db' = (contents db)(''devices'' := add_mset (enc_device v) (contents db ''devices''))" by (rule added(2))
  have "filter_mset (matches (by_device (dv_ProductId v) (dv_DeviceId v))) (contents db ''devices'') = {#}"
    by (rule filter_mset_weaken [OF none]) (rule by_device_id)
  then have one: "filter_mset (matches (by_device (dv_ProductId v) (dv_DeviceId v))) (contents db' ''devices'') = {#enc_device v#}"
    by (simp only: new fun_upd_same filter_mset_add_mset device_matches simp_thms if_True)
  show "GetDevice st (dv_ProductId v) (dv_DeviceId v) db' =
      Ok (v\<lparr>dv_TimeCreated := to_millis (dv_TimeCreated v), dv_TimeUpdated := to_millis (dv_TimeUpdated v)\<rparr>)"
    by (simp only: GetDevice_def get_one_def find_one_unique [OF assms(1), OF one] outcome.case dec_enc_device)
  have "filter_mset (matches (by_device_id (dv_DeviceId v))) (contents db' ''devices'') = {#enc_device v#}"
    by (simp only: new none fun_upd_same filter_mset_add_mset device_matches simp_thms if_True)
  note again = find_one_unique [OF assms(1), OF this]
  show "dv_DeviceId w = dv_DeviceId v \<Longrightarrow> RegisterDevice st w db' = (Err (ErrExist (dv_DeviceId v)), db')"
    by (simp add: again RegisterDevice_def insert_new_def)
qed

text \<open>C17. A device that was registered is found under its product and its identifier, with all its fields, the times
  cut to milliseconds. Nothing had that identifier before, nothing else changed, and whoever registers the identifier again
  is told that it exists.\<close>

theorem registered_device_is_found:
  assumes "store_laws st contents uniq" "RegisterDevice st v db = (Ok (), db')"
  shows "GetDevice st (dv_ProductId v) (dv_DeviceId v) db' =
      Ok (v\<lparr>dv_TimeCreated := to_millis (dv_TimeCreated v), dv_TimeUpdated := to_millis (dv_TimeUpdated v)\<rparr>) \<and>
    filter_mset (matches (by_device_id (dv_DeviceId v))) (contents db ''devices'') = {#} \<and>
    contents db' = (contents db)(''devices'' := add_mset (enc_device v) (contents db ''devices'')) \<and>
    (\<forall>w. dv_DeviceId w = dv_DeviceId v \<longrightarrow> RegisterDevice st w db' = (Err (ErrExist (dv_DeviceId v)), db'))"
  by (intro conjI allI impI) (rule registered_device [OF assms] | assumption)+

subsection \<open>One document for a device\<close>

datatype device_op = DRegister Device | DBulkRegister "Device list" | DDelete string string | DBulkDelete "Device list"
  | DUpdate Device | DBulkUpdate "Device list"

definition device_step :: "'db store \<Rightarrow> device_op \<Rightarrow> 'db \<Rightarrow> 'db" where
  "device_step st x db = (case x of
      DRegister v \<Rightarrow> snd (RegisterDevice st v db)
    | DBulkRegister vs \<Rightarrow> snd (BulkRegisterDevices st vs db)
    | DDelete p i \<Rightarrow> snd (DeleteDevice st p i db)
    | DBulkDelete vs \<Rightarrow> snd (BulkDeleteDevice st vs db)
    | DUpdate v \<Rightarrow> snd (UpdateDevice st v db)
    | DBulkUpdate vs \<Rightarrow> snd (BulkUpdateDevice st vs db))"

definition one_each :: "'db contents \<Rightarrow> 'db \<Rightarrow> bool" where
  "one_each contents db \<longleftrightarrow> (\<forall>i. size (filter_mset (matches (by_device_id i)) (contents db ''devices'')) \<le> 1)"

lemma register_one_each:
  assumes "store_laws st contents uniq" "one_each contents db"
  shows "one_each contents (snd (RegisterDevice st v db))"
proof (cases "RegisterDevice st v db")
  case (Pair r db')
  show ?thesis
  proof (cases r)
    case (Ok u)
    then have "RegisterDevice st v db = (Ok (), db')" using Pair by simp
    note new = insert_new_ok [OF assms(1), OF this [unfolded RegisterDevice_def]]
    have "size (filter_mset (matches (by_device_id i)) (contents db' ''devices'')) \<le> 1" for i
      using assms(2) new by (cases "i = dv_DeviceId v") (simp_all add: one_each_def)
    then show ?thesis using Pair by (simp add: one_each_def)
  next
    case (Err e)
    then have "db' = db" using insert_new_err [OF assms(1)] Pair unfolding RegisterDevice_def by blast
    then show ?thesis using Pair assms(2) by simp
  next
    case Panic
    have "fst (st_insert st c d db) \<noteq> Panic" for c d
      using assms(1) [unfolded store_laws_def insert_law_def, THEN conjunct2, THEN conjunct1, rule_format, of db c d]
      by (auto split: if_splits)
    then have False using Panic Pair find_one_none(2) [OF assms(1)]
      by (auto simp: RegisterDevice_def insert_new_def split: outcome.splits) (metis fst_conv)
    then show ?thesis ..
  qed
qed

lemma remove_cases:
  assumes "store_laws st contents uniq"
  obtains (absent) "st_remove st c q db = (Err ErrNotFound, db)" "filter_mset (matches q) (contents db c) = {#}"
  | (gone) db' e where "st_remove st c q db = (Ok (), db')" "e \<in># contents db c" "matches q e"
      "contents db' = (contents db)(c := contents db c - {#e#})"
proof -
  have "if filter_mset (matches q) (contents db c) = {#} then st_remove st c q db = (Err ErrNotFound, db)
     else \<exists>db' e. st_remove st c q db = (Ok (), db') \<and> e \<in># contents db c \<and> matches q e \<and>
       contents db' = (contents db)(c := contents db c - {#e#})"
    using assms unfolding store_laws_def remove_law_def by blast
  then show ?thesis using absent gone unfolding if_bool_eq_disj by blast
qed

lemma update_cases:
  assumes "store_laws st contents uniq"
  obtains (same) err where "st_update st c q d db = (Err err, db)"
  | (replaced) db' e where "st_update st c q d db = (Ok (), db')" "e \<in># contents db c" "matches q e"
      "contents db' = (contents db)(c := add_mset d (contents db c - {#e#}))"
proof -
  have "if filter_mset (matches q) (contents db c) = {#} then st_update st c q d db = (Err ErrNotFound, db)
     else \<exists>e. e \<in># contents db c \<and> matches q e \<and>
       (if \<exists>e' \<in># contents db c - {#e#}. same_key (uniq c) d e' then st_update st c q d db = (Err ErrDuplicate, db)
        else \<exists>db'. st_update st c q d db = (Ok (), db') \<and>
          contents db' = (contents db)(c := add_mset d (contents db c - {#e#})))"
    using assms unfolding store_laws_def update_law_def by blast
  then show ?thesis using same replaced by (auto split: if_splits)
qed

lemma size_le_one_eq: "size (filter_mset P M) \<le> 1 \<Longrightarrow> x \<in># M \<Longrightarrow> y \<in># M \<Longrightarrow> P x \<Longrightarrow> P y \<Longrightarrow> x = y"
proof (rule ccontr)
  assume h: "size (filter_mset P M) \<le> 1" "x \<in># M" "y \<in># M" "P x" "P y" "x \<noteq> y"
  then have "{#x, y#} \<subseteq># filter_mset P M" by (simp add: insert_subset_eq_iff in_diff_count)
  then have "size {#x, y#} \<le> size (filter_mset P M)" by (rule size_mset_mono)
  then show False using h(1) by simp
qed

lemma filter_remove_only:
  assumes "size (filter_mset P M) \<le> 1" "e \<in># M" "P e"
  shows "filter_mset P (M - {#e#}) = {#}"
proof -
  have "filter_mset P M = add_mset e (filter_mset P (M - {#e#}))" using assms(2,3) by (metis filter_mset_add_mset insert_DiffM)
  then have "size (filter_mset P M) = Suc (size (filter_mset P (M - {#e#})))" by (metis size_add_mset)
  then have "size (filter_mset P (M - {#e#})) = 0" using assms(1) by linarith
  then show ?thesis by (simp only: size_eq_0_iff_empty)
qed

lemma update_replaces:
  assumes "store_laws st contents uniq" "st_update st c q v db = (Ok (), db')"
  shows "\<exists>e. e \<in># contents db c \<and> matches q e \<and> contents db' = (contents db)(c := add_mset v (contents db c - {#e#}))"
  by (rule update_cases [OF assms(1), of c q v db]) (use assms(2) in auto)

lemma find_nothing:
  assumes "store_laws st contents uniq" "filter_mset (matches q) (contents db c) = {#}"
  shows "st_find st c q ord db = Ok []" "find_one st c q db = Err ErrNotFound" "st_remove st c q db = (Err ErrNotFound, db)"
    "st_update st c q v db = (Err ErrNotFound, db)"
proof -
  obtain ds where "st_find st c q ord db = Ok ds" "mset ds = filter_mset (matches q) (contents db c)"
    using assms(1) unfolding store_laws_def find_law_def by blast
  then show "st_find st c q ord db = Ok []" using assms(2) by simp
  show "find_one st c q db = Err ErrNotFound"
    by (rule find_one_cases [OF assms(1), of c q db]) (use assms(2) in \<open>auto simp only: filter_mset_none\<close>)
  show "st_remove st c q db = (Err ErrNotFound, db)"
    using assms unfolding store_laws_def remove_law_def by auto
  show "st_update st c q v db = (Err ErrNotFound, db)"
    using assms unfolding store_laws_def update_law_def by auto
qed

lemma insert_adds:
  assumes "store_laws st contents uniq" "st_insert st c v db = (Ok (), db')"
  shows "contents db' = (contents db)(c := add_mset v (contents db c))"
proof -
  have "if \<exists>e \<in># contents db c. same_key (uniq c) v e then st_insert st c v db = (Err ErrDuplicate, db)
     else \<exists>db'. st_insert st c v db = (Ok (), db') \<and> contents db' = (contents db)(c := add_mset v (contents db c))"
    using assms(1) unfolding store_laws_def insert_law_def by blast
  then show ?thesis using assms(2) by (auto split: if_splits)
qed

lemma delete_one_each:
  assumes "store_laws st contents uniq" "one_each contents db"
  shows "one_each contents (snd (DeleteDevice st p i db))"
proof (rule remove_cases [OF assms(1), of "''devices''" "by_device p i" db])
  fix db' e
  assume gone: "st_remove st ''devices'' (by_device p i) db = (Ok (), db')"
    "contents db' = (contents db)(''devices'' := contents db ''devices'' - {#e#})"
  have "size (filter_mset P (M - {#e#})) \<le> size (filter_mset P M)" for P and M :: "document multiset"
    by (intro size_mset_mono multiset_filter_mono) simp
  from order_trans [OF this] have "one_each contents db'"
    using assms(2) unfolding one_each_def gone(2) fun_upd_same by blast
  then show ?thesis by (simp add: DeleteDevice_def gone(1))
qed (simp add: DeleteDevice_def assms(2))

lemma update_one_each:
  assumes "store_laws st contents uniq" "one_each contents db"
  shows "one_each contents (snd (UpdateDevice st v db))"
proof (rule update_cases [OF assms(1), of "''devices''" "by_device (dv_ProductId v) (dv_DeviceId v)" "enc_device v" db])
  fix db' e
  assume new: "st_update st ''devices'' (by_device (dv_ProductId v) (dv_DeviceId v)) (enc_device v) db = (Ok (), db')"
    and e: "e \<in># contents db ''devices''" "matches (by_device (dv_ProductId v) (dv_DeviceId v)) e"
    and db': "contents db' = (contents db)(''devices'' := add_mset (enc_device v) (contents db ''devices'' - {#e#}))"
  obtain M where M: "contents db ''devices'' = add_mset e M" using e(1) by (metis insert_DiffM)
  have m: "matches (by_device_id (dv_DeviceId v)) e" using e(2) by (rule by_device_id)
  have "size (filter_mset (matches (by_device_id i)) (add_mset (enc_device v) M)) \<le> 1" for i
  proof -
    have "size (filter_mset (matches (by_device_id i)) (add_mset e M)) \<le> 1" using assms(2) M by (metis one_each_def)
    moreover have "size (filter_mset (matches (by_device_id i)) M) \<le> size (filter_mset (matches (by_device_id i)) (add_mset e M))"
      by simp
    ultimately have "size (filter_mset (matches (by_device_id i)) M) \<le> 1"
      "matches (by_device_id i) e \<Longrightarrow> size (filter_mset (matches (by_device_id i)) M) = 0" by (linarith, simp)
    then show ?thesis using m by (cases "i = dv_DeviceId v") simp_all
  qed
  then have "one_each contents db'" unfolding one_each_def db' M by simp
  then show ?thesis by (simp add: UpdateDevice_def new)
qed (simp add: UpdateDevice_def assms(2))

lemma bulk_one_each:
  assumes "store_laws st contents uniq" "one_each contents db"
  shows "one_each contents (snd (BulkRegisterDevices st vs db))" "one_each contents (snd (BulkDeleteDevice st vs db))"
    "one_each contents (snd (BulkUpdateDevice st vs db))"
proof -
  show "one_each contents (snd (BulkRegisterDevices st vs db))"
    using assms(2)
  proof (induction vs arbitrary: db)
    case (Cons v vs)
    note one = register_one_each [OF assms(1), OF Cons.prems, of v]
    show ?case
    proof (cases "RegisterDevice st v db")
      case (Pair r db')
      then show ?thesis using one Cons.IH [of db'] by (cases r) (simp_all add: seqM_def)
    qed
  qed simp
  show "one_each contents (snd (BulkDeleteDevice st vs db))"
    using assms(2) by (induction vs arbitrary: db) (simp_all add: delete_one_each [OF assms(1)])
  show "one_each contents (snd (BulkUpdateDevice st vs db))"
    using assms(2) by (induction vs arbitrary: db) (simp_all add: update_one_each [OF assms(1)])
qed

lemma device_step_one_each:
  assumes "store_laws st contents uniq" "one_each contents db"
  shows "one_each contents (device_step st x db)"
  by (cases x) (simp_all add: device_step_def register_one_each [OF assms] delete_one_each [OF assms]
    update_one_each [OF assms] bulk_one_each [OF assms])

text \<open>C18. Starting without devices, after any registrations, deletions and updates of devices, alone or in bulk, no
  two documents have the same device identifier, with or without a unique index in the database.\<close>

theorem device_identifiers_unique:
  assumes "store_laws st contents uniq" "contents db ''devices'' = {#}"
  shows "\<forall>i. size (filter_mset (matches (by_device_id i)) (contents (fold (device_step st) xs db) ''devices'')) \<le> 1"
proof -
  have "one_each contents db" using assms(2) by (simp add: one_each_def)
  then have "one_each contents (fold (device_step st) xs db)"
    by (induction xs arbitrary: db) (simp_all add: device_step_one_each [OF assms(1)])
  then show ?thesis by (simp add: one_each_def)
qed

definition sample_device :: Device where
  "sample_device = \<lparr>dv_ProductId = ''p1'', dv_DeviceId = ''d1'', dv_DeviceName = ''lamp'', dv_DeviceStatus = [],
     dv_DeviceSecret = ''s'', dv_Props = [], dv_TimeCreated = 5000000, dv_TimeUpdated = 5000000\<rparr>"

definition no_index :: "string \<Rightarrow> string list" where "no_index c = []"

definition one_device :: "string \<Rightarrow> document list" where
  "one_device = (\<lambda>_. [])(''devices'' := [enc_device sample_device])"

lemma register_sample_device: "RegisterDevice (list_store no_index) sample_device (\<lambda>_. []) = (Ok (), one_device)"
  by (simp add: RegisterDevice_def insert_new_def find_one_def list_store_def one_device_def)

theorem registered_device_is_found_witness:
  "GetDevice (list_store no_index) ''p1'' ''d1'' one_device = Ok sample_device \<and>
   RegisterDevice (list_store no_index) (sample_device\<lparr>dv_DeviceName := ''other''\<rparr>) one_device = (Err (ErrExist ''d1''), one_device)"
proof -
  note found = registered_device_is_found [OF list_store_laws, OF register_sample_device]
  have "RegisterDevice (list_store no_index) (sample_device\<lparr>dv_DeviceName := ''other''\<rparr>) one_device = (Err (ErrExist (dv_DeviceId sample_device)), one_device)"
    using found [THEN conjunct2, THEN conjunct2, THEN conjunct2, rule_format, of "sample_device\<lparr>dv_DeviceName := ''other''\<rparr>"] by simp
  with found [THEN conjunct1] show ?thesis by (simp add: sample_device_def to_millis_def millis_def)
qed

theorem device_identifiers_unique_witness:
  "size (filter_mset (matches (by_device_id ''d1'')) (list_contents (fold (device_step (list_store no_index))
     [DRegister sample_device, DBulkRegister [sample_device, sample_device], DUpdate sample_device] (\<lambda>_. [])) ''devices'')) \<le> 1"
proof -
  have "list_contents (\<lambda>_. []) ''devices'' = {#}" by (simp add: list_contents_def)
  from device_identifiers_unique [OF list_store_laws, OF this] show ?thesis by blast
qed

subsection \<open>Where the registry does not do what it says\<close>

text \<open>The flavors of a product are looked up under its own identifier in the place of its tenant's, and those of another
  tenant are not found.\<close>

lemma flavor_matches [simp]:
  "matches [(''TenantId'', BStr t), (''FlavorName'', BStr n)] (enc_flavor f) \<longleftrightarrow> tf_TenantId f = t \<and> tf_FlavorName f = n"
  "matches [(''flavorName'', x), (''builtin'', y), (''tenantId'', z)] (enc_flavor f) \<longleftrightarrow> False"
  by (auto simp: enc_flavor_def)

definition flavors_stored :: "'db contents \<Rightarrow> 'db \<Rightarrow> TopicFlavor set \<Rightarrow> bool" where
  "flavors_stored contents db fs \<longleftrightarrow> set_mset (contents db ''topicflavors'') = enc_flavor ` fs"

text \<open>When the topic flavors in the database are those of tenants whose identifiers differ from the product's, a product has
  no topic flavor, even if its tenant has the flavor the product names: the flavor is searched under the identifier of the product
  in place of the tenant's.\<close>

theorem product_flavor_not_found:
  assumes "store_laws st contents uniq" "flavors_stored contents db fs"
    "\<And>p. GetProduct st productId db = Ok p \<Longrightarrow> pr_ProductId p \<notin> tf_TenantId ` fs"
  shows "GetProductTopicFlavors st productId db = []"
proof (cases "GetProduct st productId db")
  case (Ok p)
  let ?q = "[(''TenantId'', BStr (pr_ProductId p)), (''FlavorName'', BStr (pr_TopicFlavor p))]"
  have "\<not> matches ?q d" if "d \<in># contents db ''topicflavors''" for d
  proof -
    have "d \<in> enc_flavor ` fs" using that assms(2) by (simp add: flavors_stored_def)
    then obtain f where "f \<in> fs" "d = enc_flavor f" by (rule imageE)
    then show ?thesis using assms(3) [OF Ok] by (simp only: flavor_matches) (metis imageI)
  qed
  then have "filter_mset (matches ?q) (contents db ''topicflavors'') = {#}" unfolding filter_mset_none by blast
  then have none: "find_one st ''topicflavors'' ?q db = Err ErrNotFound"
    by (rule find_one_none(1) [OF assms(1), THEN iffD2])
  show ?thesis
    by (simp only: GetProductTopicFlavors_def GetTenantTopicFlavor_def get_one_def Ok none outcome.case)
qed (simp_all add: GetProductTopicFlavors_def)

definition sample_product :: Product where
  "sample_product = \<lparr>pr_TenantId = ''t1'', pr_ProductId = ''p1'', pr_ProductName = ''lamps'', pr_Description = [],
     pr_TimeCreated = 0, pr_TimeUpdated = 0, pr_Category = [], pr_TopicFlavor = ''f''\<rparr>"

definition tenant_flavor :: TopicFlavor where
  "tenant_flavor = \<lparr>tf_FlavorName = ''f'', tf_Builtin = False, tf_TenantId = ''t1'', tf_Topics = [(''a'', 1)]\<rparr>"

definition flavored_db :: "string \<Rightarrow> document list" where
  "flavored_db = (\<lambda>_. [])(''products'' := [enc_product sample_product], ''topicflavors'' := [enc_flavor tenant_flavor])"

lemma get_sample_product: "GetProduct (list_store no_index) ''p1'' flavored_db = Ok sample_product"
proof -
  have "matches (by_product ''p1'') (enc_product sample_product)" by (simp add: by_product_def enc_product_def sample_product_def)
  moreover have "dec_product (enc_product sample_product) = sample_product"
    by (simp add: dec_enc_product sample_product_def to_millis_def millis_def)
  ultimately show ?thesis by (simp add: GetProduct_def get_one_def find_one_def list_store_def flavored_db_def)
qed

theorem product_flavor_not_found_witness:
  "GetProductTopicFlavors (list_store no_index) ''p1'' flavored_db = [] \<and>
   GetTenantTopicFlavor (list_store no_index) ''t1'' ''f'' flavored_db = Ok tenant_flavor"
proof
  have "flavors_stored list_contents flavored_db {tenant_flavor}"
    by (simp add: flavors_stored_def list_contents_def flavored_db_def)
  moreover have "pr_ProductId p \<notin> tf_TenantId ` {tenant_flavor}"
    if "GetProduct (list_store no_index) ''p1'' flavored_db = Ok p" for p
    using that by (auto simp: get_sample_product sample_product_def tenant_flavor_def)
  ultimately show "GetProductTopicFlavors (list_store no_index) ''p1'' flavored_db = []"
    by (rule product_flavor_not_found [OF list_store_laws])
  show "GetTenantTopicFlavor (list_store no_index) ''t1'' ''f'' flavored_db = Ok tenant_flavor"
  proof -
    have "matches [(''TenantId'', BStr ''t1''), (''FlavorName'', BStr ''f'')] (enc_flavor tenant_flavor)"
      unfolding flavor_matches by (simp add: tenant_flavor_def)
    then have "filter (matches [(''TenantId'', BStr ''t1''), (''FlavorName'', BStr ''f'')]) (flavored_db ''topicflavors'') = [enc_flavor tenant_flavor]"
      by (simp del: matches_simps flavor_matches add: flavored_db_def)
    then show ?thesis
      by (simp del: matches_simps flavor_matches add: GetTenantTopicFlavor_def get_one_def find_one_def list_store_def dec_enc_flavor)
  qed
qed

end
