(* ===== verification/Whaler.thy ===== *)
theory Whaler
  imports Registry Message_Bus "HOL-Library.Char_ord" "HOL-Library.List_Lexorder"
begin

text \<open>
  The rule engine (\<^verbatim>\<open>src/whaler\<close>): pipelines that extract data from publications and load it into a topic, rules
  with their pipelines, one executor for each product, and the engine that dispatches the actions on rules. The database, kafka and
  the query language for JSON data are parameters, and so are the two functions between a JSON text and its
  value.
\<close>

record ('db, 'k) whaler_deps =
  wd_store :: "'db store"
  wd_dial :: "string \<Rightarrow> bool"
  wd_kafka :: "'k kafka"
  wd_query :: "bytes \<Rightarrow> string \<Rightarrow> (unit, json option) outcome"
  wd_parse :: "bytes \<Rightarrow> json option"
  wd_text :: "json \<Rightarrow> bytes"

datatype whaler_error = ErrNoNeededData | ErrExtract | ErrFrame | ErrTarget string | ErrPipeline string | ErrMsg msg_error
  | ErrDb db_error | ErrProduct string | ErrRuleName string | ErrOperation string string

subsection \<open>Data frames and extraction\<close>

text \<open>The context of a frame holds the topic and the event, which is the one the pipeline was given and is shared with it.\<close>

datatype ctx_value = CtxTopic string | CtxEvent

record DataFrame =
  df_items :: "(string \<times> json) list"
  df_ctx :: "(string \<times> ctx_value) list"

definition NewDataFrame :: DataFrame where
  "NewDataFrame = \<lparr>df_items = [], df_ctx = []\<rparr>"

definition AddField :: "string \<Rightarrow> json \<Rightarrow> DataFrame \<Rightarrow> DataFrame" where
  "AddField k v f = f\<lparr>df_items := AList.update k v (df_items f)\<rparr>"

definition GetField :: "string \<Rightarrow> DataFrame \<Rightarrow> json option" where
  "GetField k f = map_of (df_items f) k"

definition Context :: "string \<Rightarrow> DataFrame \<Rightarrow> ctx_value option" where
  "Context k f = map_of (df_ctx f) k"

definition SetContext :: "string \<Rightarrow> ctx_value \<Rightarrow> DataFrame \<Rightarrow> DataFrame" where
  "SetContext k v f = f\<lparr>df_ctx := AList.update k v (df_ctx f)\<rparr>"

text \<open>The members of an object are written in the order of their names.\<close>

definition frame_Serialize :: "DataFrame \<Rightarrow> json" where
  "frame_Serialize f = JObj (map (\<lambda>(k, v). (json_string k, v)) (sort_key fst (df_items f)))"

definition getVariableValue :: "string \<Rightarrow> TopicPublishEvent \<Rightarrow> json" where
  "getVariableValue name e = (if name = ''deviceId'' then j_str (tp_ClientID e) else JNull)"

definition getFunctionValue :: "string \<Rightarrow> TopicPublishEvent \<Rightarrow> json option" where
  "getFunctionValue name e = None"

definition add_selected :: "(string \<times> json) list \<Rightarrow> TopicPublishEvent \<Rightarrow> string \<Rightarrow> DataFrame \<Rightarrow> DataFrame" where
  "add_selected results e field f = (case map_of results field of
      Some v \<Rightarrow> AddField field v f
    | None \<Rightarrow>
        (if field \<noteq> [] \<and> hd field = CHR ''$'' then AddField field (getVariableValue (tl field) e) f
         else case getFunctionValue field e of Some v \<Rightarrow> AddField field v f | None \<Rightarrow> f))"

text \<open>
  Without a condition the payload is read into the frame itself, whose fields are not exported: an object leaves it
  empty, and \<^verbatim>\<open>null\<close> makes the pointer to it nil, which is \<open>None\<close>. An answer of the query that is nil without an error is a panic.
\<close>

definition Extract :: "('db, 'k) whaler_deps \<Rightarrow> RuleDataProcess \<Rightarrow> TopicPublishEvent \<Rightarrow> (whaler_error, DataFrame option) outcome" where
  "Extract d dp e =
     (let f = SetContext ''event'' CtxEvent (SetContext ''topic'' (CtxTopic (tp_Topic e)) NewDataFrame) in
      if tp_Topic e = dp_Topic dp
      then (if dp_Condition dp = []
            then (case wd_parse d (tp_Payload e) of
                    Some JNull \<Rightarrow> Ok None
                  | Some (JObj _) \<Rightarrow> Ok (Some f)
                  | _ \<Rightarrow> Err ErrExtract)
            else (case wd_query d (tp_Payload e) (dp_Condition dp) of
                    Err _ \<Rightarrow> Err ErrExtract
                  | Panic \<Rightarrow> Panic
                  | Ok None \<Rightarrow> Panic
                  | Ok (Some (JObj results)) \<Rightarrow> Ok (Some (fold (add_selected results e) (dp_Fields dp) f))
                  | Ok (Some _) \<Rightarrow> Err ErrNoNeededData))
      else Err ErrNoNeededData)"

subsection \<open>Pipelines\<close>

datatype noTransformer = NoTransformer

record topicLoader =
  tl_config :: config
  tl_producer :: kafkaProducer
  tl_tenantId :: string

record defaultPipeline =
  pl_name :: string
  pl_extractor :: "RuleDataProcess option"
  pl_transformers :: "noTransformer list"
  pl_loaders :: "topicLoader list"

definition NewPipeline :: "string \<Rightarrow> defaultPipeline" where
  "NewPipeline name = \<lparr>pl_name = name, pl_extractor = None, pl_transformers = [], pl_loaders = []\<rparr>"

definition AddExtractor :: "RuleDataProcess \<Rightarrow> defaultPipeline \<Rightarrow> defaultPipeline" where
  "AddExtractor t p = p\<lparr>pl_extractor := Some t\<rparr>"

definition AddTransformer :: "noTransformer \<Rightarrow> defaultPipeline \<Rightarrow> defaultPipeline" where
  "AddTransformer t p = p\<lparr>pl_transformers := pl_transformers p @ [t]\<rparr>"

definition AddLoader :: "topicLoader \<Rightarrow> defaultPipeline \<Rightarrow> defaultPipeline" where
  "AddLoader t p = p\<lparr>pl_loaders := pl_loaders p @ [t]\<rparr>"

definition event_bus :: "string \<Rightarrow> string" where
  "event_bus tenant = ''iot-'' @ tenant @ ''-event-broker''"

definition Transform :: "noTransformer \<Rightarrow> DataFrame option \<Rightarrow> (whaler_error, DataFrame option) outcome" where
  "Transform t f = Ok f"

fun transform_all :: "noTransformer list \<Rightarrow> DataFrame option \<Rightarrow> (whaler_error, DataFrame option) outcome" where
  "transform_all [] f = Ok f"
| "transform_all (t # ts) f = (case Transform t f of Ok g \<Rightarrow> transform_all ts g | Err e \<Rightarrow> Err e | Panic \<Rightarrow> Panic)"

text \<open>The state of a pipeline at work: the event it was given, which the loaders change, and kafka.\<close>

type_synonym ('k, 'a) piping = "(TopicPublishEvent \<times> 'k, whaler_error, 'a) go"

definition tl_Load :: "('db, 'k) whaler_deps \<Rightarrow> topicLoader \<Rightarrow> DataFrame option \<Rightarrow> ('k, unit) piping" where
  "tl_Load d l frame s = (case frame of
      None \<Rightarrow> (Panic, s)
    | Some f \<Rightarrow>
        (if Context ''event'' f = Some CtxEvent
         then (case MustString ''topic'' (tl_config l) of
             Ok dstTopic \<Rightarrow>
               (let e = (fst s)\<lparr>tp_Payload := wd_text d (frame_Serialize f), tp_Topic := dstTopic\<rparr>;
                    msg = MBroker \<lparr>mb_TopicName = event_bus (tl_tenantId l), mb_EventType = 3,
                      mb_Payload = wd_text d (marshal (TopicPublish e))\<rparr> in
                case kp_SendMessage (wd_kafka d) (tl_producer l) msg (snd s) of
                  (Ok _, k) \<Rightarrow> (Ok (), e, k)
                | (Err x, k) \<Rightarrow> (Err (ErrMsg x), e, k)
                | (Panic, k) \<Rightarrow> (Panic, e, k))
           | _ \<Rightarrow> (Panic, s))
         else (Err ErrFrame, s)))"

fun load_all :: "('db, 'k) whaler_deps \<Rightarrow> topicLoader list \<Rightarrow> DataFrame option \<Rightarrow> ('k, unit) piping" where
  "load_all d [] f s = (Ok (), s)"
| "load_all d (l # ls) f s = seqM (tl_Load d l f) (\<lambda>_. load_all d ls f) s"

definition PushData :: "('db, 'k) whaler_deps \<Rightarrow> defaultPipeline \<Rightarrow> ('k, unit) piping" where
  "PushData d p s = (case pl_extractor p of
      None \<Rightarrow> (Err (ErrPipeline (pl_name p)), s)
    | Some dp \<Rightarrow>
        (if pl_loaders p = [] then (Err (ErrPipeline (pl_name p)), s)
         else case Extract d dp (fst s) of
           Ok f \<Rightarrow> (case transform_all (pl_transformers p) f of
               Ok g \<Rightarrow> load_all d (pl_loaders p) g s
             | Err x \<Rightarrow> (Err x, s)
             | Panic \<Rightarrow> (Panic, s))
         | Err ErrNoNeededData \<Rightarrow> (Ok (), s)
         | Err _ \<Rightarrow> (Err (ErrPipeline (pl_name p)), s)
         | Panic \<Rightarrow> (Panic, s)))"

subsection \<open>Rules\<close>

record rule =
  wr_Rule :: Rule
  wr_ppline :: "defaultPipeline option"
  wr_tenantId :: string

record RuleContext =
  rc_ProductId :: string
  rc_RuleName :: string
  rc_Action :: string

definition NewRuleContext :: "string \<Rightarrow> string \<Rightarrow> string \<Rightarrow> RuleContext" where
  "NewRuleContext productId ruleName action = \<lparr>rc_ProductId = productId, rc_RuleName = ruleName, rc_Action = action\<rparr>"

text \<open>The loader's producer is made from the configuration of the pipeline, which has the value of \<^verbatim>\<open>kafka\<close> of the engine's.\<close>

definition newTopicLoader :: "('db, 'k) whaler_deps \<Rightarrow> config \<Rightarrow> 'k \<Rightarrow> (whaler_error, topicLoader) outcome" where
  "newTopicLoader d c k = (case newKafkaProducer (wd_kafka d) c [] True k of
      Ok p \<Rightarrow> (case MustString ''tenantId'' c of
          Ok tenantId \<Rightarrow> Ok \<lparr>tl_config = c, tl_producer = p, tl_tenantId = tenantId\<rparr>
        | _ \<Rightarrow> Panic)
    | Err e \<Rightarrow> Err (ErrMsg e)
    | Panic \<Rightarrow> Panic)"

text \<open>The items of the builder's configuration that are strings. The two items that are structures, the data process and the data
  target, are read back only by the extractor and are handed to it directly.\<close>

definition pipeline_config :: "string \<Rightarrow> Rule \<Rightarrow> string \<Rightarrow> string \<Rightarrow> config" where
  "pipeline_config tenantId r mongo kafka =
     AddConfigItem ''topic'' (Some (CStr (dt_Topic (ru_DataTarget r))))
    (AddConfigItem ''kafka'' (Some (CStr kafka))
    (AddConfigItem ''mongo'' (Some (CStr mongo))
    (AddConfigItem ''ruleName'' (Some (CStr (ru_RuleName r)))
    (AddConfigItem ''productId'' (Some (CStr (ru_ProductId r)))
    (AddConfigItem ''tenantId'' (Some (CStr tenantId)) (newConfig ''pipeline''))))))"

definition setupPipeline :: "('db, 'k) whaler_deps \<Rightarrow> config \<Rightarrow> 'k \<Rightarrow> rule \<Rightarrow> (whaler_error, rule) outcome" where
  "setupPipeline d c k p =
     (let r = wr_Rule p in
      if dt_Type (ru_DataTarget r) = ''topic''
      then (case MustString ''mongo'' c of
          Ok mongo \<Rightarrow> (case MustString ''kafka'' c of
              Ok kafka \<Rightarrow> (case newTopicLoader d (pipeline_config (wr_tenantId p) r mongo kafka) k of
                  Ok l \<Rightarrow> Ok (p\<lparr>wr_ppline := Some (AddLoader l (AddExtractor (ru_DataProcess r) (NewPipeline (ru_RuleName r))))\<rparr>)
                | Err e \<Rightarrow> Err e
                | Panic \<Rightarrow> Panic)
            | _ \<Rightarrow> Panic)
        | _ \<Rightarrow> Panic)
      else Err (ErrTarget (dt_Type (ru_DataTarget r))))"

definition stored_rule :: "('db, 'k) whaler_deps \<Rightarrow> config \<Rightarrow> RuleContext \<Rightarrow> 'db \<Rightarrow> (whaler_error, Rule) outcome" where
  "stored_rule d c ctx db = (case registry_New (wd_dial d) c of
      Ok _ \<Rightarrow> (case GetRule (wd_store d) (rc_ProductId ctx) (rc_RuleName ctx) db of
          Ok r \<Rightarrow> Ok r | Err e \<Rightarrow> Err (ErrDb e) | Panic \<Rightarrow> Panic)
    | Err e \<Rightarrow> Err (ErrDb e)
    | Panic \<Rightarrow> Panic)"

definition newRule :: "('db, 'k) whaler_deps \<Rightarrow> config \<Rightarrow> string \<Rightarrow> RuleContext \<Rightarrow> 'db \<Rightarrow> 'k \<Rightarrow> (whaler_error, rule) outcome" where
  "newRule d c tenantId ctx db k = (case stored_rule d c ctx db of
      Ok r \<Rightarrow> setupPipeline d c k \<lparr>wr_Rule = r, wr_ppline = None, wr_tenantId = tenantId\<rparr>
    | Err _ \<Rightarrow> Err (ErrProduct (rc_ProductId ctx))
    | Panic \<Rightarrow> Panic)"

definition rule_handle :: "('db, 'k) whaler_deps \<Rightarrow> rule \<Rightarrow> ('k, unit) piping" where
  "rule_handle d p s = (case wr_ppline p of None \<Rightarrow> (Panic, s) | Some ppline \<Rightarrow> PushData d ppline s)"

subsection \<open>Executors\<close>

text \<open>The map of the rules is in the order in which it is iterated. A consumer that could not be made is nil.\<close>

record ruleExecutor =
  ex_tenantId :: string
  ex_productId :: string
  ex_rules :: "(string \<times> rule) list"
  ex_started :: bool
  ex_consumer :: "kafkaConsumer option"

definition newRuleExecutor :: "('db, 'k) whaler_deps \<Rightarrow> config \<Rightarrow> string \<Rightarrow> 'db \<Rightarrow> (whaler_error, ruleExecutor) outcome" where
  "newRuleExecutor d c productId db = (case registry_New (wd_dial d) c of
      Ok _ \<Rightarrow> (case GetProduct (wd_store d) productId db of
          Ok product \<Rightarrow> Ok \<lparr>ex_tenantId = pr_TenantId product, ex_productId = productId, ex_rules = [], ex_started = False,
            ex_consumer = (case newKafkaConsumer c (''whaler-rule-executor-'' @ productId) of Ok x \<Rightarrow> Some x | _ \<Rightarrow> None)\<rparr>
        | Err _ \<Rightarrow> Err (ErrProduct productId)
        | Panic \<Rightarrow> Panic)
    | Err e \<Rightarrow> Err (ErrDb e)
    | Panic \<Rightarrow> Panic)"

definition ex_start :: "('db, 'k) whaler_deps \<Rightarrow> 'k \<Rightarrow> (ruleExecutor, whaler_error, unit) go" where
  "ex_start d k p =
     (if ex_started p then (Ok (), p)
      else case ex_consumer p of
        None \<Rightarrow> (Panic, p)
      | Some c \<Rightarrow> (case kc_Subscribe (wd_kafka d) k (event_bus (ex_tenantId p)) (Some 0) c of
          (Ok _, c') \<Rightarrow> (Ok (), p\<lparr>ex_consumer := Some c', ex_started := True\<rparr>)
        | (Err e, c') \<Rightarrow> (Err (ErrMsg e), p\<lparr>ex_consumer := Some c'\<rparr>)
        | (Panic, c') \<Rightarrow> (Panic, p\<lparr>ex_consumer := Some c'\<rparr>)))"

definition createRule :: "('db, 'k) whaler_deps \<Rightarrow> config \<Rightarrow> 'db \<Rightarrow> 'k \<Rightarrow> RuleContext \<Rightarrow> (ruleExecutor, whaler_error, unit) go" where
  "createRule d c db k ctx p =
     (if map_of (ex_rules p) (rc_RuleName ctx) = None
      then (case newRule d c (ex_tenantId p) ctx db k of
          Ok r \<Rightarrow> (Ok (), p\<lparr>ex_rules := ex_rules p @ [(rc_RuleName ctx, r)]\<rparr>)
        | Err _ \<Rightarrow> (Err (ErrRuleName (rc_RuleName ctx)), p)
        | Panic \<Rightarrow> (Panic, p))
      else (Err (ErrRuleName (rc_RuleName ctx)), p))"

definition removeRule :: "RuleContext \<Rightarrow> (ruleExecutor, whaler_error, unit) go" where
  "removeRule ctx p =
     (if map_of (ex_rules p) (rc_RuleName ctx) \<noteq> None then (Ok (), p\<lparr>ex_rules := AList.delete (rc_RuleName ctx) (ex_rules p)\<rparr>)
      else (Err (ErrRuleName (rc_RuleName ctx)), p))"

text \<open>The rule that replaces the old one is the registry's, without a pipeline and without a tenant.\<close>

definition updateRule :: "('db, 'k) whaler_deps \<Rightarrow> config \<Rightarrow> 'db \<Rightarrow> RuleContext \<Rightarrow> (ruleExecutor, whaler_error, unit) go" where
  "updateRule d c db ctx p = (case stored_rule d c ctx db of
      Ok r \<Rightarrow>
        (if map_of (ex_rules p) (rc_RuleName ctx) \<noteq> None
         then (Ok (), p\<lparr>ex_rules := AList.update (rc_RuleName ctx) \<lparr>wr_Rule = r, wr_ppline = None, wr_tenantId = []\<rparr> (ex_rules p)\<rparr>)
         else (Err (ErrRuleName (rc_RuleName ctx)), p))
    | Err _ \<Rightarrow> (Err (ErrRuleName (rc_RuleName ctx)), p)
    | Panic \<Rightarrow> (Panic, p))"

definition set_status :: "string \<Rightarrow> string \<Rightarrow> (ruleExecutor, whaler_error, unit) go" where
  "set_status name status p = (case map_of (ex_rules p) name of
      Some r \<Rightarrow> (Ok (), p\<lparr>ex_rules := AList.update name (r\<lparr>wr_Rule := (wr_Rule r)\<lparr>ru_Status := status\<rparr>\<rparr>) (ex_rules p)\<rparr>)
    | None \<Rightarrow> (Err (ErrRuleName name), p))"

definition startRule :: "('db, 'k) whaler_deps \<Rightarrow> 'k \<Rightarrow> RuleContext \<Rightarrow> (ruleExecutor, whaler_error, unit) go" where
  "startRule d k ctx = seqM (ex_start d k) (\<lambda>_. set_status (rc_RuleName ctx) ''started'')"

definition stopRule :: "RuleContext \<Rightarrow> (ruleExecutor, whaler_error, unit) go" where
  "stopRule ctx = set_status (rc_RuleName ctx) ''stoped''"

text \<open>The rules are handled one after the other on the one event: an error is logged and the next rule follows.\<close>

fun execute_rules :: "('db, 'k) whaler_deps \<Rightarrow> rule list \<Rightarrow> ('k, unit) piping" where
  "execute_rules d [] s = (Ok (), s)"
| "execute_rules d (r # rs) s =
     (if ru_Status (wr_Rule r) = ''started''
      then (case rule_handle d r s of (Panic, t) \<Rightarrow> (Panic, t) | (_, t) \<Rightarrow> execute_rules d rs t)
      else execute_rules d rs s)"

definition execute :: "('db, 'k) whaler_deps \<Rightarrow> ruleExecutor \<Rightarrow> ('k, unit) piping" where
  "execute d p = execute_rules d (map snd (ex_rules p))"

definition ex_messageHandlerFunc :: "('db, 'k) whaler_deps \<Rightarrow> ruleExecutor \<Rightarrow> message \<Rightarrow> 'k \<Rightarrow> (whaler_error, unit) outcome \<times> 'k" where
  "ex_messageHandlerFunc d p msg k = (case msg of
      MBroker b \<Rightarrow>
        (case Decode \<lparr>bm_TopicName = mb_TopicName b, bm_EventType = mb_EventType b, bm_Payload = wd_parse d (mb_Payload b)\<rparr> of
          Ok (TopicPublish e) \<Rightarrow>
            (if tp_ProductID e = ex_productId p then (case execute d p (e, k) of (r, _, k') \<Rightarrow> (r, k')) else (Ok (), k))
        | _ \<Rightarrow> (Ok (), k))
    | _ \<Rightarrow> (Ok (), k))"

subsection \<open>The engine\<close>

record ('db, 'k) ruleEngine =
  en_config :: config
  en_executors :: "(string \<times> ruleExecutor) list"
  en_consumer :: "kafkaConsumer option"
  en_db :: 'db
  en_kafka :: 'k

type_synonym ('db, 'k, 'a) engine = "(('db, 'k) ruleEngine, whaler_error, 'a) go"

definition newRuleEngine :: "('db, 'k) whaler_deps \<Rightarrow> config \<Rightarrow> 'db \<Rightarrow> 'k \<Rightarrow> (whaler_error, ('db, 'k) ruleEngine) outcome" where
  "newRuleEngine d c db k = (case registry_New (wd_dial d) c of
      Ok _ \<Rightarrow> Ok \<lparr>en_config = c, en_executors = [],
        en_consumer = (case newKafkaConsumer c ''whaler-engine'' of Ok x \<Rightarrow> Some x | _ \<Rightarrow> None), en_db = db, en_kafka = k\<rparr>
    | Err e \<Rightarrow> Err (ErrDb e)
    | Panic \<Rightarrow> Panic)"

definition on_executor :: "string \<Rightarrow> (ruleExecutor, whaler_error, unit) go \<Rightarrow> ('db, 'k, unit) engine" where
  "on_executor productId m s = (case map_of (en_executors s) productId of
      None \<Rightarrow> (Panic, s)
    | Some p \<Rightarrow> (case m p of (r, q) \<Rightarrow> (r, s\<lparr>en_executors := AList.update productId q (en_executors s)\<rparr>)))"

definition ensure_executor :: "('db, 'k) whaler_deps \<Rightarrow> string \<Rightarrow> ('db, 'k, unit) engine" where
  "ensure_executor d productId s = (case map_of (en_executors s) productId of
      Some _ \<Rightarrow> (Ok (), s)
    | None \<Rightarrow> (case newRuleExecutor d (en_config s) productId (en_db s) of
        Ok p \<Rightarrow> (case ex_start d (en_kafka s) p of
            (Ok _, q) \<Rightarrow> (Ok (), s\<lparr>en_executors := en_executors s @ [(productId, q)]\<rparr>)
          | (Err e, _) \<Rightarrow> (Err e, s)
          | (Panic, _) \<Rightarrow> (Panic, s))
      | Err e \<Rightarrow> (Err e, s)
      | Panic \<Rightarrow> (Panic, s)))"

definition dispatchRule :: "('db, 'k) whaler_deps \<Rightarrow> RuleContext \<Rightarrow> ('db, 'k, unit) engine" where
  "dispatchRule d ctx s =
     (let productId = rc_ProductId ctx; action = rc_Action ctx;
          c = en_config s; db = en_db s; k = en_kafka s;
          refuse = (Err (ErrOperation productId (rc_RuleName ctx)), s);
          found = map_of (en_executors s) productId \<noteq> None in
      if action = ''create''
      then seqM (ensure_executor d productId) (\<lambda>_. on_executor productId (createRule d c db k ctx)) s
      else if \<not> found then refuse
      else if action = ''remove'' then on_executor productId (removeRule ctx) s
      else if action = ''update'' then on_executor productId (updateRule d c db ctx) s
      else if action = ''start'' then on_executor productId (startRule d k ctx) s
      else if action = ''stop'' then on_executor productId (stopRule ctx) s
      else refuse)"

text \<open>\<^verbatim>\<open>HandleRule\<close> hands the context to the loop of the engine and waits for the answer of \<^verbatim>\<open>dispatchRule\<close>.\<close>

definition HandleRule :: "('db, 'k) whaler_deps \<Rightarrow> RuleContext \<Rightarrow> ('db, 'k, unit) engine" where
  "HandleRule d ctx = dispatchRule d ctx"

definition rule_action :: "string \<Rightarrow> string" where
  "rule_action a = (if a = ActionCreate then ''create'' else if a = ActionRemove then ''remove'' else if a = ActionUpdate then ''update''
     else if a = ActionStart then ''start'' else if a = ActionStop then ''stop'' else [])"

definition en_messageHandlerFunc :: "('db, 'k) whaler_deps \<Rightarrow> message \<Rightarrow> ('db, 'k, unit) engine" where
  "en_messageHandlerFunc d msg s = (case msg of
      MRule r \<Rightarrow> (case dispatchRule d (NewRuleContext (mr_ProductId r) (mr_RuleName r) (rule_action (mr_Action r))) s of
          (Panic, t) \<Rightarrow> (Panic, t)
        | (_, t) \<Rightarrow> (Ok (), t))
    | _ \<Rightarrow> (Ok (), s))"

text \<open>An executor is closed, which leaves nothing of it, and dropped from the map.\<close>

definition cleanExecutors :: "('db, 'k) ruleEngine \<Rightarrow> ('db, 'k) ruleEngine" where
  "cleanExecutors s = s\<lparr>en_executors := filter (\<lambda>(_, p). ex_rules p \<noteq> []) (en_executors s)\<rparr>"

fun recover_rules :: "('db, 'k) whaler_deps \<Rightarrow> Rule list \<Rightarrow> ('db, 'k, unit) engine" where
  "recover_rules d [] s = (Ok (), s)"
| "recover_rules d (r # rs) s =
     (if ru_Status r = ''started''
      then (let ctx = NewRuleContext (ru_ProductId r) (ru_RuleName r) ActionCreate in
        case HandleRule d ctx s of
          (Panic, t) \<Rightarrow> (Panic, t)
        | (_, t) \<Rightarrow> (case HandleRule d (ctx\<lparr>rc_Action := ActionStart\<rparr>) t of
            (Panic, u) \<Rightarrow> (Panic, u)
          | (_, u) \<Rightarrow> recover_rules d rs u))
      else recover_rules d rs s)"

definition Recovery :: "('db, 'k) whaler_deps \<Rightarrow> ('db, 'k, unit) engine" where
  "Recovery d s = recover_rules d (GetRulesWithStatus (wd_store d) ''started'' (en_db s)) s"

definition en_Start :: "('db, 'k) whaler_deps \<Rightarrow> ('db, 'k, unit) engine" where
  "en_Start d s = (case en_consumer s of
      None \<Rightarrow> (Panic, s)
    | Some c \<Rightarrow> (case kc_Subscribe (wd_kafka d) (en_kafka s) TopicNameRule (Some 0) c of
        (Ok _, c') \<Rightarrow> (Ok (), s\<lparr>en_consumer := Some c'\<rparr>)
      | (Err e, c') \<Rightarrow> (Err (ErrMsg e), s\<lparr>en_consumer := Some c'\<rparr>)
      | (Panic, c') \<Rightarrow> (Panic, s\<lparr>en_consumer := Some c'\<rparr>)))"

text \<open>The service: what initialization leaves in the channel, and the start of the engine with the recovery it asks for.\<close>

definition es_Initialize :: "('db, 'k) whaler_deps \<Rightarrow> config \<Rightarrow> 'db \<Rightarrow> (whaler_error, bool option) outcome" where
  "es_Initialize d c db = (case registry_New (wd_dial d) c of
      Ok _ \<Rightarrow> Ok (Some (GetRulesWithStatus (wd_store d) ''started'' db \<noteq> []))
    | Err _ \<Rightarrow> Ok None
    | Panic \<Rightarrow> Panic)"

definition es_Start :: "('db, 'k) whaler_deps \<Rightarrow> bool option \<Rightarrow> ('db, 'k, unit) engine" where
  "es_Start d recovery = seqM (en_Start d) (\<lambda>_. if recovery = Some True then Recovery d else retM ())"

text \<open>The handlers of the service's interface, by the parameters of the request: the status of the answer.\<close>

definition rule_request :: "('db, 'k) whaler_deps \<Rightarrow> string \<Rightarrow> string \<Rightarrow> string \<Rightarrow> ('db, 'k, nat) engine" where
  "rule_request d productId ruleName action s = (case HandleRule d (NewRuleContext productId ruleName action) s of
      (Ok _, t) \<Rightarrow> (Ok 200, t)
    | (Err _, t) \<Rightarrow> (Ok 400, t)
    | (Panic, t) \<Rightarrow> (Panic, t))"

definition api_createRule :: "('db, 'k) whaler_deps \<Rightarrow> (string \<Rightarrow> string) \<Rightarrow> ('db, 'k, nat) engine" where
  "api_createRule d param = rule_request d (param ''productId'') (param ''ruleName'') ''create''"

definition api_updateRule :: "('db, 'k) whaler_deps \<Rightarrow> (string \<Rightarrow> string) \<Rightarrow> ('db, 'k, nat) engine" where
  "api_updateRule d param = rule_request d (param ''productId'') (param ''ruleName'') ''update''"

definition api_removeRule :: "('db, 'k) whaler_deps \<Rightarrow> (string \<Rightarrow> string) \<Rightarrow> ('db, 'k, nat) engine" where
  "api_removeRule d param = rule_request d (param ''productId'') (param ''ruleName'') ''remove''"

definition api_controlRule :: "('db, 'k) whaler_deps \<Rightarrow> (string \<Rightarrow> string) \<Rightarrow> (string \<Rightarrow> string) \<Rightarrow> ('db, 'k, nat) engine" where
  "api_controlRule d param query = rule_request d (param ''productId'') (param ''ruleName'') (query ''action'')"

subsection \<open>Lemmas\<close>

definition selected_value :: "(string \<times> json) list \<Rightarrow> TopicPublishEvent \<Rightarrow> string \<Rightarrow> json option" where
  "selected_value results e name = (case map_of results name of
      Some v \<Rightarrow> Some v
    | None \<Rightarrow> if name \<noteq> [] \<and> hd name = CHR ''$'' then Some (getVariableValue (tl name) e) else None)"

lemma GetField_update [simp]:
  "GetField n (AddField k v f) = (if n = k then Some v else GetField n f)" "Context n (AddField k v f) = Context n f"
  by (simp_all add: GetField_def AddField_def Context_def update_conv')

lemma GetField_context [simp]:
  "GetField n (SetContext k v f) = GetField n f" "Context n (SetContext k v f) = (if n = k then Some v else Context n f)"
  "GetField n NewDataFrame = None" "Context n NewDataFrame = None"
  by (simp_all add: GetField_def SetContext_def Context_def NewDataFrame_def update_conv')

lemma add_selected_field [simp]:
  "GetField n (add_selected results e k f) =
     (if n = k \<and> selected_value results e n \<noteq> None then selected_value results e n else GetField n f)"
  "Context n (add_selected results e k f) = Context n f"
  by (auto simp: add_selected_def selected_value_def getFunctionValue_def split: option.splits)

lemma fold_selected [simp]:
  "GetField n (fold (add_selected results e) ks f) =
     (if n \<in> set ks \<and> selected_value results e n \<noteq> None then selected_value results e n else GetField n f)"
  "Context n (fold (add_selected results e) ks f) = Context n f"
  by (induction ks arbitrary: f) auto

lemma pipeline_config_items:
  "MustString ''topic'' (pipeline_config tenantId r mongo kafka) = Ok (dt_Topic (ru_DataTarget r))"
  "MustString ''tenantId'' (pipeline_config tenantId r mongo kafka) = Ok tenantId"
  by (simp_all add: pipeline_config_def MustString_def MustStringWithSection_def must_def StringWithSection_def AddConfigItem_def
    AddConfigItemWithSection_def Let_def newConfig_def make_section_def put_item_def checkItemExist_def section_of_def)

text \<open>The pipeline of a rule that was made: it extracts as the rule says and has one loader, to the rule's target.\<close>

definition rule_pipeline :: "string \<Rightarrow> Rule \<Rightarrow> defaultPipeline \<Rightarrow> bool" where
  "rule_pipeline tenantId r p \<longleftrightarrow> pl_extractor p = Some (ru_DataProcess r) \<and> pl_transformers p = [] \<and>
     (\<exists>l. pl_loaders p = [l] \<and> tl_tenantId l = tenantId \<and> MustString ''topic'' (tl_config l) = Ok (dt_Topic (ru_DataTarget r)) \<and>
       kp_sync (tl_producer l) \<and> kp_syncProducer (tl_producer l))"

lemma newRule_pipeline:
  assumes "newRule d c tenantId ctx db k = Ok w" "stored_rule d c ctx db = Ok r"
  shows "wr_Rule w = r" "wr_tenantId w = tenantId" "\<exists>p. wr_ppline w = Some p \<and> rule_pipeline tenantId r p"
  using assms pipeline_config_items [of tenantId r]
  by (auto simp: newRule_def setupPipeline_def Let_def newTopicLoader_def newKafkaProducer_def rule_pipeline_def NewPipeline_def
    AddExtractor_def AddLoader_def split: outcome.splits if_splits)

text \<open>The event that a loader of the rule sends for a frame.\<close>

definition forwarded :: "('db, 'k) whaler_deps \<Rightarrow> Rule \<Rightarrow> DataFrame \<Rightarrow> TopicPublishEvent \<Rightarrow> TopicPublishEvent" where
  "forwarded d r f e = e\<lparr>tp_Payload := wd_text d (frame_Serialize f), tp_Topic := dt_Topic (ru_DataTarget r)\<rparr>"

definition bus_message :: "('db, 'k) whaler_deps \<Rightarrow> string \<Rightarrow> TopicPublishEvent \<Rightarrow> message" where
  "bus_message d tenantId e =
     MBroker \<lparr>mb_TopicName = event_bus tenantId, mb_EventType = 3, mb_Payload = wd_text d (marshal (TopicPublish e))\<rparr>"

lemma push_forwards:
  assumes "rule_pipeline tenantId r p" "Extract d (ru_DataProcess r) e = Ok (Some f)" "Context ''event'' f = Some CtxEvent"
  shows "PushData d p (e, k) = (case kf_send (wd_kafka d) [(event_bus tenantId, marshal_message (bus_message d tenantId (forwarded d r f e)))] k of
      (Ok _, k') \<Rightarrow> (Ok (), forwarded d r f e, k')
    | (Err x, k') \<Rightarrow> (Err (ErrMsg x), forwarded d r f e, k')
    | (Panic, k') \<Rightarrow> (Panic, forwarded d r f e, k'))"
  using assms
  by (auto simp: rule_pipeline_def PushData_def tl_Load_def seqM_def kp_SendMessage_def Serialize_def forwarded_def bus_message_def
    split: outcome.splits prod.splits)

lemma execute_panics:
  assumes "r \<in> set rs" "ru_Status (wr_Rule r) = ''started''" "wr_ppline r = None"
  shows "fst (execute_rules d rs s) = Panic"
  using assms(1)
proof (induction rs arbitrary: s)
  case (Cons x xs)
  show ?case
  proof (cases "x = r")
    case True then show ?thesis using assms by (simp add: rule_handle_def)
  next
    case False
    then have "r \<in> set xs" using Cons.prems by simp
    then show ?thesis using Cons.IH by (auto split: prod.splits outcome.splits)
  qed
qed simp

lemma created_rule:
  assumes "dispatchRule d (NewRuleContext productId ruleName ''create'') s = (Ok (), t)" "en_executors s = []"
  shows "\<exists>product p w. GetProduct (wd_store d) productId (en_db s) = Ok product \<and>
     newRule d (en_config s) (pr_TenantId product) (NewRuleContext productId ruleName ''create'') (en_db s) (en_kafka s) = Ok w \<and>
     en_executors t = [(productId, p)] \<and> ex_rules p = [(ruleName, w)] \<and> ex_productId p = productId \<and> ex_started p \<and>
     en_config t = en_config s \<and> en_db t = en_db s \<and> en_kafka t = en_kafka s \<and> ex_tenantId p = pr_TenantId product"
  using assms
  by (auto simp: dispatchRule_def Let_def NewRuleContext_def seqM_def ensure_executor_def on_executor_def newRuleExecutor_def ex_start_def
    kc_Subscribe_def createRule_def split: outcome.splits option.splits prod.splits if_splits)

lemma started_rule:
  assumes "dispatchRule d (NewRuleContext productId ruleName ''start'') t = (Ok (), u)"
    "en_executors t = [(productId, p)]" "ex_rules p = [(ruleName, w)]" "ex_started p"
  shows "en_executors u = [(productId, p\<lparr>ex_rules := [(ruleName, w\<lparr>wr_Rule := (wr_Rule w)\<lparr>ru_Status := ''started''\<rparr>\<rparr>)]\<rparr>)]"
  using assms
  by (auto simp: dispatchRule_def Let_def NewRuleContext_def on_executor_def startRule_def seqM_def ex_start_def set_status_def)

subsection \<open>Properties\<close>

text \<open>C22. A rule that is created and started does its work: for a publication to the topic of the rule whose payload answers the
  rule's condition, the executor of the product sends to the tenant's bus exactly one event, to the target topic, whose payload
  has exactly the fields the rule selects: those of the answer, and the variables.\<close>

theorem started_rule_forwards:
  assumes "newRuleEngine d c db k = Ok s"
    "dispatchRule d (NewRuleContext productId ruleName ''create'') s = (Ok (), t)"
    "dispatchRule d (NewRuleContext productId ruleName ''start'') t = (Ok (), u)"
    "GetRule (wd_store d) productId ruleName db = Ok r" "GetProduct (wd_store d) productId db = Ok product"
    "tp_ProductID e = productId" "tp_Topic e = dp_Topic (ru_DataProcess r)" "dp_Condition (ru_DataProcess r) \<noteq> []"
    "wd_query d (tp_Payload e) (dp_Condition (ru_DataProcess r)) = Ok (Some (JObj results))"
    "map json_string (event_strings (TopicPublish e)) = event_strings (TopicPublish e)"
    "wd_parse d buf = Some (marshal (TopicPublish e))"
  shows "\<exists>p f. map_of (en_executors u) productId = Some p \<and>
     (\<forall>name. GetField name f = (if name \<in> set (dp_Fields (ru_DataProcess r)) then selected_value results e name else None)) \<and>
     ex_messageHandlerFunc d p (MBroker \<lparr>mb_TopicName = topic, mb_EventType = 3, mb_Payload = buf\<rparr>) k' =
       (case kf_send (wd_kafka d) [(event_bus (pr_TenantId product), marshal_message (bus_message d (pr_TenantId product) (forwarded d r f e)))] k' of
          (Panic, k'') \<Rightarrow> (Panic, k'') | (_, k'') \<Rightarrow> (Ok (), k''))"
proof -
  have s: "en_executors s = []" "en_config s = c" "en_db s = db" "en_kafka s = k" and reg: "registry_New (wd_dial d) c = Ok ()"
    using assms(1) by (auto simp: newRuleEngine_def split: outcome.splits)
  obtain p w where t: "en_executors t = [(productId, p)]" "ex_rules p = [(ruleName, w)]" "ex_productId p = productId" "ex_started p"
    and w: "newRule d c (pr_TenantId product) (NewRuleContext productId ruleName ''create'') db k = Ok w"
    using created_rule [OF assms(2) s(1)] assms(5) s by auto
  have stored: "stored_rule d c (NewRuleContext productId ruleName ''create'') db = Ok r"
    using reg assms(4) by (simp add: stored_rule_def NewRuleContext_def)
  obtain pl where pl: "wr_ppline w = Some pl" "rule_pipeline (pr_TenantId product) r pl" using newRule_pipeline(3) [OF w stored] by blast
  let ?f = "fold (add_selected results e) (dp_Fields (ru_DataProcess r))
    (SetContext ''event'' CtxEvent (SetContext ''topic'' (CtxTopic (tp_Topic e)) NewDataFrame))"
  have x: "Extract d (ru_DataProcess r) e = Ok (Some ?f)" "Context ''event'' ?f = Some CtxEvent"
    using assms(7-9) by (simp_all add: Extract_def)
  have dec: "Decode \<lparr>bm_TopicName = topic, bm_EventType = 3, bm_Payload = wd_parse d buf\<rparr> = Ok (TopicPublish e)"
    using assms(10,11) by (simp add: Decode_def unmarshal_defs)
  show ?thesis
    apply (rule exI, rule exI [of _ ?f])
    apply (intro conjI)
      apply (simp add: started_rule [OF assms(3) t(1,2,4)])
     apply simp
    apply (simp add: ex_messageHandlerFunc_def dec t(3) assms(6) execute_def rule_handle_def pl(1) push_forwards [OF pl(2) x]
      del: fold_selected split: prod.splits outcome.splits)
    done
qed

text \<open>A rule without a condition, which should pass on all of the data, passes on none of it: whatever object the payload is, the
  event sent to the target topic has the empty object for its payload.\<close>

theorem rule_without_condition_forwards_nothing:
  assumes "stored_rule d c ctx db = Ok r" "newRule d c tenantId ctx db k = Ok w" "dp_Condition (ru_DataProcess r) = []"
    "tp_Topic e = dp_Topic (ru_DataProcess r)" "wd_parse d (tp_Payload e) = Some (JObj content)"
  shows "\<exists>f. frame_Serialize f = JObj [] \<and> rule_handle d w (e, k') =
     (case kf_send (wd_kafka d) [(event_bus tenantId, marshal_message (bus_message d tenantId (forwarded d r f e)))] k' of
        (Ok _, k'') \<Rightarrow> (Ok (), forwarded d r f e, k'')
      | (Err x, k'') \<Rightarrow> (Err (ErrMsg x), forwarded d r f e, k'')
      | (Panic, k'') \<Rightarrow> (Panic, forwarded d r f e, k''))"
proof -
  obtain pl where pl: "wr_ppline w = Some pl" "rule_pipeline tenantId r pl" using newRule_pipeline(3) [OF assms(2,1)] by blast
  let ?f = "SetContext ''event'' CtxEvent (SetContext ''topic'' (CtxTopic (tp_Topic e)) NewDataFrame)"
  have x: "Extract d (ru_DataProcess r) e = Ok (Some ?f)" "Context ''event'' ?f = Some CtxEvent"
    using assms(3-5) by (simp_all add: Extract_def)
  have "frame_Serialize ?f = JObj []" by (simp add: frame_Serialize_def SetContext_def NewDataFrame_def)
  then show ?thesis using push_forwards [OF pl(2) x] by (auto simp: rule_handle_def pl(1))
qed

text \<open>A rule that was updated has no pipeline: if the registry holds it as started, the executor panics at the next publication of the
  product, whatever the publication is.\<close>

theorem updated_rule_panics:
  assumes "stored_rule d c ctx db = Ok r" "ru_Status r = ''started''" "updateRule d c db ctx p = (Ok (), q)"
  shows "fst (execute d q s) = Panic"
proof -
  have "map_of (ex_rules q) (rc_RuleName ctx) = Some \<lparr>wr_Rule = r, wr_ppline = None, wr_tenantId = []\<rparr>"
    using assms(1,3) by (auto simp: updateRule_def update_conv' split: if_splits)
  then have "\<lparr>wr_Rule = r, wr_ppline = None, wr_tenantId = []\<rparr> \<in> snd ` set (ex_rules q)" by (force dest: map_of_SomeD)
  then show ?thesis using execute_panics [of _ "map snd (ex_rules q)"] assms(2) by (fastforce simp: execute_def)
qed

lemma recover_none: "en_executors s = [] \<Longrightarrow> recover_rules d rs s = (Ok (), s)"
  by (induction rs) (simp_all add: HandleRule_def dispatchRule_def NewRuleContext_def ActionCreate_def ActionStart_def Let_def)

text \<open>After a restart no rule runs: the recovery names the action of the messages, which the engine does not know, and whatever rules
  the registry holds as started, a started service has no executor.\<close>

theorem recovery_restores_nothing:
  assumes "newRuleEngine d c db k = Ok s" "es_Start d pending s = (res, t)"
  shows "en_executors t = []"
proof -
  have s: "en_executors s = []" using assms(1) by (auto simp: newRuleEngine_def split: outcome.splits)
  then have "en_executors (snd (en_Start d s)) = []" by (auto simp: en_Start_def split: option.splits prod.splits outcome.splits)
  then show ?thesis using assms(2)
    by (auto simp: es_Start_def seqM_def Recovery_def recover_none retM_def split: prod.splits outcome.splits if_splits)
qed

text \<open>The executors do not hear the devices: the topic to which the broker sends the publications of its devices is none of those to
  which a started executor subscribes, for whatever tenants.\<close>

theorem publication_misses_executors:
  assumes "newRuleExecutor d c productId db = Ok p" "ex_start d k p = (Ok (), q)" "ex_consumer q = Some consumer"
    "es_published es = []" "m \<in> set (es_published (snd (Notify (TopicPublish e) es)))"
  shows "bm_TopicName m \<notin> fst ` set (kc_subscribers consumer)"
proof -
  have none: "kc_subscribers x = []" if "newKafkaConsumer c i = Ok x" for i x
    using that by (auto simp: newKafkaConsumer_def split: outcome.splits if_splits)
  have "fst ` set (kc_subscribers consumer) = {event_bus (ex_tenantId p)}"
    using assms(1-3) none by (auto simp: newRuleExecutor_def ex_start_def kc_Subscribe_def split: outcome.splits option.splits if_splits)
  moreover have "bm_TopicName m = ''iot-'' @ es_tenant es @ ''-event-mqtt''"
    using assms(4,5) by (simp add: Notify_def Let_def publishMsg_def nameOfEventBus_def)
  moreover have "''iot-'' @ es_tenant es @ ''-event-mqtt'' \<noteq> event_bus (ex_tenantId p)"
  proof
    assume "''iot-'' @ es_tenant es @ ''-event-mqtt'' = event_bus (ex_tenantId p)"
    then have "last (''iot-'' @ es_tenant es @ ''-event-mqtt'') = last (event_bus (ex_tenantId p))" by (rule arg_cong)
    then show False by (simp add: event_bus_def)
  qed
  ultimately show ?thesis by simp
qed

text \<open>A product with a started rule, and a publication for it.\<close>

definition sample_stored_rule :: Rule where
  "sample_stored_rule = \<lparr>ru_ProductId = ''p1'', ru_RuleName = ''r1'', ru_DataFormat = ''json'', ru_Description = [],
     ru_DataProcess = \<lparr>dp_Topic = ''hello'', dp_Condition = ''temp > 20'', dp_Fields = [''temp'', ''$deviceId'']\<rparr>,
     ru_DataTarget = \<lparr>dt_Type = ''topic'', dt_Topic = ''world'', dt_DatabaseHost = [], dt_DatabaseName = [], dt_Collection = [],
       dt_Username = [], dt_Password = []\<rparr>,
     ru_Status = ''started'', ru_TimeCreated = 0, ru_TimeUpdated = 0\<rparr>"

definition sample_publication :: TopicPublishEvent where
  "sample_publication = \<lparr>tp_BrokerID = ''b'', tp_Type = 3, tp_ClientID = ''dev1'', tp_ProductID = ''p1'', tp_Persistent = False, tp_ID = 1,
     tp_Topic = ''hello'', tp_Payload = [123, 125], tp_Qos = 1, tp_Direction = 0, tp_Retain = False, tp_Dup = False\<rparr>"

text \<open>A database, a kafka client and a text of the event, for one rule.\<close>

definition rule_db :: "Rule \<Rightarrow> string \<Rightarrow> document list" where
  "rule_db r c = (if c = ''products'' then [enc_product sample_product] else if c = ''rules'' then [enc_rule r] else [])"

definition rule_deps :: "(string \<Rightarrow> document list, (string \<times> json) list) whaler_deps" where
  "rule_deps = \<lparr>wd_store = list_store no_index, wd_dial = (\<lambda>_. True), wd_kafka = list_kafka,
     wd_query = (\<lambda>_ _. Ok (Some (JObj [(''temp'', JNum 21), (''rest'', JNull)]))),
     wd_parse = (\<lambda>b. if b = [123, 125] then Some (JObj []) else Some (marshal (TopicPublish sample_publication))), wd_text = (\<lambda>_. [0])\<rparr>"

definition whaler_config :: config where
  "whaler_config = AddConfigItem ''mongo'' (Some (CStr ''localhost:27017'')) kafka_config"

lemma whaler_config_items:
  "cfg_String ''kafka'' whaler_config = Ok ''localhost:9092''" "MustString ''kafka'' whaler_config = Ok ''localhost:9092''"
  "MustString ''mongo'' whaler_config = Ok ''localhost:27017''"
  by (simp_all add: whaler_config_def kafka_config_def cfg_String_def MustString_def MustStringWithSection_def must_def StringWithSection_def
    AddConfigItem_def AddConfigItemWithSection_def Let_def newConfig_def make_section_def put_item_def checkItemExist_def section_of_def)

lemma sample_rule_found:
  assumes "ru_ProductId r = ''p1''" "ru_RuleName r = ''r1''" "ru_TimeCreated r = 0" "ru_TimeUpdated r = 0"
  shows "GetRule (list_store no_index) ''p1'' ''r1'' (rule_db r) = Ok r"
    "GetProduct (list_store no_index) ''p1'' (rule_db r) = Ok sample_product"
proof -
  have "matches (by_rule ''p1'' ''r1'') (enc_rule r)" using assms by (simp add: by_rule_def enc_rule_def)
  moreover have "dec_rule (enc_rule r) = r" using assms by (simp add: dec_enc_rule to_millis_def millis_def)
  ultimately show "GetRule (list_store no_index) ''p1'' ''r1'' (rule_db r) = Ok r"
    by (simp add: GetRule_def get_one_def find_one_def list_store_def rule_db_def)
  have "matches (by_product ''p1'') (enc_product sample_product)" by (simp add: by_product_def enc_product_def sample_product_def)
  moreover have "dec_product (enc_product sample_product) = sample_product"
    by (simp add: dec_enc_product sample_product_def to_millis_def millis_def)
  ultimately show "GetProduct (list_store no_index) ''p1'' (rule_db r) = Ok sample_product"
    by (simp add: GetProduct_def get_one_def find_one_def list_store_def rule_db_def)
qed

lemmas sample_found = sample_rule_found [of sample_stored_rule, unfolded sample_stored_rule_def, simplified, folded sample_stored_rule_def]

definition sample_engine :: "(string \<Rightarrow> document list, (string \<times> json) list) ruleEngine" where
  "sample_engine = \<lparr>en_config = whaler_config, en_executors = [],
     en_consumer = Some \<lparr>kc_khosts = ''localhost:9092'', kc_clientId = ''whaler-engine'', kc_subscribers = []\<rparr>,
     en_db = rule_db sample_stored_rule, en_kafka = []\<rparr>"

lemma sample_engine_made: "newRuleEngine rule_deps whaler_config (rule_db sample_stored_rule) [] = Ok sample_engine"
  by (simp add: newRuleEngine_def registry_New_def whaler_config_items rule_deps_def newKafkaConsumer_def sample_engine_def)

lemma sample_stored: "stored_rule rule_deps whaler_config \<lparr>rc_ProductId = ''p1'', rc_RuleName = ''r1'', rc_Action = a\<rparr> (rule_db sample_stored_rule) = Ok sample_stored_rule"
  by (simp add: stored_rule_def registry_New_def whaler_config_items rule_deps_def sample_found)

lemma pipeline_config_kafka: "cfg_String ''kafka'' (pipeline_config tenantId r mongo kafka) = Ok kafka"
  by (simp add: pipeline_config_def cfg_String_def StringWithSection_def AddConfigItem_def
    AddConfigItemWithSection_def Let_def newConfig_def make_section_def put_item_def checkItemExist_def section_of_def)

lemma newRule_makes:
  assumes "stored_rule d c ctx db = Ok r" "dt_Type (ru_DataTarget r) = ''topic''" "MustString ''mongo'' c = Ok mongo" "MustString ''kafka'' c = Ok kafka"
    "kafka \<noteq> []" "kf_dial (wd_kafka d) (split_on (CHR '','') kafka) True k"
  shows "\<exists>w. newRule d c tenantId ctx db k = Ok w"
  using assms by (simp add: newRule_def setupPipeline_def newTopicLoader_def newKafkaProducer_def pipeline_config_kafka pipeline_config_items)

lemma create_succeeds:
  assumes "en_executors s = []" "registry_New (wd_dial d) (en_config s) = Ok ()" "GetProduct (wd_store d) productId (en_db s) = Ok product"
    "newKafkaConsumer (en_config s) (''whaler-rule-executor-'' @ productId) = Ok x"
    "kf_dial (wd_kafka d) (split_on (CHR '','') (kc_khosts x)) True (en_kafka s)"
    "newRule d (en_config s) (pr_TenantId product) (NewRuleContext productId ruleName ''create'') (en_db s) (en_kafka s) = Ok w"
  shows "\<exists>t. dispatchRule d (NewRuleContext productId ruleName ''create'') s = (Ok (), t)"
proof -
  have "kc_subscribers x = []" using assms(4) by (auto simp: newKafkaConsumer_def split: outcome.splits if_splits)
  then show ?thesis using assms
    by (simp add: dispatchRule_def NewRuleContext_def seqM_def ensure_executor_def on_executor_def newRuleExecutor_def ex_start_def
      kc_Subscribe_def createRule_def)
qed

lemma start_succeeds:
  assumes "en_executors t = [(productId, p)]" "ex_rules p = [(ruleName, w)]" "ex_started p"
  shows "\<exists>u. dispatchRule d (NewRuleContext productId ruleName ''start'') t = (Ok (), u)"
  using assms by (simp add: dispatchRule_def Let_def NewRuleContext_def on_executor_def startRule_def seqM_def ex_start_def set_status_def)

lemma sample_made:
  obtains w where "newRule rule_deps whaler_config ''t1'' \<lparr>rc_ProductId = ''p1'', rc_RuleName = ''r1'', rc_Action = a\<rparr> (rule_db sample_stored_rule) k = Ok w"
proof -
  have "\<exists>w. newRule rule_deps whaler_config ''t1'' \<lparr>rc_ProductId = ''p1'', rc_RuleName = ''r1'', rc_Action = a\<rparr> (rule_db sample_stored_rule) k = Ok w"
    by (rule newRule_makes [OF sample_stored _ whaler_config_items(3,2)])
      (simp_all add: rule_deps_def list_kafka_def sample_stored_rule_def)
  then show ?thesis using that by blast
qed

lemma sample_started:
  "\<exists>t u. dispatchRule rule_deps (NewRuleContext ''p1'' ''r1'' ''create'') sample_engine = (Ok (), t) \<and>
     dispatchRule rule_deps (NewRuleContext ''p1'' ''r1'' ''start'') t = (Ok (), u)"
proof -
  obtain w where w: "newRule rule_deps whaler_config ''t1'' (NewRuleContext ''p1'' ''r1'' ''create'') (rule_db sample_stored_rule) [] = Ok w"
    using sample_made unfolding NewRuleContext_def by blast
  have "\<exists>t. dispatchRule rule_deps (NewRuleContext ''p1'' ''r1'' ''create'') sample_engine = (Ok (), t)"
    by (rule create_succeeds [where product = sample_product and w = w
        and x = "\<lparr>kc_khosts = ''localhost:9092'', kc_clientId = ''whaler-rule-executor-p1'', kc_subscribers = []\<rparr>"])
      (use w in \<open>simp_all add: sample_engine_def registry_New_def whaler_config_items newKafkaConsumer_def sample_product_def\<close>,
       simp_all add: rule_deps_def sample_found list_kafka_def sample_product_def)
  then obtain t where t: "dispatchRule rule_deps (NewRuleContext ''p1'' ''r1'' ''create'') sample_engine = (Ok (), t)" by blast
  have "en_executors sample_engine = []" by (simp add: sample_engine_def)
  from created_rule [OF t this] start_succeeds have "\<exists>u. dispatchRule rule_deps (NewRuleContext ''p1'' ''r1'' ''start'') t = (Ok (), u)"
    by blast
  with t show ?thesis by blast
qed

theorem started_rule_forwards_witness:
  "\<exists>p f k. GetField ''temp'' f = Some (JNum 21) \<and> GetField ''$deviceId'' f = Some (JStr ''dev1'') \<and> GetField ''rest'' f = None \<and>
     ex_messageHandlerFunc rule_deps p (MBroker \<lparr>mb_TopicName = ''iot-t1-event-broker'', mb_EventType = 3, mb_Payload = [1]\<rparr>) [] =
       (Ok (), [(''iot-t1-event-broker'', k)])"
proof -
  obtain t u where tu: "dispatchRule rule_deps (NewRuleContext ''p1'' ''r1'' ''create'') sample_engine = (Ok (), t)"
    "dispatchRule rule_deps (NewRuleContext ''p1'' ''r1'' ''start'') t = (Ok (), u)" using sample_started by blast
  have js: "json_string ''dev1'' = ''dev1''" "json_string ''b'' = ''b''" "json_string ''p1'' = ''p1''" "json_string ''hello'' = ''hello''"
    by code_simp+
  have g: "GetRule (wd_store rule_deps) ''p1'' ''r1'' (rule_db sample_stored_rule) = Ok sample_stored_rule"
    "GetProduct (wd_store rule_deps) ''p1'' (rule_db sample_stored_rule) = Ok sample_product"
    by (simp_all add: rule_deps_def sample_found)
  have "\<exists>p f. map_of (en_executors u) ''p1'' = Some p \<and>
     (\<forall>name. GetField name f = (if name \<in> set (dp_Fields (ru_DataProcess sample_stored_rule))
        then selected_value [(''temp'', JNum 21), (''rest'', JNull)] sample_publication name else None)) \<and>
     ex_messageHandlerFunc rule_deps p (MBroker \<lparr>mb_TopicName = ''iot-t1-event-broker'', mb_EventType = 3, mb_Payload = [1]\<rparr>) [] =
       (case kf_send (wd_kafka rule_deps) [(event_bus (pr_TenantId sample_product),
            marshal_message (bus_message rule_deps (pr_TenantId sample_product) (forwarded rule_deps sample_stored_rule f sample_publication)))] [] of
          (Panic, k'') \<Rightarrow> (Panic, k'') | (_, k'') \<Rightarrow> (Ok (), k''))"
    by (rule started_rule_forwards [OF sample_engine_made tu g])
      (simp_all add: sample_publication_def sample_stored_rule_def rule_deps_def js)
  then obtain p f where f: "\<forall>name. GetField name f = (if name \<in> set (dp_Fields (ru_DataProcess sample_stored_rule))
        then selected_value [(''temp'', JNum 21), (''rest'', JNull)] sample_publication name else None)"
    and h: "ex_messageHandlerFunc rule_deps p (MBroker \<lparr>mb_TopicName = ''iot-t1-event-broker'', mb_EventType = 3, mb_Payload = [1]\<rparr>) [] =
       (case kf_send (wd_kafka rule_deps) [(event_bus (pr_TenantId sample_product),
            marshal_message (bus_message rule_deps (pr_TenantId sample_product) (forwarded rule_deps sample_stored_rule f sample_publication)))] [] of
          (Panic, k'') \<Rightarrow> (Panic, k'') | (_, k'') \<Rightarrow> (Ok (), k''))" by blast
  have "GetField ''temp'' f = Some (JNum 21)" "GetField ''$deviceId'' f = Some (JStr ''dev1'')" "GetField ''rest'' f = None"
    using f by (simp_all add: sample_stored_rule_def selected_value_def getVariableValue_def sample_publication_def j_str_def js)
  moreover have "kf_send (wd_kafka rule_deps) vs [] = (Ok (), vs)" for vs by (simp add: rule_deps_def list_kafka_def)
  ultimately show ?thesis using h by (auto simp: event_bus_def sample_product_def)
qed

theorem updated_rule_panics_witness:
  "\<exists>w. newRule rule_deps whaler_config ''t1'' (NewRuleContext ''p1'' ''r1'' ''create'') (rule_db sample_stored_rule) [] = Ok w \<and>
   fst (execute rule_deps (snd (updateRule rule_deps whaler_config (rule_db sample_stored_rule) (NewRuleContext ''p1'' ''r1'' ''update'')
     \<lparr>ex_tenantId = ''t1'', ex_productId = ''p1'', ex_rules = [(''r1'', w)], ex_started = True, ex_consumer = None\<rparr>)) (sample_publication, [])) = Panic"
proof -
  obtain w where w: "newRule rule_deps whaler_config ''t1'' (NewRuleContext ''p1'' ''r1'' ''create'') (rule_db sample_stored_rule) [] = Ok w"
    using sample_made unfolding NewRuleContext_def by blast
  let ?p = "\<lparr>ex_tenantId = ''t1'', ex_productId = ''p1'', ex_rules = [(''r1'', w)], ex_started = True, ex_consumer = None\<rparr>"
  let ?q = "?p\<lparr>ex_rules := [(''r1'', \<lparr>wr_Rule = sample_stored_rule, wr_ppline = None, wr_tenantId = []\<rparr>)]\<rparr>"
  have st: "stored_rule rule_deps whaler_config (NewRuleContext ''p1'' ''r1'' ''update'') (rule_db sample_stored_rule) = Ok sample_stored_rule"
    unfolding NewRuleContext_def by (rule sample_stored)
  have u: "updateRule rule_deps whaler_config (rule_db sample_stored_rule) (NewRuleContext ''p1'' ''r1'' ''update'') ?p = (Ok (), ?q)"
    unfolding updateRule_def st by (simp add: NewRuleContext_def)
  have "ru_Status sample_stored_rule = ''started''" by (simp add: sample_stored_rule_def)
  from updated_rule_panics [OF st this u]
  have "fst (execute rule_deps (snd (updateRule rule_deps whaler_config (rule_db sample_stored_rule) (NewRuleContext ''p1'' ''r1'' ''update'') ?p))
    (sample_publication, [])) = Panic" unfolding u by simp
  with w show ?thesis by blast
qed

theorem rule_without_condition_forwards_nothing_witness:
  "\<exists>w k. snd (snd (rule_handle rule_deps w (sample_publication, []))) = [(''iot-t1-event-broker'', k)]"
proof -
  let ?r = "sample_stored_rule\<lparr>ru_DataProcess := \<lparr>dp_Topic = ''hello'', dp_Condition = [], dp_Fields = []\<rparr>\<rparr>"
  let ?c = "NewRuleContext ''p1'' ''r1'' ''create''"
  have "GetRule (list_store no_index) ''p1'' ''r1'' (rule_db ?r) = Ok ?r"
    by (rule sample_rule_found(1)) (simp_all add: sample_stored_rule_def)
  then have st: "stored_rule rule_deps whaler_config ?c (rule_db ?r) = Ok ?r"
    by (simp add: stored_rule_def NewRuleContext_def registry_New_def whaler_config_items rule_deps_def)
  have "\<exists>w. newRule rule_deps whaler_config ''t1'' ?c (rule_db ?r) [] = Ok w"
    by (rule newRule_makes [OF st _ whaler_config_items(3,2)]) (simp_all add: rule_deps_def list_kafka_def sample_stored_rule_def)
  then obtain w where w: "newRule rule_deps whaler_config ''t1'' ?c (rule_db ?r) [] = Ok w" by blast
  have p: "wd_parse rule_deps (tp_Payload sample_publication) = Some (JObj [])" by (simp add: rule_deps_def sample_publication_def)
  have t: "tp_Topic sample_publication = dp_Topic (ru_DataProcess ?r)" by (simp add: sample_publication_def)
  have "dp_Condition (ru_DataProcess ?r) = []" by simp
  from rule_without_condition_forwards_nothing [OF st w this t p, of "[]"] obtain f where
    "frame_Serialize f = JObj []" "rule_handle rule_deps w (sample_publication, []) = (Ok (), forwarded rule_deps ?r f sample_publication,
      [(event_bus ''t1'', marshal_message (bus_message rule_deps ''t1'' (forwarded rule_deps ?r f sample_publication)))])"
    by (auto simp: rule_deps_def list_kafka_def)
  then have "snd (snd (rule_handle rule_deps w (sample_publication, []))) = [(''iot-t1-event-broker'',
    marshal_message (bus_message rule_deps ''t1'' (forwarded rule_deps ?r f sample_publication)))]" by (simp add: event_bus_def)
  then show ?thesis by blast
qed

theorem recovery_restores_nothing_witness:
  "es_Initialize rule_deps whaler_config (rule_db sample_stored_rule) = Ok (Some True) \<and>
   (\<exists>t. es_Start rule_deps (Some True) sample_engine = (Ok (), t) \<and> en_executors t = [])"
proof
  have "matches [(''Status'', BStr ''started'')] (enc_rule sample_stored_rule)" by (simp add: enc_rule_def sample_stored_rule_def)
  then show "es_Initialize rule_deps whaler_config (rule_db sample_stored_rule) = Ok (Some True)"
    by (simp add: es_Initialize_def registry_New_def whaler_config_items rule_deps_def GetRulesWithStatus_def all_or_none_def get_all_def
      list_store_def rule_db_def)
  have "fst (es_Start rule_deps (Some True) sample_engine) = Ok ()"
    by (simp add: es_Start_def seqM_def en_Start_def kc_Subscribe_def Recovery_def recover_none sample_engine_def) 
      (simp add: rule_deps_def list_kafka_def recover_none)
  then show "\<exists>t. es_Start rule_deps (Some True) sample_engine = (Ok (), t) \<and> en_executors t = []"
    using recovery_restores_nothing [OF sample_engine_made] by (metis prod.collapse)
qed

theorem publication_misses_executors_witness:
  "\<exists>p q c. newRuleExecutor rule_deps whaler_config ''p1'' (rule_db sample_stored_rule) = Ok p \<and> ex_start rule_deps [] p = (Ok (), q) \<and>
     ex_consumer q = Some c \<and> bm_TopicName (hd (es_published (snd (Notify (TopicPublish sample_publication) (newEventService ''b'' ''t1'')))))
       \<notin> fst ` set (kc_subscribers c)"
proof -
  let ?c = "\<lparr>kc_khosts = ''localhost:9092'', kc_clientId = ''whaler-rule-executor-p1'', kc_subscribers = []\<rparr>"
  let ?p = "\<lparr>ex_tenantId = ''t1'', ex_productId = ''p1'', ex_rules = [], ex_started = False, ex_consumer = Some ?c\<rparr>"
  have p: "newRuleExecutor rule_deps whaler_config ''p1'' (rule_db sample_stored_rule) = Ok ?p"
    by (simp add: newRuleExecutor_def registry_New_def whaler_config_items newKafkaConsumer_def)
      (simp add: rule_deps_def sample_found sample_product_def newKafkaConsumer_def whaler_config_items)
  obtain q c where q: "ex_start rule_deps [] ?p = (Ok (), q)" "ex_consumer q = Some c"
    by (simp add: ex_start_def kc_Subscribe_def rule_deps_def list_kafka_def)
  have "es_published (newEventService ''b'' ''t1'') = []" by (simp add: newEventService_def)
  note n = publication_misses_executors [OF p q this]
  show ?thesis using p q n by (auto simp: Notify_def Let_def publishMsg_def newEventService_def)
qed

end
