(* ===== verification/Api_Server.thy ===== *)
theory Api_Server
  imports Registry Message_Bus Goshiro "HOL-Library.Char_ord" "HOL-Library.List_Lexorder"
begin

text \<open>
  The handlers of the API server (\<^verbatim>\<open>src/apiserver/v1api\<close>). A handler reads the parameters of a request and what the web
  framework bound of its body, works on the registry, the security manager and the message bus, and
  answers with a status and a result; the texts of the answers are left out. The framework is not under \<^verbatim>\<open>src\<close> of the
  project: its binding of a body to a structure is part of the request, \<open>None\<close> being an error. Random identifiers,
  the clock, the signature of a token and the text of a JSON value are parameters.
\<close>

subsection \<open>Requests and answers\<close>

record deviceRequest =
  dr_DeviceName :: string
  dr_ProductId :: string
  dr_DeviceId :: string

record BulkDeviceRegisterRequest =
  br_DeviceName :: string
  br_ProductId :: string
  br_Number :: string

record devicePropsRequest =
  ds_DeviceName :: string
  ds_ProductId :: string
  ds_DeviceId :: string
  ds_Props :: "(string \<times> string) list list"

record productCreateRequest =
  pq_ProductName :: string
  pq_Category :: string
  pq_Description :: string

record productUpdateRequest =
  pu_ProductId :: string
  pu_ProductName :: string
  pu_Category :: string
  pu_Description :: string

record registerRequest =
  rg_TenantId :: string
  rg_Password :: string

record deviceMessage =
  dm_ProductId :: string
  dm_DeviceId :: string
  dm_Topic :: string
  dm_Payload :: bytes
  dm_Qos :: byte
  dm_Retain :: bool

record binding =
  bd_device :: "deviceRequest option"
  bd_bulk :: "BulkDeviceRegisterRequest option"
  bd_props :: "devicePropsRequest option"
  bd_create :: "productCreateRequest option"
  bd_update :: "productUpdateRequest option"
  bd_register :: "registerRequest option"
  bd_tenant :: "Tenant option"
  bd_rule :: "Rule option"
  bd_flavor :: "TopicFlavor option"
  bd_message :: "deviceMessage option"

text \<open>\<open>rq_access\<close> is the access identifier that the authentication put into the context, if it did.\<close>

record request =
  rq_param :: "string \<Rightarrow> string"
  rq_query :: "string \<Rightarrow> string"
  rq_access :: "string option"
  rq_bind :: binding

record deviceStatus =
  dt_DeviceId :: string
  dt_Status :: string

datatype api_result = RNone | RDevice Device | RDevices "Device list" | RStatuses "deviceStatus list" | RProduct Product
  | RProducts "(string \<times> string) list" | RTenant Tenant | RToken string | RRule Rule | RNames "string list"
  | RFlavors "TopicFlavor list" | RRunlog Runlog

datatype apiResponse = Resp nat api_result

definition OK :: nat where "OK = 200"
definition ServerError :: nat where "ServerError = 500"
definition BadRequest :: nat where "BadRequest = 400"
definition NotFound :: nat where "NotFound = 404"
definition Unauthorized :: nat where "Unauthorized = 401"
definition NotImplemented :: nat where "NotImplemented = 501"

subsection \<open>The state and its operations\<close>

text \<open>\<open>as_tick\<close> counts the random identifiers and the times that were taken.\<close>

record ('db, 'k, 'rc, 'pc) api_state =
  as_db :: 'db
  as_kafka :: 'k
  as_security :: "('rc, 'pc) securityManager"
  as_tick :: nat

record ('db, 'k) api_deps =
  ad_config :: config
  ad_store :: "'db store"
  ad_dial :: "string \<Rightarrow> bool"
  ad_kafka :: "'k kafka"
  ad_uuid :: "nat \<Rightarrow> string"
  ad_now :: "nat \<Rightarrow> int"
  ad_sign :: "string \<Rightarrow> string"
  ad_parse :: "string \<Rightarrow> json option"
  ad_text :: "json \<Rightarrow> string"
  ad_bytes :: "json \<Rightarrow> bytes"
  ad_iter :: "string list \<Rightarrow> string list"

datatype api_error = ENotAuthenticated | ENotAuthorized | ENoRoute

type_synonym ('db, 'k, 'rc, 'pc, 'a) api = "(('db, 'k, 'rc, 'pc) api_state, api_error, 'a) go"

definition reply :: "nat \<Rightarrow> api_result \<Rightarrow> ('db, 'k, 'rc, 'pc, apiResponse) api" where
  "reply status result = retM (Resp status result)"

definition NewObjectId :: "('db, 'k) api_deps \<Rightarrow> ('db, 'k, 'rc, 'pc, string) api" where
  "NewObjectId d s = (Ok (ad_uuid d (as_tick s)), s\<lparr>as_tick := as_tick s + 1\<rparr>)"

definition time_Now :: "('db, 'k) api_deps \<Rightarrow> ('db, 'k, 'rc, 'pc, int) api" where
  "time_Now d s = (Ok (ad_now d (as_tick s)), s\<lparr>as_tick := as_tick s + 1\<rparr>)"

text \<open>A call of the registry: what follows it, and the answer when it fails.\<close>

definition with_read :: "('db, 'a) reading \<Rightarrow> ('a \<Rightarrow> ('db, 'k, 'rc, 'pc, apiResponse) api) \<Rightarrow> nat \<Rightarrow> ('db, 'k, 'rc, 'pc, apiResponse) api" where
  "with_read r next bad s = (case r (as_db s) of
      Ok x \<Rightarrow> next x s
    | Err _ \<Rightarrow> (Ok (Resp bad RNone), s)
    | Panic \<Rightarrow> (Panic, s))"

definition with_write :: "'db writing \<Rightarrow> ('db, 'k, 'rc, 'pc, apiResponse) api \<Rightarrow> ('db, 'k, 'rc, 'pc, apiResponse) api" where
  "with_write w next s = (case w (as_db s) of
      (Ok _, db) \<Rightarrow> next (s\<lparr>as_db := db\<rparr>)
    | (Err _, db) \<Rightarrow> (Ok (Resp ServerError RNone), s\<lparr>as_db := db\<rparr>)
    | (Panic, db) \<Rightarrow> (Panic, s\<lparr>as_db := db\<rparr>))"

text \<open>A message whose error is not looked at.\<close>

definition asyncProduceMessage :: "('db, 'k) api_deps \<Rightarrow> message \<Rightarrow> ('db, 'k, 'rc, 'pc, unit) api" where
  "asyncProduceMessage d m s = (case PostMessage (ad_kafka d) (ad_config d) m (as_kafka s) of
      (Panic, k) \<Rightarrow> (Panic, s\<lparr>as_kafka := k\<rparr>)
    | (_, k) \<Rightarrow> (Ok (), s\<lparr>as_kafka := k\<rparr>))"

definition getAccessId :: "request \<Rightarrow> ('db, 'k, 'rc, 'pc, string) api" where
  "getAccessId rq = (case rq_access rq of Some i \<Rightarrow> retM i | None \<Rightarrow> panicM)"

definition on_security :: "(('rc, 'pc) securityManager \<Rightarrow> ('rc, 'pc) securityManager) \<Rightarrow> ('db, 'k, 'rc, 'pc, unit) api" where
  "on_security f s = (Ok (), s\<lparr>as_security := f (as_security s)\<rparr>)"

subsection \<open>Devices\<close>

definition CreateDevice :: "('db, 'k) api_deps \<Rightarrow> request \<Rightarrow> ('db, 'k, 'rc, 'pc, apiResponse) api" where
  "CreateDevice d rq = (case bd_device (rq_bind rq) of
      None \<Rightarrow> reply BadRequest RNone
    | Some req \<Rightarrow>
        (if dr_ProductId req = [] \<or> dr_ProductId req \<noteq> rq_param rq ''productId'' then reply BadRequest RNone
         else seqM (NewObjectId d) (\<lambda>deviceId. seqM (time_Now d) (\<lambda>created. seqM (time_Now d) (\<lambda>updated.
           seqM (NewObjectId d) (\<lambda>secret.
             let device = \<lparr>dv_ProductId = dr_ProductId req, dv_DeviceId = deviceId, dv_DeviceName = dr_DeviceName req,
                   dv_DeviceStatus = [], dv_DeviceSecret = secret, dv_Props = [], dv_TimeCreated = created, dv_TimeUpdated = updated\<rparr> in
             with_write (RegisterDevice (ad_store d) device) (reply OK (RDevice device))))))))"

definition device_params :: "request \<Rightarrow> (string \<Rightarrow> string \<Rightarrow> ('db, 'k, 'rc, 'pc, apiResponse) api) \<Rightarrow> ('db, 'k, 'rc, 'pc, apiResponse) api" where
  "device_params rq next = (let deviceId = rq_param rq ''deviceId''; productId = rq_param rq ''productId'' in
     if productId = [] \<or> deviceId = [] then reply BadRequest RNone else next productId deviceId)"

definition RemoveDevice :: "('db, 'k) api_deps \<Rightarrow> request \<Rightarrow> ('db, 'k, 'rc, 'pc, apiResponse) api" where
  "RemoveDevice d rq = device_params rq (\<lambda>productId deviceId.
     with_write (DeleteDevice (ad_store d) productId deviceId) (reply OK RNone))"

definition GetOneDevice :: "('db, 'k) api_deps \<Rightarrow> request \<Rightarrow> ('db, 'k, 'rc, 'pc, apiResponse) api" where
  "GetOneDevice d rq = device_params rq (\<lambda>productId deviceId.
     with_read (GetDevice (ad_store d) productId deviceId) (\<lambda>dev. reply OK (RDevice dev)) ServerError)"

definition api_UpdateDevice :: "('db, 'k) api_deps \<Rightarrow> request \<Rightarrow> ('db, 'k, 'rc, 'pc, apiResponse) api" where
  "api_UpdateDevice d rq = (case bd_device (rq_bind rq) of
      None \<Rightarrow> reply BadRequest RNone
    | Some req \<Rightarrow>
        (if dr_ProductId req = [] \<or> dr_ProductId req \<noteq> rq_param rq ''productId'' \<or>
            dr_DeviceId req = [] \<or> dr_DeviceId req \<noteq> rq_param rq ''deviceId'' then reply BadRequest RNone
         else seqM (time_Now d) (\<lambda>updated.
           let device = \<lparr>dv_ProductId = dr_ProductId req, dv_DeviceId = dr_DeviceId req, dv_DeviceName = dr_DeviceName req,
                 dv_DeviceStatus = [], dv_DeviceSecret = [], dv_Props = [], dv_TimeCreated = zero_time, dv_TimeUpdated = updated\<rparr> in
           with_write (UpdateDevice (ad_store d) device) (reply OK (RDevice device)))))"

definition api_GetDeviceList :: "('db, 'k) api_deps \<Rightarrow> request \<Rightarrow> ('db, 'k, 'rc, 'pc, apiResponse) api" where
  "api_GetDeviceList d rq = (let productId = rq_param rq ''productId'' in
     if productId = [] then reply BadRequest RNone
     else with_read (GetDeviceList (ad_store d) productId) (\<lambda>devs. reply NotImplemented (RDevices devs)) ServerError)"

definition statuses :: "Device list \<Rightarrow> deviceStatus list" where
  "statuses devs = map (\<lambda>dev. \<lparr>dt_DeviceId = dv_DeviceId dev, dt_Status = dv_DeviceStatus dev\<rparr>) devs"

definition name_params :: "request \<Rightarrow> (string \<Rightarrow> string \<Rightarrow> ('db, 'k, 'rc, 'pc, apiResponse) api) \<Rightarrow> ('db, 'k, 'rc, 'pc, apiResponse) api" where
  "name_params rq next = (let deviceName = rq_param rq ''deviceName''; productId = rq_param rq ''productId'' in
     if productId = [] \<or> deviceName = [] then reply BadRequest RNone else next productId deviceName)"

definition api_GetDeviceByName :: "('db, 'k) api_deps \<Rightarrow> request \<Rightarrow> ('db, 'k, 'rc, 'pc, apiResponse) api" where
  "api_GetDeviceByName d rq = name_params rq (\<lambda>productId deviceName.
     with_read (GetDevicesByName (ad_store d) productId deviceName) (\<lambda>odevs. reply OK (RStatuses (statuses odevs))) ServerError)"

text \<open>The properties of a device are the text of a map of strings. Reading the text: a null value is the empty string.\<close>

fun as_string :: "json \<Rightarrow> string option" where
  "as_string (JStr s) = Some s"
| "as_string JNull = Some []"
| "as_string _ = None"

fun read_members :: "(string \<times> json) list \<Rightarrow> (string \<times> string) list \<Rightarrow> (string \<times> string) list option" where
  "read_members [] m = Some m"
| "read_members ((k, v) # ms) m = (case as_string v of None \<Rightarrow> None | Some x \<Rightarrow> read_members ms (AList.update k x m))"

definition unmarshal_props :: "json option \<Rightarrow> (string \<times> string) list option" where
  "unmarshal_props j = (case j of
      Some (JObj ms) \<Rightarrow> read_members ms []
    | Some JNull \<Rightarrow> Some []
    | _ \<Rightarrow> None)"

definition marshal_props :: "(string \<times> string) list \<Rightarrow> json" where
  "marshal_props m = JObj (map (\<lambda>(k, v). (json_string k, j_str v)) (sort_key fst m))"

definition put_all :: "(string \<times> string) list \<Rightarrow> (string \<times> string) list \<Rightarrow> (string \<times> string) list" where
  "put_all new m = fold (\<lambda>(k, v). AList.update k v) new m"

definition device_props :: "('db, 'k) api_deps \<Rightarrow> Device \<Rightarrow> (string \<times> string) list option" where
  "device_props d device = (if dv_Props device \<noteq> [] then unmarshal_props (ad_parse d (dv_Props device)) else Some [])"

definition SaveDeviceProps :: "('db, 'k) api_deps \<Rightarrow> request \<Rightarrow> ('db, 'k, 'rc, 'pc, apiResponse) api" where
  "SaveDeviceProps d rq = (case bd_props (rq_bind rq) of
      None \<Rightarrow> reply BadRequest RNone
    | Some req \<Rightarrow>
        (if ds_ProductId req = [] \<or> ds_ProductId req \<noteq> rq_param rq ''productId'' \<or>
            ds_DeviceId req = [] \<or> ds_DeviceId req \<noteq> rq_param rq ''deviceId'' then reply BadRequest RNone
         else with_read (GetDevice (ad_store d) (ds_ProductId req) (ds_DeviceId req)) (\<lambda>device.
           case device_props d device of
             None \<Rightarrow> reply ServerError RNone
           | Some props \<Rightarrow>
               (let device' = device\<lparr>dv_Props := ad_text d (marshal_props (fold put_all (ds_Props req) props))\<rparr> in
                with_write (UpdateDevice (ad_store d) device') (reply OK (RDevice device')))) ServerError))"

text \<open>
  The loop over the devices found, with the properties collected so far: its variable is a copy of a device, and the properties that
  are assigned to it do not reach the devices, which are written back as they were read.
\<close>

fun props_loop :: "('db, 'k) api_deps \<Rightarrow> devicePropsRequest \<Rightarrow> Device list \<Rightarrow> (string \<times> string) list \<Rightarrow> (Device list \<times> (string \<times> string) list) option" where
  "props_loop d req [] dstprops = Some ([], dstprops)"
| "props_loop d req (device # devices) dstprops = (case device_props d device of
      None \<Rightarrow> None
    | Some mapprops \<Rightarrow>
        (let dstprops' = fold put_all (ds_Props req) (put_all mapprops dstprops);
             copy = device\<lparr>dv_Props := ad_text d (marshal_props dstprops')\<rparr> in
         map_option (\<lambda>(copies, dst). (copy # copies, dst)) (props_loop d req devices dstprops')))"

definition SaveDevicePropsByName :: "('db, 'k) api_deps \<Rightarrow> request \<Rightarrow> ('db, 'k, 'rc, 'pc, apiResponse) api" where
  "SaveDevicePropsByName d rq = (case bd_props (rq_bind rq) of
      None \<Rightarrow> reply BadRequest RNone
    | Some req \<Rightarrow>
        (if ds_ProductId req = [] \<or> ds_ProductId req \<noteq> rq_param rq ''productId'' \<or>
            ds_DeviceName req = [] \<or> ds_DeviceName req \<noteq> rq_param rq ''deviceName'' then reply BadRequest RNone
         else with_read (GetDevicesByName (ad_store d) (ds_ProductId req) (ds_DeviceName req)) (\<lambda>devices.
           case props_loop d req devices [] of
             None \<Rightarrow> reply ServerError RNone
           | Some _ \<Rightarrow> with_write (BulkUpdateDevice (ad_store d) devices) (reply OK (RDevices devices))) ServerError))"

definition GetDeviceProps :: "('db, 'k) api_deps \<Rightarrow> request \<Rightarrow> ('db, 'k, 'rc, 'pc, apiResponse) api" where
  "GetDeviceProps d rq = device_params rq (\<lambda>productId deviceId.
     with_read (GetDevice (ad_store d) productId deviceId) (\<lambda>device.
       case device_props d device of None \<Rightarrow> reply ServerError RNone | Some _ \<Rightarrow> reply OK (RDevice device)) ServerError)"

definition GetDevicePropsByName :: "('db, 'k) api_deps \<Rightarrow> request \<Rightarrow> ('db, 'k, 'rc, 'pc, apiResponse) api" where
  "GetDevicePropsByName d rq = name_params rq (\<lambda>productId deviceName.
     with_read (GetDevicesByName (ad_store d) productId deviceName) (\<lambda>devices.
       if list_ex (\<lambda>device. device_props d device = None) devices then reply ServerError RNone
       else reply OK (RDevices devices)) ServerError)"

definition RemoveDevicePropsByName :: "('db, 'k) api_deps \<Rightarrow> request \<Rightarrow> ('db, 'k, 'rc, 'pc, apiResponse) api" where
  "RemoveDevicePropsByName d rq = name_params rq (\<lambda>productId deviceName.
     with_read (GetDevicesByName (ad_store d) productId deviceName) (\<lambda>devices.
       with_write (BulkUpdateDevice (ad_store d) devices) (reply OK (RDevices devices))) ServerError)"

fun new_devices :: "('db, 'k) api_deps \<Rightarrow> BulkDeviceRegisterRequest \<Rightarrow> nat \<Rightarrow> ('db, 'k, 'rc, 'pc, Device list) api" where
  "new_devices d req 0 s = (Ok [], s)"
| "new_devices d req (Suc n) s = seqM (NewObjectId d) (\<lambda>deviceId. seqM (time_Now d) (\<lambda>created. seqM (NewObjectId d) (\<lambda>secret.
     seqM (new_devices d req n) (\<lambda>devices. retM (\<lparr>dv_ProductId = br_ProductId req, dv_DeviceId = deviceId,
       dv_DeviceName = br_DeviceName req, dv_DeviceStatus = [], dv_DeviceSecret = secret, dv_Props = [],
       dv_TimeCreated = created, dv_TimeUpdated = zero_time\<rparr> # devices))))) s"

definition api_BulkRegisterDevices :: "('db, 'k) api_deps \<Rightarrow> request \<Rightarrow> ('db, 'k, 'rc, 'pc, apiResponse) api" where
  "api_BulkRegisterDevices d rq = (case bd_bulk (rq_bind rq) of
      None \<Rightarrow> reply BadRequest RNone
    | Some req \<Rightarrow>
        (if br_ProductId req = [] \<or> br_ProductId req \<noteq> rq_param rq ''productId'' then reply BadRequest RNone
         else case Atoi (br_Number req) of
           None \<Rightarrow> reply BadRequest RNone
         | Some n \<Rightarrow>
             (if n < 1 then reply BadRequest RNone
              else seqM (new_devices d req (nat n)) (\<lambda>rdevices.
                with_write (BulkRegisterDevices (ad_store d) rdevices) (reply OK (RDevices rdevices))))))"

definition BulkApplyDevices :: "('db, 'k) api_deps \<Rightarrow> request \<Rightarrow> ('db, 'k, 'rc, 'pc, apiResponse) api" where
  "BulkApplyDevices d rq = api_BulkRegisterDevices d rq"

definition BulkApplyGetStatus :: "('db, 'k) api_deps \<Rightarrow> request \<Rightarrow> ('db, 'k, 'rc, 'pc, apiResponse) api" where
  "BulkApplyGetStatus d rq = api_GetDeviceByName d rq"

definition BulkApplyGetDevices :: "('db, 'k) api_deps \<Rightarrow> request \<Rightarrow> ('db, 'k, 'rc, 'pc, apiResponse) api" where
  "BulkApplyGetDevices d rq = api_GetDeviceByName d rq"

definition BulkGetDeviceStatus :: "('db, 'k) api_deps \<Rightarrow> request \<Rightarrow> ('db, 'k, 'rc, 'pc, apiResponse) api" where
  "BulkGetDeviceStatus d rq = api_GetDeviceByName d rq"

definition api_GetShadowDevice :: "('db, 'k) api_deps \<Rightarrow> request \<Rightarrow> ('db, 'k, 'rc, 'pc, apiResponse) api" where
  "api_GetShadowDevice d rq = device_params rq (\<lambda>productId deviceId.
     with_read (GetShadowDevice (ad_store d) productId deviceId) (\<lambda>runlog. reply OK (RRunlog runlog)) ServerError)"

definition UpdateShadowDevice :: "('db, 'k) api_deps \<Rightarrow> request \<Rightarrow> ('db, 'k, 'rc, 'pc, apiResponse) api" where
  "UpdateShadowDevice d rq = api_UpdateDevice d rq"

subsection \<open>Products\<close>

definition product_message_of :: "string \<Rightarrow> string \<Rightarrow> message" where
  "product_message_of productId action =
     MProduct \<lparr>mp_TopicName = TopicNameProduct, mp_ProductId = productId, mp_Action = action, mp_TenantId = [], mp_Replicas = 0\<rparr>"

definition product_permissions :: "string \<Rightarrow> Permission list" where
  "product_permissions productId = [NewPermission ''w'' [''/products/'' @ productId]]"

definition CreateProduct :: "('db, 'k) api_deps \<Rightarrow> request \<Rightarrow> ('db, 'k, 'rc, 'pc, apiResponse) api" where
  "CreateProduct d rq = seqM (getAccessId rq) (\<lambda>accessId. case bd_create (rq_bind rq) of
      None \<Rightarrow> reply BadRequest RNone
    | Some req \<Rightarrow>
        (if pq_ProductName req = [] then reply BadRequest RNone
         else seqM (NewObjectId d) (\<lambda>productId. seqM (time_Now d) (\<lambda>created.
           let p = \<lparr>pr_TenantId = accessId, pr_ProductId = productId, pr_ProductName = pq_ProductName req,
                 pr_Description = pq_Description req, pr_TimeCreated = created, pr_TimeUpdated = zero_time,
                 pr_Category = pq_Category req, pr_TopicFlavor = []\<rparr> in
           with_write (RegisterProduct (ad_store d) p)
             (seqM (on_security (AddPrincipalPermissions (NewPrincipal accessId) (product_permissions productId))) (\<lambda>_.
               seqM (asyncProduceMessage d (product_message_of productId ActionCreate)) (\<lambda>_. reply OK (RProduct p))))))))"

definition RemoveProduct :: "('db, 'k) api_deps \<Rightarrow> request \<Rightarrow> ('db, 'k, 'rc, 'pc, apiResponse) api" where
  "RemoveProduct d rq = seqM (getAccessId rq) (\<lambda>accessId. let productId = rq_param rq ''productId'' in
     with_write (DeleteProduct (ad_store d) productId)
       (seqM (on_security (RemovePrincipalPermissions (ad_iter d) (NewPrincipal accessId) (product_permissions productId))) (\<lambda>_.
         seqM (asyncProduceMessage d (product_message_of productId ActionRemove)) (\<lambda>_. reply OK RNone))))"

definition api_UpdateProduct :: "('db, 'k) api_deps \<Rightarrow> request \<Rightarrow> ('db, 'k, 'rc, 'pc, apiResponse) api" where
  "api_UpdateProduct d rq = (case bd_update (rq_bind rq) of
      None \<Rightarrow> reply BadRequest RNone
    | Some req \<Rightarrow> (let productId = rq_param rq ''productId'' in
        if productId = [] \<or> productId \<noteq> pu_ProductId req then reply BadRequest RNone
        else seqM (time_Now d) (\<lambda>updated.
          let p = \<lparr>pr_TenantId = [], pr_ProductId = pu_ProductId req, pr_ProductName = pu_ProductName req,
                pr_Description = pu_Description req, pr_TimeCreated = zero_time, pr_TimeUpdated = updated,
                pr_Category = pu_Category req, pr_TopicFlavor = []\<rparr> in
          with_write (UpdateProduct (ad_store d) p)
            (seqM (asyncProduceMessage d (product_message_of productId ActionUpdate)) (\<lambda>_. reply OK RNone)))))"

definition GetProductList :: "('db, 'k) api_deps \<Rightarrow> request \<Rightarrow> ('db, 'k, 'rc, 'pc, apiResponse) api" where
  "GetProductList d rq = seqM (getAccessId rq) (\<lambda>accessId.
     with_read (GetProducts (ad_store d) accessId)
       (\<lambda>products. reply OK (RProducts (map (\<lambda>p. (pr_ProductId p, pr_ProductName p)) products))) ServerError)"

definition product_param :: "request \<Rightarrow> (string \<Rightarrow> ('db, 'k, 'rc, 'pc, apiResponse) api) \<Rightarrow> ('db, 'k, 'rc, 'pc, apiResponse) api" where
  "product_param rq next = (let productId = rq_param rq ''productId'' in
     if productId = [] then reply BadRequest RNone else next productId)"

definition api_GetProduct :: "('db, 'k) api_deps \<Rightarrow> request \<Rightarrow> ('db, 'k, 'rc, 'pc, apiResponse) api" where
  "api_GetProduct d rq = product_param rq (\<lambda>productId.
     with_read (GetProduct (ad_store d) productId) (\<lambda>p. reply OK (RProduct p)) NotFound)"

definition api_GetProductDevices :: "('db, 'k) api_deps \<Rightarrow> request \<Rightarrow> ('db, 'k, 'rc, 'pc, apiResponse) api" where
  "api_GetProductDevices d rq = product_param rq (\<lambda>productId.
     with_read (GetProductDevices (ad_store d) productId) (\<lambda>pdevices. reply OK (RStatuses (statuses pdevices))) OK)"

subsection \<open>Tenants\<close>

definition tenant_message_of :: "string \<Rightarrow> string \<Rightarrow> message" where
  "tenant_message_of tenantId action = MTenant \<lparr>mt_TopicName = TopicNameTenant, mt_TenantId = tenantId, mt_Action = action\<rparr>"

definition tenant_permissions :: "Permission list" where
  "tenant_permissions = [NewPermission ''rw'' [''/products/'', ''/topicflavors'']]"

definition api_RegisterTenant :: "('db, 'k) api_deps \<Rightarrow> request \<Rightarrow> ('db, 'k, 'rc, 'pc, apiResponse) api" where
  "api_RegisterTenant d rq = (case bd_register (rq_bind rq) of
      None \<Rightarrow> reply BadRequest RNone
    | Some req \<Rightarrow> seqM (time_Now d) (\<lambda>created.
        let t = \<lparr>tn_TenantId = rg_TenantId req, tn_Password = rg_Password req, tn_SecretKey = [], tn_CreatedAt = created,
              tn_UpdatedAt = zero_time, tn_Roles = [''tenant'']\<rparr> in
        with_write (RegisterTenant (ad_store d) t)
          (seqM (on_security (AddPrincipalPermissions (NewPrincipal (tn_TenantId t)) tenant_permissions)) (\<lambda>_.
            seqM (asyncProduceMessage d (tenant_message_of (rg_TenantId req) ActionCreate)) (\<lambda>_. reply OK (RTenant t))))))"

text \<open>The realm of the security manager, which reads the registry at every call.\<close>

definition AuthorizeRealm :: "('db, 'k) api_deps \<Rightarrow> 'db \<Rightarrow> realm" where
  "AuthorizeRealm d db = \<lparr>rl_name = ''iot_api_server'',
     rl_supports = (\<lambda>tok. tk_kind tok = JWTToken \<or> tk_kind tok = RequestToken),
     rl_principals = (\<lambda>tok. case registry_New (ad_dial d) (ad_config d) of
         Ok _ \<Rightarrow> (case GetTenant (ad_store d) (tk_Principal tok) db of
             Ok tenant \<Rightarrow> pc_Add (AddRoles (tn_Roles tenant) (SetCrenditals (tn_Password tenant)
               (NewPrincipalWithRealm (tk_Principal tok) ''iot_api_server''))) NewPrincipalCollection
           | _ \<Rightarrow> NewPrincipalCollection)
       | _ \<Rightarrow> NewPrincipalCollection)\<rparr>"

definition security_now :: "('db, 'k) api_deps \<Rightarrow> ('db, 'k, 'rc, 'pc) api_state \<Rightarrow> ('rc, 'pc) securityManager" where
  "security_now d s = (as_security s)\<lparr>sg_realms := [(''iot_api_server'', AuthorizeRealm d (as_db s))]\<rparr>"

definition LoginTenant :: "('db, 'k) api_deps \<Rightarrow> request \<Rightarrow> ('db, 'k, 'rc, 'pc, apiResponse) api" where
  "LoginTenant d rq s = (case bd_register (rq_bind rq) of
      None \<Rightarrow> reply BadRequest RNone s
    | Some req \<Rightarrow>
        (case Login (ad_iter d) \<lparr>tk_kind = JWTToken, tk_Principal = rg_TenantId req, tk_Crenditals = Some (rg_Password req),
             tk_Authenticated = False\<rparr> (security_now d s) of
           Ok _ \<Rightarrow> reply OK (RToken (ad_sign d (rg_TenantId req))) s
         | Err _ \<Rightarrow> reply Unauthorized RNone s
         | Panic \<Rightarrow> (Panic, s)))"

definition LogoutTenant :: "('db, 'k, 'rc, 'pc, apiResponse) api" where
  "LogoutTenant = reply OK RNone"

definition tenant_param :: "request \<Rightarrow> (string \<Rightarrow> ('db, 'k, 'rc, 'pc, apiResponse) api) \<Rightarrow> ('db, 'k, 'rc, 'pc, apiResponse) api" where
  "tenant_param rq next = (let tenantId = rq_param rq ''tenantId'' in
     if tenantId = [] then reply BadRequest RNone else next tenantId)"

definition api_DeleteTenant :: "('db, 'k) api_deps \<Rightarrow> request \<Rightarrow> ('db, 'k, 'rc, 'pc, apiResponse) api" where
  "api_DeleteTenant d rq = tenant_param rq (\<lambda>tenantId.
     with_write (DeleteTenant (ad_store d) tenantId)
       (seqM (asyncProduceMessage d (tenant_message_of tenantId ActionRemove)) (\<lambda>_. reply OK RNone)))"

definition api_GetTenant :: "('db, 'k) api_deps \<Rightarrow> request \<Rightarrow> ('db, 'k, 'rc, 'pc, apiResponse) api" where
  "api_GetTenant d rq = tenant_param rq (\<lambda>tenantId.
     with_read (GetTenant (ad_store d) tenantId) (\<lambda>t. reply OK (RTenant t)) ServerError)"

definition api_UpdateTenant :: "('db, 'k) api_deps \<Rightarrow> request \<Rightarrow> ('db, 'k, 'rc, 'pc, apiResponse) api" where
  "api_UpdateTenant d rq = (case bd_tenant (rq_bind rq) of
      None \<Rightarrow> reply BadRequest RNone
    | Some t \<Rightarrow> with_write (UpdateTenant (ad_store d) (tn_TenantId t) t)
        (seqM (asyncProduceMessage d (tenant_message_of (tn_TenantId t) ActionUpdate)) (\<lambda>_. reply OK (RTenant t))))"

definition GetTenantProductList :: "('db, 'k, 'rc, 'pc, apiResponse) api" where
  "GetTenantProductList = reply NotImplemented RNone"

subsection \<open>Rules\<close>

definition rule_message_of :: "string \<Rightarrow> string \<Rightarrow> string \<Rightarrow> message" where
  "rule_message_of productId ruleName action =
     MRule \<lparr>mr_TopicName = TopicNameRule, mr_RuleName = ruleName, mr_ProductId = productId, mr_Action = action\<rparr>"

definition bad_rule :: "request \<Rightarrow> Rule \<Rightarrow> bool" where
  "bad_rule rq rule \<longleftrightarrow> ru_ProductId rule = [] \<or> ru_ProductId rule \<noteq> rq_param rq ''productId'' \<or>
     ru_RuleName rule = [] \<or> ru_RuleName rule \<noteq> rq_param rq ''ruleName''"

definition CreateRule :: "('db, 'k) api_deps \<Rightarrow> request \<Rightarrow> ('db, 'k, 'rc, 'pc, apiResponse) api" where
  "CreateRule d rq = (case bd_rule (rq_bind rq) of
      None \<Rightarrow> reply BadRequest RNone
    | Some rule \<Rightarrow>
        (if bad_rule rq rule then reply BadRequest RNone
         else seqM (time_Now d) (\<lambda>created. seqM (time_Now d) (\<lambda>updated.
           let rule' = rule\<lparr>ru_TimeCreated := created, ru_TimeUpdated := updated\<rparr> in
           with_write (RegisterRule (ad_store d) rule')
             (seqM (asyncProduceMessage d (rule_message_of (ru_ProductId rule) (ru_RuleName rule) ActionCreate)) (\<lambda>_.
               reply OK (RRule rule')))))))"

definition rule_params :: "request \<Rightarrow> (string \<Rightarrow> string \<Rightarrow> ('db, 'k, 'rc, 'pc, apiResponse) api) \<Rightarrow> ('db, 'k, 'rc, 'pc, apiResponse) api" where
  "rule_params rq next = (let productId = rq_param rq ''productId''; ruleName = rq_param rq ''ruleName'' in
     if productId = [] \<or> ruleName = [] then reply BadRequest RNone else next productId ruleName)"

definition api_RemoveRule :: "('db, 'k) api_deps \<Rightarrow> request \<Rightarrow> ('db, 'k, 'rc, 'pc, apiResponse) api" where
  "api_RemoveRule d rq = rule_params rq (\<lambda>productId ruleName.
     with_write (RemoveRule (ad_store d) productId ruleName)
       (seqM (asyncProduceMessage d (rule_message_of productId ruleName ActionRemove)) (\<lambda>_. reply OK RNone)))"

definition api_UpdateRule :: "('db, 'k) api_deps \<Rightarrow> request \<Rightarrow> ('db, 'k, 'rc, 'pc, apiResponse) api" where
  "api_UpdateRule d rq = (case bd_rule (rq_bind rq) of
      None \<Rightarrow> reply BadRequest RNone
    | Some rule \<Rightarrow>
        (if bad_rule rq rule then reply BadRequest RNone
         else with_write (UpdateRule (ad_store d) rule)
           (seqM (asyncProduceMessage d (rule_message_of (ru_ProductId rule) (ru_RuleName rule) ActionUpdate)) (\<lambda>_.
             reply OK (RRule rule)))))"

definition StartRule :: "('db, 'k) api_deps \<Rightarrow> request \<Rightarrow> ('db, 'k, 'rc, 'pc, apiResponse) api" where
  "StartRule d rq = rule_params rq (\<lambda>productId ruleName.
     seqM (asyncProduceMessage d (rule_message_of productId ruleName ActionStart)) (\<lambda>_. reply OK RNone))"

definition StopRule :: "('db, 'k) api_deps \<Rightarrow> request \<Rightarrow> ('db, 'k, 'rc, 'pc, apiResponse) api" where
  "StopRule d rq = rule_params rq (\<lambda>productId ruleName.
     seqM (asyncProduceMessage d (rule_message_of productId ruleName ActionStop)) (\<lambda>_. reply OK RNone))"

definition api_GetRule :: "('db, 'k) api_deps \<Rightarrow> request \<Rightarrow> ('db, 'k, 'rc, 'pc, apiResponse) api" where
  "api_GetRule d rq = rule_params rq (\<lambda>productId ruleName.
     with_read (GetRule (ad_store d) productId ruleName) (\<lambda>rule. reply OK (RRule rule)) ServerError)"

definition GetProductRules :: "('db, 'k) api_deps \<Rightarrow> request \<Rightarrow> ('db, 'k, 'rc, 'pc, apiResponse) api" where
  "GetProductRules d rq = product_param rq (\<lambda>productId.
     with_read (GetProductRuleNames (ad_store d) productId) (\<lambda>names. reply OK (RNames names)) ServerError)"

subsection \<open>Topic flavors\<close>

definition api_CreateTopicFlavor :: "('db, 'k) api_deps \<Rightarrow> request \<Rightarrow> ('db, 'k, 'rc, 'pc, apiResponse) api" where
  "api_CreateTopicFlavor d rq = (case bd_flavor (rq_bind rq) of
      None \<Rightarrow> reply BadRequest RNone
    | Some flavor \<Rightarrow> with_write (CreateTopicFlavor (ad_store d) flavor) (reply OK RNone))"

definition api_GetBuiltinTopicFlavors :: "('db, 'k) api_deps \<Rightarrow> ('db, 'k, 'rc, 'pc, apiResponse) api" where
  "api_GetBuiltinTopicFlavors d s = reply OK (RFlavors (GetBuiltinTopicFlavors (ad_store d) (as_db s))) s"

definition api_GetProductTopicFlavors :: "('db, 'k) api_deps \<Rightarrow> request \<Rightarrow> ('db, 'k, 'rc, 'pc, apiResponse) api" where
  "api_GetProductTopicFlavors d rq s = reply OK (RFlavors (GetProductTopicFlavors (ad_store d) (rq_param rq ''productId'') (as_db s))) s"

definition api_GetTenantTopicFlavors :: "('db, 'k) api_deps \<Rightarrow> request \<Rightarrow> ('db, 'k, 'rc, 'pc, apiResponse) api" where
  "api_GetTenantTopicFlavors d rq s = reply OK (RFlavors (GetTenantTopicFlavors (ad_store d) (rq_param rq ''tenantId'') (as_db s))) s"

definition RemoveProductTopicFlavor :: "('db, 'k) api_deps \<Rightarrow> request \<Rightarrow> ('db, 'k, 'rc, 'pc, apiResponse) api" where
  "RemoveProductTopicFlavor d rq = with_read (GetProduct (ad_store d) (rq_param rq ''productId'')) (\<lambda>p.
     with_write (UpdateProduct (ad_store d) (p\<lparr>pr_TopicFlavor := []\<rparr>)) (reply OK RNone)) ServerError"

definition SetProductTopicFlavor :: "('db, 'k) api_deps \<Rightarrow> request \<Rightarrow> ('db, 'k, 'rc, 'pc, apiResponse) api" where
  "SetProductTopicFlavor d rq = (case bd_flavor (rq_bind rq) of
      None \<Rightarrow> reply BadRequest RNone
    | Some _ \<Rightarrow> with_read (GetProduct (ad_store d) (rq_param rq ''productId'')) (\<lambda>p.
        with_write (UpdateProduct (ad_store d) (p\<lparr>pr_TopicFlavor := rq_query rq ''topicflavor''\<rparr>)) (reply OK RNone)) ServerError)"

subsection \<open>Messages and statistics\<close>

definition device_event :: "deviceMessage \<Rightarrow> event" where
  "device_event req = TopicPublish \<lparr>tp_BrokerID = [], tp_Type = 3, tp_ClientID = [], tp_ProductID = [], tp_Persistent = False,
     tp_ID = 0, tp_Topic = dm_Topic req, tp_Payload = dm_Payload req, tp_Qos = dm_Qos req, tp_Direction = 0,
     tp_Retain = dm_Retain req, tp_Dup = False\<rparr>"

definition device_message :: "('db, 'k) api_deps \<Rightarrow> deviceMessage \<Rightarrow> message" where
  "device_message d req = MBroker \<lparr>mb_TopicName = dm_ProductId req @ ''-'' @ dm_DeviceId req @ ''-'' @ dm_Topic req,
     mb_EventType = 0, mb_Payload = ad_bytes d (Encode (device_event req))\<rparr>"

definition SendMessageToDevice :: "('db, 'k) api_deps \<Rightarrow> request \<Rightarrow> ('db, 'k, 'rc, 'pc, apiResponse) api" where
  "SendMessageToDevice d rq s = (case bd_message (rq_bind rq) of
      None \<Rightarrow> reply BadRequest RNone s
    | Some req \<Rightarrow>
        (if dm_ProductId req = [] \<or> dm_DeviceId req = [] \<or> dm_Topic req = [] \<or> dm_Payload req = [] then reply BadRequest RNone s
         else case PostMessage (ad_kafka d) (ad_config d) (device_message d req) (as_kafka s) of
           (Ok _, k) \<Rightarrow> reply OK RNone (s\<lparr>as_kafka := k\<rparr>)
         | (Err _, k) \<Rightarrow> reply ServerError RNone (s\<lparr>as_kafka := k\<rparr>)
         | (Panic, k) \<Rightarrow> (Panic, s\<lparr>as_kafka := k\<rparr>)))"

definition BroadcastProductMessage :: "('db, 'k, 'rc, 'pc, apiResponse) api" where
  "BroadcastProductMessage = reply NotImplemented RNone"

definition GetDeviceStatics :: "('db, 'k, 'rc, 'pc, apiResponse) api" where
  "GetDeviceStatics = reply NotImplemented RNone"

definition GetServiceStatics :: "('db, 'k, 'rc, 'pc, apiResponse) api" where
  "GetServiceStatics = reply NotImplemented RNone"

subsection \<open>Lemmas\<close>

text \<open>What every run keeps of the state.\<close>

definition stays :: "('s \<Rightarrow> bool) \<Rightarrow> ('s, 'e, 'a) go \<Rightarrow> bool" where
  "stays P m \<longleftrightarrow> (\<forall>s. P s \<longrightarrow> P (snd (m s)))"

named_theorems stays_rules \<open>rules for what the parts of a handler keep\<close>

lemma stays_basic [stays_rules]: "stays P (retM a)" "stays P (errM e)" "stays P panicM" "stays P (reply st r)"
  by (simp_all add: stays_def retM_def errM_def panicM_def reply_def)

lemma stays_seqM [stays_rules]: "stays P m \<Longrightarrow> (\<And>a. stays P (k a)) \<Longrightarrow> stays P (seqM m k)"
  unfolding stays_def seqM_def by (force split: prod.splits outcome.splits)

lemma stays_split [stays_rules]:
  "(b \<Longrightarrow> stays P m) \<Longrightarrow> (\<not> b \<Longrightarrow> stays P k) \<Longrightarrow> stays P (if b then m else k)"
  "stays P m \<Longrightarrow> (\<And>x. stays P (f x)) \<Longrightarrow> stays P (case v of None \<Rightarrow> m | Some x \<Rightarrow> f x)"
  "(\<And>y. stays P (g y)) \<Longrightarrow> stays P (Let u g)"
  by (simp_all split: option.splits)

lemma stays_access [stays_rules]: "stays P (getAccessId rq)"
  by (simp add: getAccessId_def stays_def retM_def panicM_def split: option.splits)

lemma stays_params [stays_rules]:
  "(\<And>a b. stays P (f a b)) \<Longrightarrow> stays P (device_params rq f)" "(\<And>a b. stays P (f a b)) \<Longrightarrow> stays P (name_params rq f)"
  "(\<And>a b. stays P (f a b)) \<Longrightarrow> stays P (rule_params rq f)" "(\<And>a. stays P (g a)) \<Longrightarrow> stays P (product_param rq g)"
  "(\<And>a. stays P (g a)) \<Longrightarrow> stays P (tenant_param rq g)"
  by (simp_all add: device_params_def name_params_def rule_params_def product_param_def tenant_param_def Let_def stays_basic)

lemma stays_with_read [stays_rules]: "(\<And>x. stays P (f x)) \<Longrightarrow> stays P (with_read r f bad)"
  by (simp add: stays_def with_read_def split: outcome.splits)

lemma new_devices_Suc:
  "new_devices d req (Suc n) = seqM (NewObjectId d) (\<lambda>deviceId. seqM (time_Now d) (\<lambda>created. seqM (NewObjectId d) (\<lambda>secret.
     seqM (new_devices d req n) (\<lambda>devices. retM (\<lparr>dv_ProductId = br_ProductId req, dv_DeviceId = deviceId,
       dv_DeviceName = br_DeviceName req, dv_DeviceStatus = [], dv_DeviceSecret = secret, dv_Props = [],
       dv_TimeCreated = created, dv_TimeUpdated = zero_time\<rparr> # devices)))))"
  by (rule ext) simp

lemmas handler_defs = CreateDevice_def RemoveDevice_def GetOneDevice_def api_UpdateDevice_def api_GetDeviceList_def api_GetDeviceByName_def
  SaveDeviceProps_def SaveDevicePropsByName_def GetDeviceProps_def GetDevicePropsByName_def RemoveDevicePropsByName_def
  api_BulkRegisterDevices_def BulkApplyDevices_def BulkApplyGetStatus_def BulkApplyGetDevices_def BulkGetDeviceStatus_def
  api_GetShadowDevice_def UpdateShadowDevice_def CreateProduct_def RemoveProduct_def api_UpdateProduct_def GetProductList_def api_GetProduct_def
  api_GetProductDevices_def api_RegisterTenant_def LogoutTenant_def api_DeleteTenant_def api_GetTenant_def api_UpdateTenant_def
  GetTenantProductList_def CreateRule_def api_RemoveRule_def api_UpdateRule_def StartRule_def StopRule_def api_GetRule_def GetProductRules_def
  api_CreateTopicFlavor_def RemoveProductTopicFlavor_def SetProductTopicFlavor_def BroadcastProductMessage_def GetDeviceStatics_def
  GetServiceStatics_def

text \<open>Handlers that answer with an error and have changed nothing but the counter; those whose answers are all \<open>OK\<close>.\<close>

definition same_but_tick :: "('db, 'k, 'rc, 'pc) api_state \<Rightarrow> ('db, 'k, 'rc, 'pc) api_state \<Rightarrow> bool" where
  "same_but_tick s t \<longleftrightarrow> as_db t = as_db s \<and> as_kafka t = as_kafka s \<and> as_security t = as_security s"

definition tidy :: "('db, 'k, 'rc, 'pc, apiResponse) api \<Rightarrow> bool" where
  "tidy m \<longleftrightarrow> (\<forall>s st x t. m s = (Ok (Resp st x), t) \<longrightarrow> st \<noteq> OK \<longrightarrow> same_but_tick s t)"

definition final :: "('db, 'k, 'rc, 'pc, apiResponse) api \<Rightarrow> bool" where
  "final m \<longleftrightarrow> (\<forall>s st x t. m s = (Ok (Resp st x), t) \<longrightarrow> st = OK)"

definition neutral :: "('db, 'k, 'rc, 'pc, 'a) api \<Rightarrow> bool" where
  "neutral m \<longleftrightarrow> (\<forall>s. same_but_tick s (snd (m s)))"

named_theorems tidy_rules \<open>rules for handlers that fail without an effect\<close>

lemma same_but_tick_refl [simp]: "same_but_tick s s" by (simp add: same_but_tick_def)

lemma same_but_tick_trans: "same_but_tick s t \<Longrightarrow> same_but_tick t u \<Longrightarrow> same_but_tick s u" by (simp add: same_but_tick_def)

lemma final_tidy: "final m \<Longrightarrow> tidy m"
  by (auto simp: final_def tidy_def)

lemma final_rules [tidy_rules]:
  "final (reply OK r)" "(\<And>a. final (k a)) \<Longrightarrow> final (seqM m k)"
  unfolding final_def seqM_def by (auto simp: reply_def retM_def split: prod.splits outcome.splits)

lemma neutral_rules [tidy_rules]: "neutral (NewObjectId d)" "neutral (time_Now d)" "neutral (getAccessId rq)" "neutral (retM a)"
  by (auto simp: neutral_def NewObjectId_def time_Now_def same_but_tick_def getAccessId_def retM_def panicM_def split: option.splits)

lemma tidy_reply [tidy_rules]: "tidy (reply st r)"
  by (simp add: tidy_def reply_def retM_def)

lemma tidy_seqM [tidy_rules]: "neutral m \<Longrightarrow> (\<And>a. tidy (k a)) \<Longrightarrow> tidy (seqM m k)"
proof -
  assume m: "neutral m" and k: "\<And>a. tidy (k a)"
  show "tidy (seqM m k)"
    unfolding tidy_def
  proof (intro allI impI)
    fix s st x t assume run: "seqM m k s = (Ok (Resp st x), t)" and st: "st \<noteq> OK"
    obtain a u where "m s = (Ok a, u)" "k a u = (Ok (Resp st x), t)" using run by (auto simp: seqM_eq_Ok)
    moreover from this have "same_but_tick s u" using m unfolding neutral_def by (metis snd_conv)
    ultimately show "same_but_tick s t" using k st unfolding tidy_def by (blast intro: same_but_tick_trans)
  qed
qed

lemma tidy_split [tidy_rules]:
  "(b \<Longrightarrow> tidy m) \<Longrightarrow> (\<not> b \<Longrightarrow> tidy k) \<Longrightarrow> tidy (if b then m else k)"
  "tidy m \<Longrightarrow> (\<And>x. tidy (f x)) \<Longrightarrow> tidy (case v of None \<Rightarrow> m | Some x \<Rightarrow> f x)"
  "(\<And>y. tidy (g y)) \<Longrightarrow> tidy (Let u g)"
  by (simp_all split: option.splits)

lemma tidy_params [tidy_rules]:
  "(\<And>a b. tidy (f a b)) \<Longrightarrow> tidy (device_params rq f)" "(\<And>a b. tidy (f a b)) \<Longrightarrow> tidy (name_params rq f)"
  "(\<And>a b. tidy (f a b)) \<Longrightarrow> tidy (rule_params rq f)" "(\<And>a. tidy (g a)) \<Longrightarrow> tidy (product_param rq g)"
  "(\<And>a. tidy (g a)) \<Longrightarrow> tidy (tenant_param rq g)"
  by (simp_all add: device_params_def name_params_def rule_params_def product_param_def tenant_param_def Let_def tidy_reply)

lemma tidy_with_read [tidy_rules]: "(\<And>x. tidy (f x)) \<Longrightarrow> tidy (with_read r f bad)"
  unfolding tidy_def with_read_def by (auto split: outcome.splits)

text \<open>A write that fails leaves the database as it was.\<close>

definition clean :: "'db writing \<Rightarrow> bool" where
  "clean w \<longleftrightarrow> (\<forall>db e db'. w db = (Err e, db') \<longrightarrow> db' = db)"

lemma tidy_with_write [tidy_rules]: "clean w \<Longrightarrow> final m \<Longrightarrow> tidy (with_write w m)"
proof -
  assume w: "clean w" and m: "final m"
  show "tidy (with_write w m)"
    unfolding tidy_def
  proof (intro allI impI)
    fix s st x t assume run: "with_write w m s = (Ok (Resp st x), t)" and st: "st \<noteq> OK"
    obtain r db where db: "w (as_db s) = (r, db)" by fastforce
    show "same_but_tick s t"
    proof (cases r)
      case (Ok a) then show ?thesis using run db m st unfolding final_def with_write_def by auto
    next
      case (Err e) then have "db = as_db s" using w db unfolding clean_def by blast
      then show ?thesis using run db Err by (auto simp: with_write_def same_but_tick_def)
    qed (use run db in \<open>simp add: with_write_def\<close>)
  qed
qed

lemma bulk_update_ok: "fst (BulkUpdateDevice st vs db) = Ok ()"
  by (induction vs arbitrary: db) simp_all

lemma clean_writes:
  assumes "store_laws st contents uniq"
  shows "clean (insert_new st c q name v)" "clean (st_insert st c v)" "clean (st_remove st c q)" "clean (st_update st c q v)"
    "clean (BulkUpdateDevice st vs)"
proof -
  show "clean (insert_new st c q name v)" unfolding clean_def using insert_new_err [OF assms] by blast
  have "if \<exists>e \<in># contents db c. same_key (uniq c) v e then st_insert st c v db = (Err ErrDuplicate, db)
     else \<exists>db'. st_insert st c v db = (Ok (), db') \<and> contents db' = (contents db)(c := add_mset v (contents db c))" for db
    using assms unfolding store_laws_def insert_law_def by blast
  then show "clean (st_insert st c v)" unfolding clean_def by (metis outcome.distinct(1) prod.inject)
  show "clean (st_remove st c q)" unfolding clean_def
  proof (intro allI impI)
    fix db e db' assume "st_remove st c q db = (Err e, db')"
    then show "db' = db" by (cases rule: remove_cases [OF assms, of c q db]) simp_all
  qed
  show "clean (st_update st c q v)" unfolding clean_def
  proof (intro allI impI)
    fix db e db' assume "st_update st c q v db = (Err e, db')"
    then show "db' = db" by (cases rule: update_cases [OF assms, of c q v db]) simp_all
  qed
  show "clean (BulkUpdateDevice st vs)" unfolding clean_def by (metis bulk_update_ok fst_conv outcome.distinct(1))
qed

subsection \<open>Devices, from request to answer\<close>

lemma created_device:
  assumes "CreateDevice d rq s = (Ok (Resp OK (RDevice v)), t)"
  shows "RegisterDevice (ad_store d) v (as_db s) = (Ok (), as_db t)"
  using assms
  by (auto simp: CreateDevice_def reply_def retM_def OK_def BadRequest_def ServerError_def seqM_def NewObjectId_def time_Now_def with_write_def
    Let_def split: option.splits if_splits prod.splits outcome.splits)

text \<open>C23. A device that was created is served: whoever asks for the identifier that the creation answered with gets the device of that
  answer, the times cut to milliseconds.\<close>

theorem created_device_is_served:
  assumes "store_laws (ad_store d) contents uniq" "CreateDevice d rq s = (Ok (Resp OK (RDevice v)), t)"
    "rq_param rq' ''productId'' = dv_ProductId v" "rq_param rq' ''deviceId'' = dv_DeviceId v" "dv_ProductId v \<noteq> []" "dv_DeviceId v \<noteq> []"
  shows "GetOneDevice d rq' t = (Ok (Resp OK (RDevice (v\<lparr>dv_TimeCreated := to_millis (dv_TimeCreated v), dv_TimeUpdated := to_millis (dv_TimeUpdated v)\<rparr>))), t)"
  using registered_device(1) [OF assms(1), OF created_device [OF assms(2)]] assms(3-6)
  by (simp add: GetOneDevice_def device_params_def Let_def with_read_def reply_def retM_def)

definition device_documents :: "'db contents \<Rightarrow> 'db \<Rightarrow> bool" where
  "device_documents contents db \<longleftrightarrow> (\<forall>e \<in># contents db ''devices''. \<exists>v. e = enc_device v)"

lemma enc_dec_enc_device: "enc_device (dec_device (enc_device v)) = enc_device v"
  unfolding dec_enc_device by (simp add: enc_device_def e_time_def to_millis_def millis_def)

lemma update_device_same:
  assumes "store_laws st contents uniq" "one_each contents db" "enc_device v \<in># contents db ''devices''"
  shows "contents (snd (UpdateDevice st v db)) = contents db"
proof (rule update_cases [OF assms(1), of "''devices''" "by_device (dv_ProductId v) (dv_DeviceId v)" "enc_device v" db])
  fix err assume "st_update st ''devices'' (by_device (dv_ProductId v) (dv_DeviceId v)) (enc_device v) db = (Err err, db)"
  then show ?thesis by (simp add: UpdateDevice_def)
next
  fix db' e assume replaced: "st_update st ''devices'' (by_device (dv_ProductId v) (dv_DeviceId v)) (enc_device v) db = (Ok (), db')"
    "e \<in># contents db ''devices''" "matches (by_device (dv_ProductId v) (dv_DeviceId v)) e"
    "contents db' = (contents db)(''devices'' := add_mset (enc_device v) (contents db ''devices'' - {#e#}))"
  have "matches (by_device_id (dv_DeviceId v)) e" using replaced(3) by (rule by_device_id)
  moreover have "matches (by_device_id (dv_DeviceId v)) (enc_device v)" by (simp only: device_matches)
  ultimately have "e = enc_device v"
    using size_le_one_eq [OF _ replaced(2) assms(3)] assms(2) unfolding one_each_def by blast
  then have "contents db' = contents db" using replaced(2,4) by simp
  then show ?thesis using replaced(1) by (simp add: UpdateDevice_def)
qed

lemma bulk_update_same:
  assumes "store_laws st contents uniq" "one_each contents db" "\<forall>v \<in> set vs. enc_device v \<in># contents db ''devices''"
  shows "contents (snd (BulkUpdateDevice st vs db)) = contents db"
  using assms(2,3)
proof (induction vs arbitrary: db)
  case (Cons v vs)
  have one: "contents (snd (UpdateDevice st v db)) = contents db"
    using update_device_same [OF assms(1) Cons.prems(1)] Cons.prems(2) by simp
  then have "one_each contents (snd (UpdateDevice st v db))" using Cons.prems(1) by (simp add: one_each_def)
  from Cons.IH [OF this] show ?case using one Cons.prems(2) by simp
qed simp

lemma found_by_name:
  assumes "store_laws st contents uniq" "device_documents contents db" "GetDevicesByName st p n db = Ok vs" "v \<in> set vs"
  shows "enc_device v \<in># contents db ''devices''"
proof -
  obtain ds where ds: "st_find st ''devices'' (by_device_name p n) None db = Ok ds" "mset ds = filter_mset (matches (by_device_name p n)) (contents db ''devices'')"
    using assms(1) unfolding store_laws_def find_law_def by blast
  then obtain e where e: "e \<in> set ds" "v = dec_device e" using assms(3,4) by (auto simp: GetDevicesByName_def get_all_def)
  have "e \<in># mset ds" using e(1) by simp
  then have "e \<in># contents db ''devices''" unfolding ds(2) by simp
  moreover from this obtain w where "e = enc_device w" using assms(2) unfolding device_documents_def by blast
  ultimately show ?thesis using e(2) by (simp add: enc_dec_enc_device)
qed

text \<open>Saving or removing the properties of the devices of a name changes nothing in the database, although the answer is a success: with one
  document for a device, every device is written back as it was read.\<close>

theorem props_by_name_unchanged:
  assumes "store_laws (ad_store d) contents uniq" "one_each contents (as_db s)" "device_documents contents (as_db s)"
    "SaveDevicePropsByName d rq s = (r, t) \<or> RemoveDevicePropsByName d rq s = (r, t)"
  shows "contents (as_db t) = contents (as_db s)"
proof -
  have same: "contents (snd (BulkUpdateDevice (ad_store d) vs (as_db s))) = contents (as_db s)"
    if "GetDevicesByName (ad_store d) p n (as_db s) = Ok vs" for p n vs
    using bulk_update_same [OF assms(1,2)] found_by_name [OF assms(1,3) that] by blast
  have written: "contents (as_db (snd (with_write (BulkUpdateDevice (ad_store d) vs) (reply st x) s))) = contents (as_db s)"
    if "GetDevicesByName (ad_store d) p n (as_db s) = Ok vs" for p n vs st x
    using same [OF that] bulk_update_ok [of "ad_store d" vs "as_db s"]
    by (cases "BulkUpdateDevice (ad_store d) vs (as_db s)") (simp add: with_write_def reply_def retM_def)
  from assms(4) show ?thesis
  proof
    assume "SaveDevicePropsByName d rq s = (r, t)"
    then have t: "t = snd (SaveDevicePropsByName d rq s)" by simp
    show ?thesis unfolding t
      by (auto simp: SaveDevicePropsByName_def with_read_def written reply_def [of BadRequest] reply_def [of ServerError] retM_def split: option.splits outcome.splits)
  next
    assume "RemoveDevicePropsByName d rq s = (r, t)"
    then have t: "t = snd (RemoveDevicePropsByName d rq s)" by simp
    show ?thesis unfolding t
      by (auto simp: RemoveDevicePropsByName_def name_params_def Let_def with_read_def written reply_def [of BadRequest] retM_def split: outcome.splits)
  qed
qed

lemma updated_device:
  assumes "api_UpdateDevice d rq s = (Ok (Resp OK (RDevice v)), t)"
  shows "UpdateDevice (ad_store d) v (as_db s) = (Ok (), as_db t)" "dv_DeviceSecret v = []" "dv_Props v = []"
  using assms
  by (auto simp: api_UpdateDevice_def reply_def retM_def OK_def BadRequest_def ServerError_def seqM_def time_Now_def with_write_def Let_def
    split: option.splits if_splits prod.splits outcome.splits)

text \<open>Updating a device takes its secret and its properties away: after a successful update the registry holds the device without both,
  so that the device, whose password is made with the secret, is another one to the broker.\<close>

theorem update_erases_secret:
  assumes "store_laws (ad_store d) contents uniq" "one_each contents (as_db s)"
    "api_UpdateDevice d rq s = (Ok (Resp OK (RDevice v)), t)"
  shows "\<exists>w. GetDevice (ad_store d) (dv_ProductId v) (dv_DeviceId v) (as_db t) = Ok w \<and> dv_DeviceSecret w = [] \<and> dv_Props w = []"
proof -
  note upd = updated_device(1) [OF assms(3)] and v = updated_device(2,3) [OF assms(3)]
  obtain e where e: "e \<in># contents (as_db s) ''devices''" "matches (by_device (dv_ProductId v) (dv_DeviceId v)) e"
    "contents (as_db t) = (contents (as_db s))(''devices'' := add_mset (enc_device v) (contents (as_db s) ''devices'' - {#e#}))"
    using update_replaces [OF assms(1) upd [unfolded UpdateDevice_def]] by blast
  have "size (filter_mset (matches (by_device_id (dv_DeviceId v))) (contents (as_db s) ''devices'')) \<le> 1"
    using assms(2) unfolding one_each_def by blast
  then have "filter_mset (matches (by_device_id (dv_DeviceId v))) (contents (as_db s) ''devices'' - {#e#}) = {#}"
    by (rule filter_remove_only [OF _ e(1)]) (rule by_device_id [OF e(2)])
  then have "filter_mset (matches (by_device (dv_ProductId v) (dv_DeviceId v))) (contents (as_db s) ''devices'' - {#e#}) = {#}"
    by (rule filter_mset_weaken) (rule by_device_id)
  then have "filter_mset (matches (by_device (dv_ProductId v) (dv_DeviceId v))) (contents (as_db t) ''devices'') = {#enc_device v#}"
    by (simp only: e(3) fun_upd_same filter_mset_add_mset device_matches simp_thms if_True)
  from find_one_unique [OF assms(1), OF this] show ?thesis
    using v by (simp only: GetDevice_def get_one_def outcome.case dec_enc_device) simp
qed

text \<open>An updated product is lost to its tenant: after a successful update the product is in the list of no tenant, because the update
  writes the product without the tenant it belongs to.\<close>

theorem updated_product_lost:
  assumes "store_laws (ad_store d) contents uniq" "bd_update (rq_bind rq) = Some req"
    "size (filter_mset (matches (by_product (pu_ProductId req))) (contents (as_db s) ''products'')) \<le> 1"
    "api_UpdateProduct d rq s = (Ok (Resp OK RNone), t)" "rq_access rq' = Some accessId" "accessId \<noteq> []"
    "GetProductList d rq' t = (Ok (Resp OK (RProducts ps)), u)"
  shows "pu_ProductId req \<notin> fst ` set ps"
proof
  assume "pu_ProductId req \<in> fst ` set ps"
  let ?i = "pu_ProductId req"
  obtain p where upd: "UpdateProduct (ad_store d) p (as_db s) = (Ok (), as_db t)" and p: "pr_TenantId p = []" "pr_ProductId p = ?i" and i: "?i \<noteq> []"
    using assms(2,4)
    by (auto simp: api_UpdateProduct_def reply_def retM_def OK_def BadRequest_def ServerError_def seqM_def time_Now_def with_write_def Let_def
      asyncProduceMessage_def split: if_splits prod.splits outcome.splits)
  obtain e where e: "e \<in># contents (as_db s) ''products''" "matches (by_product ?i) e"
    "contents (as_db t) = (contents (as_db s))(''products'' := add_mset (enc_product p) (contents (as_db s) ''products'' - {#e#}))"
    using update_replaces [OF assms(1) upd [unfolded UpdateProduct_def]] p(2) by auto
  have none: "filter_mset (matches (by_product ?i)) (contents (as_db s) ''products'' - {#e#}) = {#}"
    by (rule filter_remove_only [OF assms(3) e(1,2)])
  obtain ds where ds: "st_find (ad_store d) ''products'' (by_tenant accessId) (Some ''ProductId'') (as_db t) = Ok ds"
    "mset ds = filter_mset (matches (by_tenant accessId)) (contents (as_db t) ''products'')"
    using assms(1) unfolding store_laws_def find_law_def by blast
  have "ps = map (\<lambda>p. (pr_ProductId p, pr_ProductName p)) (map dec_product ds)"
    using assms(5,7) ds(1) by (simp add: GetProductList_def getAccessId_def seqM_def retM_def with_read_def GetProducts_def get_all_def reply_def)
  then obtain x where x: "x \<in> set ds" "b_str ''ProductId'' x = ?i"
    using \<open>?i \<in> fst ` set ps\<close> by (auto simp: dec_product_def)
  have "x \<in># mset ds" using x(1) by simp
  then have "x \<in># contents (as_db t) ''products''" "matches (by_tenant accessId) x" unfolding ds(2) by simp_all
  moreover have "\<not> matches (by_tenant accessId) (enc_product p)"
    using assms(6) p(1) by (simp add: by_tenant_def enc_product_def)
  ultimately have "x \<in># contents (as_db s) ''products'' - {#e#}" using e(3) by auto
  moreover have "matches (by_product ?i) x"
    using x(2) i by (auto simp: by_product_def b_str_def split: option.splits bson.splits)
  ultimately show False using none unfolding filter_mset_none by blast
qed

text \<open>A message that the cloud sends to a device does not get there: the event it is sent as carries no type, and every broker that
  receives it refuses it.\<close>

lemma device_message_refused:
  assumes "device_message d req = MBroker b" "bm_EventType m = mb_EventType b"
  shows "\<exists>e. Decode m = Err e"
  using assms by (auto simp: device_message_def Decode_def)

subsection \<open>Instances\<close>

definition no_binding :: binding where
  "no_binding = \<lparr>bd_device = None, bd_bulk = None, bd_props = None, bd_create = None, bd_update = None, bd_register = None, bd_tenant = None,
     bd_rule = None, bd_flavor = None, bd_message = None\<rparr>"

definition sample_request :: "binding \<Rightarrow> (string \<times> string) list \<Rightarrow> string option \<Rightarrow> request" where
  "sample_request b params access = \<lparr>rq_param = (\<lambda>k. case map_of params k of None \<Rightarrow> [] | Some v \<Rightarrow> v), rq_query = (\<lambda>_. []),
     rq_access = access, rq_bind = b\<rparr>"

definition api_config :: config where
  "api_config = AddConfigItem ''mongo'' (Some (CStr ''localhost:27017'')) (newConfig ''apiserver'')"

definition api_sample :: "(string \<Rightarrow> document list, (string \<times> json) list) api_deps" where
  "api_sample = \<lparr>ad_config = api_config, ad_store = list_store no_index, ad_dial = (\<lambda>_. True), ad_kafka = list_kafka,
     ad_uuid = (\<lambda>n. replicate (Suc n) CHR ''u''), ad_now = (\<lambda>_. 0), ad_sign = (\<lambda>i. i), ad_parse = (\<lambda>_. Some (JObj [])),
     ad_text = (\<lambda>_. ''{}''), ad_bytes = (\<lambda>_. [0]), ad_iter = (\<lambda>ks. ks)\<rparr>"

definition state_of :: "(string \<Rightarrow> document list) \<Rightarrow> (string \<Rightarrow> document list, (string \<times> json) list, unit, unit) api_state" where
  "state_of db = \<lparr>as_db = db, as_kafka = [], as_security = newDefaultSecurityManager [] NewLocalAdaptor () (), as_tick = 0\<rparr>"

lemma api_config_items:
  "cfg_String ''kafka'' api_config = Err (BadValue ''kafka'')" "MustString ''mongo'' api_config = Ok ''localhost:27017''"
  "cfg_String ''auth'' api_config = Err (BadValue ''auth'')"
  by (simp_all add: api_config_def cfg_String_def MustString_def MustStringWithSection_def must_def StringWithSection_def
    AddConfigItem_def AddConfigItemWithSection_def Let_def newConfig_def make_section_def put_item_def checkItemExist_def section_of_def)

lemma post_nothing: "asyncProduceMessage api_sample m s = (Ok (), s)"
  by (simp add: asyncProduceMessage_def PostMessage_def newKafkaProducer_def api_sample_def api_config_items)

definition device_body :: deviceRequest where
  "device_body = \<lparr>dr_DeviceName = ''lamp'', dr_ProductId = ''p1'', dr_DeviceId = ''d1''\<rparr>"

definition p1d1 :: "(string \<times> string) list" where "p1d1 = [(''productId'', ''p1''), (''deviceId'', ''d1''), (''deviceName'', ''lamp'')]"

theorem created_device_is_served_witness:
  "\<exists>v t. CreateDevice api_sample (sample_request (no_binding\<lparr>bd_device := Some device_body\<rparr>) p1d1 None) (state_of (\<lambda>_. [])) =
       (Ok (Resp OK (RDevice v)), t) \<and> dv_DeviceSecret v = ''uuuu'' \<and>
     GetOneDevice api_sample (sample_request no_binding [(''productId'', ''p1''), (''deviceId'', ''u'')] None) t = (Ok (Resp OK (RDevice v)), t)"
proof -
  let ?v = "\<lparr>dv_ProductId = ''p1'', dv_DeviceId = ''u'', dv_DeviceName = ''lamp'', dv_DeviceStatus = [], dv_DeviceSecret = ''uuuu'', dv_Props = [],
    dv_TimeCreated = 0, dv_TimeUpdated = 0\<rparr>"
  let ?t = "(state_of ((\<lambda>_. [])(''devices'' := [enc_device ?v])))\<lparr>as_tick := 4\<rparr>"
  have made: "CreateDevice api_sample (sample_request (no_binding\<lparr>bd_device := Some device_body\<rparr>) p1d1 None) (state_of (\<lambda>_. [])) = (Ok (Resp OK (RDevice ?v)), ?t)"
    by (simp add: CreateDevice_def api_sample_def sample_request_def no_binding_def device_body_def p1d1_def seqM_def NewObjectId_def time_Now_def
      with_write_def RegisterDevice_def insert_new_def find_one_def list_store_def state_of_def reply_def retM_def numeral_eq_Suc Let_def)
  have laws: "store_laws (ad_store api_sample) list_contents no_index" by (simp add: api_sample_def list_store_laws)
  note served = created_device_is_served [OF laws, OF made, of "sample_request no_binding [(''productId'', ''p1''), (''deviceId'', ''u'')] None"]
  have "GetOneDevice api_sample (sample_request no_binding [(''productId'', ''p1''), (''deviceId'', ''u'')] None) ?t = (Ok (Resp OK (RDevice ?v)), ?t)"
    using served by (simp add: sample_request_def to_millis_def millis_def)
  with made show ?thesis by (intro exI [of _ ?v] exI [of _ ?t]) simp
qed

lemma one_device_each: "one_each list_contents one_device" "device_documents list_contents one_device"
  by (auto simp: one_each_def device_documents_def list_contents_def one_device_def)

lemma api_laws: "store_laws (ad_store api_sample) list_contents no_index"
  by (simp add: api_sample_def list_store_laws)

lemmas answers = api_sample_def sample_request_def no_binding_def p1d1_def device_body_def with_write_def with_read_def reply_def retM_def
  state_of_def Let_def

lemmas run_api = api_sample_def sample_request_def no_binding_def p1d1_def device_body_def seqM_def NewObjectId_def time_Now_def with_write_def
  with_read_def reply_def retM_def list_store_def state_of_def Let_def no_index_def same_key_def

theorem props_by_name_unchanged_witness:
  "\<exists>vs t. RemoveDevicePropsByName api_sample (sample_request no_binding p1d1 None) (state_of one_device) = (Ok (Resp OK (RDevices vs)), t) \<and>
     list_contents (as_db t) = list_contents one_device"
proof -
  obtain r t where run: "RemoveDevicePropsByName api_sample (sample_request no_binding p1d1 None) (state_of one_device) = (r, t)" by fastforce
  then have "\<exists>vs. r = Ok (Resp OK (RDevices vs))"
    using bulk_update_ok [of "list_store no_index"]
    by (auto simp: RemoveDevicePropsByName_def name_params_def answers GetDevicesByName_def get_all_def list_store_def [THEN arg_cong, of st_find]
      split: prod.splits outcome.splits)
      (metis fst_conv outcome.distinct)+
  moreover have "list_contents (as_db t) = list_contents (as_db (state_of one_device))"
    by (rule props_by_name_unchanged [OF api_laws, OF _ _ disjI2, OF _ _ run]) (simp_all add: state_of_def one_device_each)
  ultimately show ?thesis using run by (auto simp: state_of_def)
qed

theorem update_erases_secret_witness:
  "\<exists>t w. api_UpdateDevice api_sample (sample_request (no_binding\<lparr>bd_device := Some device_body\<rparr>) p1d1 None) (state_of one_device) =
       (Ok (Resp OK (RDevice w)), t) \<and> dv_DeviceSecret sample_device = ''s'' \<and>
     (\<exists>w. GetDevice (list_store no_index) ''p1'' ''d1'' (as_db t) = Ok w \<and> dv_DeviceSecret w = [])"
proof -
  let ?w = "\<lparr>dv_ProductId = ''p1'', dv_DeviceId = ''d1'', dv_DeviceName = ''lamp'', dv_DeviceStatus = [], dv_DeviceSecret = [], dv_Props = [],
    dv_TimeCreated = zero_time, dv_TimeUpdated = 0\<rparr>"
  obtain t where run: "api_UpdateDevice api_sample (sample_request (no_binding\<lparr>bd_device := Some device_body\<rparr>) p1d1 None) (state_of one_device) =
       (Ok (Resp OK (RDevice ?w)), t)"
    by (simp add: api_UpdateDevice_def run_api UpdateDevice_def one_device_def device_matches sample_device_def)
  have each: "one_each list_contents (as_db (state_of one_device))" by (simp add: state_of_def one_device_each)
  have "\<exists>w. GetDevice (ad_store api_sample) ''p1'' ''d1'' (as_db t) = Ok w \<and> dv_DeviceSecret w = []"
    using update_erases_secret [OF api_laws, OF each, OF run] by auto
  with run show ?thesis by (auto simp: api_sample_def sample_device_def)
qed

definition lamp_product :: Product where
  "lamp_product = \<lparr>pr_TenantId = ''t1'', pr_ProductId = ''p1'', pr_ProductName = ''lamps'', pr_Description = [], pr_TimeCreated = 0,
     pr_TimeUpdated = 0, pr_Category = [], pr_TopicFlavor = []\<rparr>"

definition product_body :: productUpdateRequest where
  "product_body = \<lparr>pu_ProductId = ''p1'', pu_ProductName = ''lights'', pu_Category = [], pu_Description = []\<rparr>"

definition one_product :: "string \<Rightarrow> document list" where
  "one_product = (\<lambda>_. [])(''products'' := [enc_product lamp_product])"

theorem updated_product_lost_witness:
  "\<exists>t u v ps. GetProductList api_sample (sample_request no_binding [] (Some ''t1'')) (state_of one_product) =
       (Ok (Resp OK (RProducts [(''p1'', ''lamps'')])), v) \<and>
     api_UpdateProduct api_sample (sample_request (no_binding\<lparr>bd_update := Some product_body\<rparr>) p1d1 None) (state_of one_product) =
       (Ok (Resp OK RNone), t) \<and>
     GetProductList api_sample (sample_request no_binding [] (Some ''t1'')) t = (Ok (Resp OK (RProducts ps)), u) \<and> ''p1'' \<notin> fst ` set ps"
proof -
  let ?rq = "sample_request (no_binding\<lparr>bd_update := Some product_body\<rparr>) p1d1 None"
  let ?ls = "sample_request no_binding [] (Some ''t1'')"
  have first: "\<exists>v. GetProductList api_sample ?ls (state_of one_product) = (Ok (Resp OK (RProducts [(''p1'', ''lamps'')])), v)"
    by (simp add: GetProductList_def getAccessId_def run_api GetProducts_def get_all_def one_product_def lamp_product_def enc_product_def
      by_tenant_def dec_product_def b_str_def b_time_def b_doc_def)
  obtain t where upd: "api_UpdateProduct api_sample ?rq (state_of one_product) = (Ok (Resp OK RNone), t)"
    by (simp add: api_UpdateProduct_def run_api UpdateProduct_def one_product_def lamp_product_def product_body_def enc_product_def by_product_def
      asyncProduceMessage_def PostMessage_def newKafkaProducer_def api_config_items)
  have "\<exists>ps u. GetProductList api_sample ?ls t = (Ok (Resp OK (RProducts ps)), u)"
    by (simp add: GetProductList_def getAccessId_def run_api GetProducts_def get_all_def)
  then obtain ps u where lst: "GetProductList api_sample ?ls t = (Ok (Resp OK (RProducts ps)), u)" by blast
  have small: "size (filter_mset (matches (by_product (pu_ProductId product_body))) (list_contents (as_db (state_of one_product)) ''products'')) \<le> 1"
    by (simp add: list_contents_def state_of_def one_product_def)
  have bound: "bd_update (rq_bind ?rq) = Some product_body" "rq_access ?ls = Some ''t1''" by (simp_all add: sample_request_def)
  have "pu_ProductId product_body \<notin> fst ` set ps"
    by (rule updated_product_lost [OF api_laws, OF bound(1), OF small, OF upd, OF bound(2) _ lst]) simp
  with first upd lst show ?thesis by (auto simp: product_body_def)
qed

end
