(* ===== verification/Api_Console.thy ===== *)
theory Api_Console
  imports Api_Server
begin

text \<open>
  The two services of the API server (\<^verbatim>\<open>src/apiserver/console\<close> and \<^verbatim>\<open>management\<close>): the routes, the resources that the paths of
  the routes stand for, and the middleware that authenticates and authorizes a request before its handler runs. The router of the web
  framework is a parameter: a call is given the route that was found. So is the validation of the bearer's token, whose result
  is the access identifier it carries.
\<close>

subsection \<open>Handlers and routes\<close>

datatype api_handler =
  H_CreateDevice | H_RemoveDevice | H_GetOneDevice | H_UpdateDevice | H_BulkApplyDevices
  | H_BulkApplyGetStatus | H_BulkApplyGetDevices | H_GetDeviceList | H_BulkGetDeviceStatus | H_GetDeviceByName
  | H_SaveDeviceProps | H_SaveDevicePropsByName | H_GetDeviceProps | H_GetDevicePropsByName | H_RemoveDevicePropsByName
  | H_BulkRegisterDevices | H_GetShadowDevice | H_UpdateShadowDevice | H_CreateProduct | H_RemoveProduct
  | H_UpdateProduct | H_GetProductList | H_GetProduct | H_GetProductDevices | H_RegisterTenant
  | H_LoginTenant | H_LogoutTenant | H_DeleteTenant | H_GetTenant | H_UpdateTenant
  | H_GetTenantProductList | H_CreateRule | H_RemoveRule | H_UpdateRule | H_StartRule
  | H_StopRule | H_GetRule | H_GetProductRules | H_CreateTopicFlavor | H_GetBuiltinTopicFlavors
  | H_GetProductTopicFlavors | H_GetTenantTopicFlavors | H_RemoveProductTopicFlavor | H_SetProductTopicFlavor | H_SendMessageToDevice
  | H_BroadcastProductMessage | H_GetDeviceStatics | H_GetServiceStatics

fun run_handler :: "api_handler \<Rightarrow> ('db, 'k) api_deps \<Rightarrow> request \<Rightarrow> ('db, 'k, 'rc, 'pc, apiResponse) api" where
  "run_handler H_CreateDevice d rq = CreateDevice d rq"
| "run_handler H_RemoveDevice d rq = RemoveDevice d rq"
| "run_handler H_GetOneDevice d rq = GetOneDevice d rq"
| "run_handler H_UpdateDevice d rq = api_UpdateDevice d rq"
| "run_handler H_BulkApplyDevices d rq = BulkApplyDevices d rq"
| "run_handler H_BulkApplyGetStatus d rq = BulkApplyGetStatus d rq"
| "run_handler H_BulkApplyGetDevices d rq = BulkApplyGetDevices d rq"
| "run_handler H_GetDeviceList d rq = api_GetDeviceList d rq"
| "run_handler H_BulkGetDeviceStatus d rq = BulkGetDeviceStatus d rq"
| "run_handler H_GetDeviceByName d rq = api_GetDeviceByName d rq"
| "run_handler H_SaveDeviceProps d rq = SaveDeviceProps d rq"
| "run_handler H_SaveDevicePropsByName d rq = SaveDevicePropsByName d rq"
| "run_handler H_GetDeviceProps d rq = GetDeviceProps d rq"
| "run_handler H_GetDevicePropsByName d rq = GetDevicePropsByName d rq"
| "run_handler H_RemoveDevicePropsByName d rq = RemoveDevicePropsByName d rq"
| "run_handler H_BulkRegisterDevices d rq = api_BulkRegisterDevices d rq"
| "run_handler H_GetShadowDevice d rq = api_GetShadowDevice d rq"
| "run_handler H_UpdateShadowDevice d rq = UpdateShadowDevice d rq"
| "run_handler H_CreateProduct d rq = CreateProduct d rq"
| "run_handler H_RemoveProduct d rq = RemoveProduct d rq"
| "run_handler H_UpdateProduct d rq = api_UpdateProduct d rq"
| "run_handler H_GetProductList d rq = GetProductList d rq"
| "run_handler H_GetProduct d rq = api_GetProduct d rq"
| "run_handler H_GetProductDevices d rq = api_GetProductDevices d rq"
| "run_handler H_RegisterTenant d rq = api_RegisterTenant d rq"
| "run_handler H_LoginTenant d rq = LoginTenant d rq"
| "run_handler H_LogoutTenant d rq = LogoutTenant"
| "run_handler H_DeleteTenant d rq = api_DeleteTenant d rq"
| "run_handler H_GetTenant d rq = api_GetTenant d rq"
| "run_handler H_UpdateTenant d rq = api_UpdateTenant d rq"
| "run_handler H_GetTenantProductList d rq = GetTenantProductList"
| "run_handler H_CreateRule d rq = CreateRule d rq"
| "run_handler H_RemoveRule d rq = api_RemoveRule d rq"
| "run_handler H_UpdateRule d rq = api_UpdateRule d rq"
| "run_handler H_StartRule d rq = StartRule d rq"
| "run_handler H_StopRule d rq = StopRule d rq"
| "run_handler H_GetRule d rq = api_GetRule d rq"
| "run_handler H_GetProductRules d rq = GetProductRules d rq"
| "run_handler H_CreateTopicFlavor d rq = api_CreateTopicFlavor d rq"
| "run_handler H_GetBuiltinTopicFlavors d rq = api_GetBuiltinTopicFlavors d"
| "run_handler H_GetProductTopicFlavors d rq = api_GetProductTopicFlavors d rq"
| "run_handler H_GetTenantTopicFlavors d rq = api_GetTenantTopicFlavors d rq"
| "run_handler H_RemoveProductTopicFlavor d rq = RemoveProductTopicFlavor d rq"
| "run_handler H_SetProductTopicFlavor d rq = SetProductTopicFlavor d rq"
| "run_handler H_SendMessageToDevice d rq = SendMessageToDevice d rq"
| "run_handler H_BroadcastProductMessage d rq = BroadcastProductMessage"
| "run_handler H_GetDeviceStatics d rq = GetDeviceStatics"
| "run_handler H_GetServiceStatics d rq = GetServiceStatics"

type_synonym route = "string \<times> string \<times> api_handler"

text \<open>The routes outside the group, and those of the group of the console, with the prefix of the group.\<close>

definition console_open_routes :: "route list" where
  "console_open_routes = [
     (''POST'', ''/iot/api/v1/console/tenants'', H_RegisterTenant),
     (''POST'', ''/iot/api/v1/console/tenants/login'', H_LoginTenant)]"

definition console_routes :: "route list" where
  "console_routes = [
     (''POST'', ''/iot/api/v1/console/tenants/logout'', H_LogoutTenant),
     (''DELETE'', ''/iot/api/v1/console/tenants/:tenantId'', H_DeleteTenant),
     (''GET'', ''/iot/api/v1/console/tenants/:tenantId'', H_GetTenant),
     (''PATCH'', ''/iot/api/v1/console/tenants'', H_UpdateTenant),
     (''POST'', ''/iot/api/v1/console/products'', H_CreateProduct),
     (''DELETE'', ''/iot/api/v1/console/products/:productId'', H_RemoveProduct),
     (''PATCH'', ''/iot/api/v1/console/products/:productId'', H_UpdateProduct),
     (''GET'', ''/iot/api/v1/console/products'', H_GetProductList),
     (''GET'', ''/iot/api/v1/console/products/:productId'', H_GetProduct),
     (''GET'', ''/iot/api/v1/console/products/:productId/devices'', H_GetProductDevices),
     (''GET'', ''/iot/api/v1/console/products/:productId/rules'', H_GetProductRules),
     (''GET'', ''/iot/api/v1/console/products/:productId/devices/statics'', H_GetDeviceStatics),
     (''POST'', ''/iot/api/v1/console/products/:productId/devices'', H_CreateDevice),
     (''GET'', ''/iot/api/v1/console/products/:productId/devices/:deviceId'', H_GetOneDevice),
     (''DELETE'', ''/iot/api/v1/console/products/:productId/devices/:deviceId'', H_RemoveDevice),
     (''PATCH'', ''/iot/api/v1/console/products/:productId/devices/:deviceId'', H_UpdateDevice),
     (''POST'', ''/iot/api/v1/console/products/:productId/devices/bulk'', H_BulkRegisterDevices),
     (''POST'', ''/iot/api/v1/console/products/:productId/devices/:deviceId/props'', H_SaveDeviceProps),
     (''GET'', ''/iot/api/v1/console/products/:productId/devices/:deviceId/shardow'', H_GetShadowDevice),
     (''PATCH'', ''/iot/api/v1/console/products/:productId/devices/:deviceId/shadow'', H_UpdateShadowDevice),
     (''POST'', ''/iot/api/v1/console/products/:productId/rules/:ruleName'', H_CreateRule),
     (''DELETE'', ''/iot/api/v1/console/products/:productId/rules/:ruleName'', H_RemoveRule),
     (''PATCH'', ''/iot/api/v1/console/products/:productId/rules/:ruleName'', H_UpdateRule),
     (''PUT'', ''/iot/api/v1/console/products/:productId/rules/:ruleName?action=start'', H_StartRule),
     (''PUT'', ''/iot/api/v1/console/products/:productId/rules/:ruleName?action=stop'', H_StopRule),
     (''GET'', ''/iot/api/v1/console/products/:productId/rules/:ruleName'', H_GetRule),
     (''POST'', ''/iot/api/v1/console/topicflavors'', H_CreateTopicFlavor),
     (''DELETE'', ''/iot/api/v1/console/topicflavors/products/:productId'', H_RemoveProductTopicFlavor),
     (''GET'', ''/iot/api/v1/console/topicflavors/products/:productId'', H_GetProductTopicFlavors),
     (''GET'', ''/iot/api/v1/console/topicflavors/tenants/:tenantId'', H_GetTenantTopicFlavors),
     (''GET'', ''/iot/api/v1/consoletopicflavors/builtin'', H_GetBuiltinTopicFlavors),
     (''PUT'', ''/iot/api/v1/console/topicflavors/:productId?flavor=:topicflavor'', H_SetProductTopicFlavor),
     (''POST'', ''/iot/api/v1/console/products/:productId/devices/:deviceId/message'', H_SendMessageToDevice),
     (''POST'', ''/iot/api/v1/console/products/:productId/message?scope=broadcast'', H_BroadcastProductMessage),
     (''GET'', ''/iot/api/v1/console/service'', H_GetServiceStatics)]"

definition management_routes :: "route list" where
  "management_routes = [
     (''POST'', ''/iot/api/v1/products'', H_CreateProduct),
     (''PATCH'', ''/iot/api/v1/products/:productId'', H_UpdateProduct),
     (''GET'', ''/iot/api/v1/products/:productId/devices'', H_GetProductDevices),
     (''POST'', ''/iot/api/v1/products/:productId/devices'', H_CreateDevice),
     (''POST'', ''/iot/api/v1/prodcuts/:productId/devices/bulk'', H_BulkApplyDevices),
     (''GET'', ''/iot/api/v1/products/:productId/devices/bulk/:deviceId'', H_BulkApplyGetStatus),
     (''GET'', ''/iot/api/v1/products/:productId/devices/bulk'', H_BulkApplyGetDevices),
     (''GET'', ''/iot/api/v1/products/:productId/devices/bulk/status'', H_BulkGetDeviceStatus),
     (''GET'', ''/iot/api/v1/products/:productId/devices'', H_GetDeviceList),
     (''GET'', ''/iot/api/v1/products/:productId/devices/:deviceName'', H_GetDeviceByName),
     (''POST'', ''/iot/api/v1/products/:productId/devices/:deviceName/props'', H_SaveDevicePropsByName),
     (''GET'', ''/iot/api/v1/products/:productId/devices/:deviceId/props/:props'', H_GetDevicePropsByName),
     (''DELETE'', ''/iot/api/v1/products/:productId/devices/:deviceId/props/:props'', H_RemoveDevicePropsByName),
     (''POST'', ''/iot/api/v1/message'', H_SendMessageToDevice),
     (''POST'', ''/iot/api/v1/message/broadcast'', H_BroadcastProductMessage),
     (''GET'', ''/iot/api/v1/products/:productId/devices/:deviceId/shardow'', H_GetShadowDevice),
     (''PATCH'', ''/iot/api/v1/products/:productId/devices/:deviceId/shadow'', H_UpdateShadowDevice)]"

subsection \<open>Resources\<close>

definition consoleApiPolicies :: "(string \<times> string) list" where
  "consoleApiPolicies = [
     (''/iot/api/v1/console/products'', ''/products''),
     (''/iot/api/v1/console/products/:productId'', ''/products/:productId''),
     (''/iot/api/v1/console/products'', ''/products''),
     (''/iot/api/v1/console/products'', ''/products''),
     (''/iot/api/v1/console/products/:productId'', ''/products/:productId''),
     (''/iot/api/v1/console/products/:productId/devices'', ''/products/:productId''),
     (''/iot/api/v1/console/products/:productId/rules'', ''/products/:productId/rules''),
     (''/iot/api/v1/console/products/:productId/devices/statics'', ''/products/:productId''),
     (''/iot/api/v1/console/products/:productId/devices'', ''/products/:productId''),
     (''/iot/api/v1/console/products/:productId/devices/:deviceId'', ''/products/:productId''),
     (''/iot/api/v1/console/products/:productId/devicds/:deviceId'', ''/products/:productId''),
     (''/iot/api/v1/console/products/:productId/devices'', ''/products/:productId''),
     (''/iot/api/v1/console/products/:productId/devices/bulk'', ''/products/:productId''),
     (''/iot/api/v1/console/products/:productId/devices/:deviceId/shadow'', ''/products/:productId''),
     (''/iot/api/v1/console/products/:productId/devices/:deviceId/shadow'', ''/products/:productId''),
     (''/iot/api/v1/console/products/:productId/rules'', ''/products/:productId''),
     (''/iot/api/v1/console/products/:productId/rules/:ruleName'', ''/products/:productId''),
     (''/iot/api/v1/console/products/:productId/rules'', ''/products/:productId''),
     (''/iot/api/v1/console/products/:productId/rules/:ruleName?action=stop'', ''/products/:productId''),
     (''/iot/api/v1/console/products/:productId/rules/:ruleName'', ''/products/:productId''),
     (''/iot/api/v1/console/topicflavors'', ''/topicflavors''),
     (''/iot/api/v1/console/topicflavors/products/:productId'', ''/products/:productId''),
     (''/iot/api/v1/console/topicflavors/products/:productId'', ''/products/:productId''),
     (''/iot/api/v1/console/topicflavors/tenants/:tenantId'', ''/topicflavors''),
     (''/iot/api/v1/console/topicflavors/builtin'', ''/topicflavors''),
     (''/iot/api/v1/console/topicflavors/:productId?flavor=:topicflavor'', ''/products/:productId''),
     (''/iot/api/v1/console/products/:productId/devices/:device/message'', ''/products/:productId''),
     (''/iot/api/v1/console/products/:productId/message?scope=broadcast'', ''/products/:productId''),
     (''/iot/api/v1/console/service'', ''/services'')]"

definition mngApiPolicies :: "(string \<times> string) list" where
  "mngApiPolicies = [
     (''/iot/api/v1/products'', ''/products''),
     (''/iot/api/v1/products/:productId'', ''/products''),
     (''/iot/api/v1/products/:productId/devices'', ''/products/:productId''),
     (''/iot/api/v1/products/:productId/devices'', ''/products/:productId''),
     (''/iot/api/v1/products/:productId/devices/bulk'', ''/products/:productId''),
     (''/iot/api/v1/products/:productId/devices/bulk/:deviceId'', ''/products/:productId''),
     (''/iot/api/v1/products/:productId/devices/bulk'', ''/products/:productId''),
     (''/iot/api/v1/products/:productId/devices/bulk/status'', ''/products/:productId''),
     (''/iot/api/v1/products/:productId/devices'', ''/products/:productId''),
     (''/iot/api/v1/products/:productId/devices/:deviceName'', ''/products/:productId''),
     (''/iot/api/v1/products/:productId/devics/:deviceId/props'', ''/products/:productId''),
     (''/iot/api/v1/products/:productId/devics/:deviceId/props'', ''/products/:productId''),
     (''/iot/api/v1/products/:productId/devics/:deviceId/props'', ''/products/:productId''),
     (''/iot/api/v1/products/:productId/devices/:deviceId/shadow'', ''/products/:productId''),
     (''/iot/api/v1/products/:productId/devices/:deviceId/shadow'', ''/products/:productId''),
     (''/iot/api/v1/message'', ''/products/:productId''),
     (''/iot/api/v1/message/broadcast'', ''/products/:productId'')]"

definition resourceMaps :: "(string \<times> string) list \<Rightarrow> string \<rightharpoonup> string" where
  "resourceMaps policies = fold (\<lambda>(path, resource) m. m(path \<mapsto> resource)) policies Map.empty"

text \<open>Of the values in the context only the access identifier is a string.\<close>

definition ctx_string :: "request \<Rightarrow> string \<Rightarrow> string option" where
  "ctx_string rq key = (if key = ''AccessId'' then rq_access rq else None)"

fun resource_of :: "request \<Rightarrow> string list \<Rightarrow> string \<Rightarrow> (api_error, string) outcome" where
  "resource_of rq [] resource = Ok resource"
| "resource_of rq (item # items) resource =
     (if item = [] then resource_of rq items resource
      else if hd item = CHR ''$''
      then (case ctx_string rq (tl item) of
          None \<Rightarrow> Panic
        | Some val \<Rightarrow> resource_of rq items (resource @ val @ ''/''))
      else if hd item = CHR '':'' then resource_of rq items (resource @ rq_param rq (tl item) @ ''/'')
      else resource_of rq items resource)"

definition request_action :: "string \<Rightarrow> string" where
  "request_action verb = (if verb = ''GET'' then ''read'' else ''write'')"

definition GetRequestInfo :: "(string \<rightharpoonup> string) \<Rightarrow> string \<Rightarrow> string \<Rightarrow> request \<Rightarrow> (api_error, string \<times> string) outcome" where
  "GetRequestInfo maps verb path rq = (case maps path of
      Some resourceName \<Rightarrow>
        (case resource_of rq (split_on (CHR ''/'') resourceName) ''/'' of
           Ok resource \<Rightarrow> Ok (resource, request_action verb)
         | Err e \<Rightarrow> Err e
         | Panic \<Rightarrow> Panic)
    | None \<Rightarrow> Ok ([], request_action verb))"

subsection \<open>Middleware\<close>

definition StringConfigWithDefaultValue :: "config \<Rightarrow> string \<Rightarrow> string \<Rightarrow> string" where
  "StringConfigWithDefaultValue c key defaultValue = (case cfg_String key c of Ok val \<Rightarrow> val | _ \<Rightarrow> defaultValue)"

text \<open>The item that is not there is the empty string.\<close>

definition AuthNeed :: "config \<Rightarrow> bool" where
  "AuthNeed c = (let r = cfg_String ''auth'' c; auth = (case r of Ok a \<Rightarrow> a | _ \<Rightarrow> []) in
     (case r of Ok _ \<Rightarrow> True | _ \<Rightarrow> auth \<noteq> ''none''))"

definition RegistryWithConfig :: "('db, 'k) api_deps \<Rightarrow> ('db, 'k, 'rc, 'pc, apiResponse) api \<Rightarrow> ('db, 'k, 'rc, 'pc, apiResponse) api" where
  "RegistryWithConfig d next s = (case registry_New (ad_dial d) (ad_config d) of
      Ok _ \<Rightarrow> next s
    | Err _ \<Rightarrow> (Ok (Resp ServerError RNone), s)
    | Panic \<Rightarrow> (Panic, s))"

definition console_authorize ::
  "('db, 'k) api_deps \<Rightarrow> string \<Rightarrow> string \<Rightarrow> request \<Rightarrow> ('db, 'k, 'rc, 'pc, apiResponse) api \<Rightarrow> ('db, 'k, 'rc, 'pc, apiResponse) api" where
  "console_authorize d verb path rq next s = (case rq_access rq of
      None \<Rightarrow> (Panic, s)
    | Some accessId \<Rightarrow>
        (case GetRequestInfo (resourceMaps consoleApiPolicies) verb path rq of
           Ok (resource, action) \<Rightarrow>
             (case AuthorizeWithToken (ad_iter d) \<lparr>tk_kind = JWTToken, tk_Principal = accessId, tk_Crenditals = Some [],
                  tk_Authenticated = True\<rparr> resource action (security_now d s) of
                Ok _ \<Rightarrow> next s
              | Err _ \<Rightarrow> (Err ENotAuthorized, s)
              | Panic \<Rightarrow> (Panic, s))
         | Err e \<Rightarrow> (Err e, s)
         | Panic \<Rightarrow> (Panic, s)))"

text \<open>\<^verbatim>\<open>setAuth\<close> of the console: \<open>claims\<close> is what the validation of the token gives.\<close>

definition console_auth ::
  "('db, 'k) api_deps \<Rightarrow> string option \<Rightarrow> route \<Rightarrow> request \<Rightarrow> ('db, 'k, 'rc, 'pc, apiResponse) api" where
  "console_auth d claims route rq = (case route of (verb, path, h) \<Rightarrow>
     if StringConfigWithDefaultValue (ad_config d) ''auth'' ''jwt'' = ''jwt''
     then (case claims of
         None \<Rightarrow> errM ENotAuthenticated
       | Some accessId \<Rightarrow> (let rq' = rq\<lparr>rq_access := Some accessId\<rparr> in
           if AuthNeed (ad_config d) then console_authorize d verb path rq' (run_handler h d rq') else run_handler h d rq'))
     else run_handler h d (rq\<lparr>rq_access := None\<rparr>))"

definition console_call :: "('db, 'k) api_deps \<Rightarrow> string option \<Rightarrow> route \<Rightarrow> request \<Rightarrow> ('db, 'k, 'rc, 'pc, apiResponse) api" where
  "console_call d claims route rq =
     (if route \<in> set console_open_routes
      then RegistryWithConfig d (run_handler (snd (snd route)) d (rq\<lparr>rq_access := None\<rparr>))
      else if route \<in> set console_routes then RegistryWithConfig d (console_auth d claims route rq)
      else errM ENoRoute)"

text \<open>A request token carries the access identifier that the framework bound, and no credentials.\<close>

definition management_authorize ::
  "Principal \<Rightarrow> string \<Rightarrow> string \<Rightarrow> request \<Rightarrow> ('db, 'k, 'rc, 'pc, apiResponse) api \<Rightarrow> ('db, 'k, 'rc, 'pc, apiResponse) api" where
  "management_authorize p verb path rq next s = (case GetRequestInfo (resourceMaps mngApiPolicies) verb path rq of
      Ok (resource, action) \<Rightarrow>
        (case Authorize (Some p) resource action (as_security s) of
           Ok _ \<Rightarrow> next s
         | Err _ \<Rightarrow> (Err ENotAuthorized, s)
         | Panic \<Rightarrow> (Panic, s))
    | Err e \<Rightarrow> (Err e, s)
    | Panic \<Rightarrow> (Panic, s))"

definition management_authenticate ::
  "('db, 'k) api_deps \<Rightarrow> string \<Rightarrow> request \<Rightarrow> (Principal \<Rightarrow> request \<Rightarrow> ('db, 'k, 'rc, 'pc, apiResponse) api) \<Rightarrow> ('db, 'k, 'rc, 'pc, apiResponse) api" where
  "management_authenticate d accessId rq next s =
     (case Login (ad_iter d) \<lparr>tk_kind = RequestToken, tk_Principal = accessId, tk_Crenditals = None, tk_Authenticated = False\<rparr> (security_now d s) of
        Ok p \<Rightarrow> next p (rq\<lparr>rq_access := Some accessId\<rparr>) s
      | Err _ \<Rightarrow> (Err ENotAuthenticated, s)
      | Panic \<Rightarrow> (Panic, s))"

definition management_call :: "('db, 'k) api_deps \<Rightarrow> string \<Rightarrow> route \<Rightarrow> request \<Rightarrow> ('db, 'k, 'rc, 'pc, apiResponse) api" where
  "management_call d accessId route rq = (case route of (verb, path, h) \<Rightarrow>
     if route \<in> set management_routes
     then RegistryWithConfig d
       (if AuthNeed (ad_config d)
        then management_authenticate d accessId rq (\<lambda>p rq'. management_authorize p verb path rq' (run_handler h d rq'))
        else run_handler h d (rq\<lparr>rq_access := None\<rparr>))
     else errM ENoRoute)"

subsection \<open>Permissions that imply nothing\<close>

text \<open>The actions of the permissions that the handlers add are \<^verbatim>\<open>w\<close> and \<^verbatim>\<open>rw\<close>, those of a request \<^verbatim>\<open>read\<close> and \<^verbatim>\<open>write\<close>.\<close>

definition mute :: "Permission \<Rightarrow> bool" where
  "mute p \<longleftrightarrow> pm_Actions p = ''w'' \<or> pm_Actions p = ''rw''"

definition all_mute :: "localAdaptor \<Rightarrow> bool" where
  "all_mute l \<longleftrightarrow> (\<forall>i p. la_permissions l i = Some p \<longrightarrow> mute p)"

lemma mute_implies_nothing: "mute p \<Longrightarrow> \<not> Implies p resource (request_action verb)"
proof -
  have "split_on CHR '','' ''w'' = [''w'']" "split_on CHR '','' ''rw'' = [''rw'']" by simp_all
  then show "mute p \<Longrightarrow> \<not> Implies p resource (request_action verb)"
    by (auto simp: mute_def Implies_def request_action_def list_ex_iff)
qed

lemma all_mute_update [simp]: "all_mute (l\<lparr>la_principalPermissions := f\<rparr>) \<longleftrightarrow> all_mute l"
  by (simp add: all_mute_def)

lemma add_permission_mute:
  assumes "add_permission p l = (i, l1)" "all_mute l" "mute p"
  shows "all_mute l1"
proof -
  have "mute (p\<lparr>pm_PermissionId := j\<rparr>)" for j using assms(3) by (simp add: mute_def)
  then show ?thesis using assms by (auto simp: all_mute_def add_permission_def Let_def split: if_splits)
qed

lemma AddPermissions_mute:
  "la_AddPermissions ps l = (ids, l') \<Longrightarrow> all_mute l \<Longrightarrow> list_all mute ps \<Longrightarrow> all_mute l'"
proof (induction ps arbitrary: l ids)
  case (Cons p ps)
  obtain i l1 where l1: "add_permission p l = (i, l1)" by fastforce
  then have "all_mute l1" using Cons.prems by (auto intro: add_permission_mute)
  then show ?case using Cons l1 by (auto split: prod.splits)
qed simp

lemma mute_permissions: "list_all mute (product_permissions i)" "list_all mute tenant_permissions"
  by (simp_all add: product_permissions_def tenant_permissions_def mute_def NewPermission_def)

lemma AddPrincipalPermissions_mute:
  "all_mute (sg_adaptor w) \<Longrightarrow> list_all mute ps \<Longrightarrow> all_mute (sg_adaptor (AddPrincipalPermissions q ps w))"
  by (auto simp: AddPrincipalPermissions_def onAdaptor_def la_AddPrincipalPermissions_def Let_def split: prod.splits
    dest!: AddPermissions_mute)

lemma RemovePrincipalPermissions_mute:
  assumes "all_mute (sg_adaptor w)"
  shows "all_mute (sg_adaptor (RemovePrincipalPermissions iter q ps w))"
proof -
  have kept: "list_all mute (foldl (\<lambda>ps resource. map (\<lambda>q. q\<lparr>pm_Resources := cut_where (\<lambda>name. resource = name) (pm_Resources q)\<rparr>) ps) qs rs)"
    if "list_all mute qs" for qs rs
    using that by (induction rs arbitrary: qs) (simp_all add: list_all_length mute_def)
  have "list_all mute (la_GetPermissions is (sg_adaptor w))" for "is"
    using assms by (auto simp: la_GetPermissions_def list_all_iff all_mute_def List.map_filter_def)
  note stays = AddPermissions_mute [OF _ assms kept [OF this]]
  show ?thesis using assms
    by (auto simp: RemovePrincipalPermissions_def onAdaptor_def la_RemovePrincipalPermissions_def la_SetPrincipalPermissions_def Let_def
      simp del: cut_where_id split: option.splits prod.splits dest: stays)
qed

subsection \<open>What every handler keeps\<close>

text \<open>
  A predicate on the security manager that the grants of the handlers keep, and their removals, is kept by every handler and by every call.
\<close>

locale security_invariant =
  fixes good :: "('rc, 'pc) securityManager \<Rightarrow> bool"
  assumes grant_tenant: "good w \<Longrightarrow> good (AddPrincipalPermissions q tenant_permissions w)"
    and grant_product: "good w \<Longrightarrow> good (AddPrincipalPermissions q (product_permissions i) w)"
    and revoke: "good w \<Longrightarrow> good (RemovePrincipalPermissions iter q (product_permissions i) w)"
begin

definition holds :: "('db, 'k, 'rc, 'pc) api_state \<Rightarrow> bool" where
  "holds s \<longleftrightarrow> good (as_security s)"

lemma holds_parts [stays_rules]:
  "stays holds (NewObjectId d)" "stays holds (time_Now d)" "stays holds (asyncProduceMessage d m)"
  "stays holds (on_security (AddPrincipalPermissions q tenant_permissions))"
  "stays holds (on_security (AddPrincipalPermissions q (product_permissions i)))"
  "stays holds (on_security (RemovePrincipalPermissions iter q (product_permissions i)))"
  using grant_tenant grant_product revoke
  by (simp_all add: stays_def holds_def NewObjectId_def time_Now_def asyncProduceMessage_def on_security_def split: prod.splits outcome.splits)

lemma holds_with_write [stays_rules]: "stays holds m \<Longrightarrow> stays holds (with_write w m)"
  by (simp add: stays_def holds_def with_write_def split: prod.splits outcome.splits)

lemma holds_new_devices [stays_rules]: "stays holds (new_devices d req n)"
proof (induction n)
  case (Suc n)
  show ?case unfolding new_devices_Suc by (intro stays_rules Suc.IH)
qed (simp add: stays_def)

lemma holds_handler: "stays holds (run_handler h d rq)"
proof (cases h)
  case H_LoginTenant
  then show ?thesis by (simp add: stays_def LoginTenant_def reply_def retM_def split: option.splits outcome.splits)
next
  case H_SendMessageToDevice
  then show ?thesis
    by (auto simp: stays_def SendMessageToDevice_def reply_def retM_def holds_def split: option.splits outcome.splits prod.splits)
next
  case H_GetBuiltinTopicFlavors then show ?thesis by (simp add: stays_def api_GetBuiltinTopicFlavors_def reply_def retM_def)
next
  case H_GetProductTopicFlavors then show ?thesis by (simp add: stays_def api_GetProductTopicFlavors_def reply_def retM_def)
next
  case H_GetTenantTopicFlavors then show ?thesis by (simp add: stays_def api_GetTenantTopicFlavors_def reply_def retM_def)
qed (simp_all only: run_handler.simps handler_defs, (intro stays_rules)+)

lemma holds_console_call: "stays holds (console_call d claims route rq)"
  using holds_handler
  by (auto simp: stays_def console_call_def RegistryWithConfig_def console_auth_def console_authorize_def errM_def Let_def
    split: outcome.splits prod.splits option.splits)

end

interpretation muted: security_invariant "\<lambda>w. all_mute (sg_adaptor w)"
  by unfold_locales (auto intro: AddPrincipalPermissions_mute RemovePrincipalPermissions_mute mute_permissions)

subsection \<open>Properties\<close>

inductive console_reach :: "('db, 'k) api_deps \<Rightarrow> ('db, 'k, 'rc, 'pc) api_state \<Rightarrow> bool" for d where
  fresh: "sg_adaptor (as_security s) = NewLocalAdaptor \<Longrightarrow> console_reach d s"
| call: "console_reach d s \<Longrightarrow> console_reach d (snd (console_call d claims route rq s))"

lemma console_reach_mute: "console_reach d s \<Longrightarrow> muted.holds s"
proof (induction rule: console_reach.induct)
  case (fresh s) then show ?case unfolding muted.holds_def by (simp add: all_mute_def NewLocalAdaptor_def)
next
  case (call s claims route rq) show ?case by (rule muted.holds_console_call [unfolded stays_def, rule_format, OF call.IH])
qed

lemma routes_disjoint: "route \<in> set console_routes \<Longrightarrow> route \<notin> set console_open_routes"
  unfolding console_open_routes_def by (auto simp: console_routes_def)

lemma AuthorizeWithToken_cases:
  "AuthorizeWithToken iter tok resource action w = Panic \<or>
     (\<exists>p. AuthorizeWithToken iter tok resource action w = Authorize (Some p) resource action w)"
  by (cases "fst (pc_GetPrimaryPrincipal (getPrincipals iter tok w))") (auto simp: AuthorizeWithToken_def Authorize_def)

lemma muted_refuses:
  assumes "all_mute (sg_adaptor w)"
  shows "Authorize (Some p) resource (request_action verb) w = Err ()"
proof -
  have "mute q" if "q \<in> set (la_GetPrincipalPermissions p (sg_adaptor w))" for q
    using that assms by (auto simp: la_GetPrincipalPermissions_def la_GetPermissions_def all_mute_def List.map_filter_def split: option.splits)
  then show ?thesis using mute_implies_nothing by (auto simp: Authorize_Some list_ex_iff)
qed

lemma GetRequestInfo_action: "GetRequestInfo maps verb path rq = Ok (resource, action) \<Longrightarrow> action = request_action verb"
  by (auto simp: GetRequestInfo_def split: option.splits outcome.splits)

text \<open>C26. The console serves none of its protected routes: whatever calls came before, of whichever tenants, a call of a route that
  requires authorization is refused, or ends in a panic when the tenant is not in the registry, and changes
  nothing. The permissions that tenants are granted name the actions in another way than the requests do.\<close>

theorem console_serves_nobody:
  assumes "console_reach d s" "route \<in> set console_routes" "registry_New (ad_dial d) (ad_config d) = Ok ()"
    "StringConfigWithDefaultValue (ad_config d) ''auth'' ''jwt'' = ''jwt''"
  shows "snd (console_call d claims route rq s) = s \<and> (\<forall>answer. fst (console_call d claims route rq s) \<noteq> Ok answer)"
proof -
  obtain verb path h where route: "route = (verb, path, h)" by (cases route)
  have mute: "all_mute (sg_adaptor (security_now d s))"
    using console_reach_mute [OF assms(1)] by (simp add: muted.holds_def security_now_def)
  have refuse: "AuthorizeWithToken iter tok resource (request_action verb) (security_now d s) \<noteq> Ok ()" for iter tok resource
    using AuthorizeWithToken_cases [of iter tok resource "request_action verb" "security_now d s"] muted_refuses [OF mute] by auto
  have run: "console_call d claims route rq = RegistryWithConfig d (console_auth d claims route rq)"
    using assms(2) routes_disjoint by (simp add: console_call_def)
  show ?thesis
    unfolding run using assms(3,4) refuse
    by (auto simp: RegistryWithConfig_def console_auth_def route errM_def Let_def AuthNeed_def console_authorize_def
      split: option.splits outcome.splits prod.splits dest!: GetRequestInfo_action)
qed

lemma realm_primary:
  "fst (pc_GetPrimaryPrincipal (pc_Add p NewPrincipalCollection)) = Some p" "\<not> pc_IsEmpty (pc_Add p NewPrincipalCollection)"
  "pc_IsEmpty NewPrincipalCollection"
  by (simp_all add: pc_GetPrimaryPrincipal_def pc_Add_def NewPrincipalCollection_def pc_IsEmpty_def)

lemma realm_login_nil:
  "tk_Crenditals tok = None \<Longrightarrow> set rs \<subseteq> {AuthorizeRealm d db} \<Longrightarrow> login_realms tok rs = Err ()"
  by (induction rs) (auto simp: AuthorizeRealm_def realm_primary split: outcome.splits)

lemma realms_of_now: "set (realms_of iter (security_now d s)) \<subseteq> {AuthorizeRealm d (as_db s)}"
  by (auto simp: realms_of_def security_now_def List.map_filter_def split: if_splits)

text \<open>The management service serves nobody: the token of its requests has no credentials, which equal those of no principal, so
  every request is refused before it reaches a handler.\<close>

theorem management_serves_nobody:
  assumes "registry_New (ad_dial d) (ad_config d) = Ok ()"
  shows "\<exists>e. management_call d accessId route rq s = (Err e, s)"
proof -
  have "Login iter \<lparr>tk_kind = RequestToken, tk_Principal = accessId, tk_Crenditals = None, tk_Authenticated = False\<rparr> (security_now d s) = Err ()" for iter
    unfolding Login_def by (rule realm_login_nil [OF _ realms_of_now]) simp
  then show ?thesis
    using assms by (auto simp: management_call_def RegistryWithConfig_def AuthNeed_def Let_def management_authenticate_def errM_def
      split: prod.splits outcome.splits)
qed

text \<open>C20. A tenant gets a token exactly with the password of the registry: the answer is the signed identifier of the tenant if the registry holds
  the tenant with that password, and a refusal otherwise.\<close>

theorem login_iff_password:
  assumes "registry_New (ad_dial d) (ad_config d) = Ok ()" "ad_iter d [''iot_api_server''] = [''iot_api_server'']"
    "bd_register (rq_bind rq) = Some req"
  shows "LoginTenant d rq s =
     (if \<exists>t. GetTenant (ad_store d) (rg_TenantId req) (as_db s) = Ok t \<and> tn_Password t = rg_Password req
      then (Ok (Resp OK (RToken (ad_sign d (rg_TenantId req)))), s)
      else (Ok (Resp Unauthorized RNone), s))"
proof -
  have "realms_of (ad_iter d) (security_now d s) = [AuthorizeRealm d (as_db s)]"
    using assms(2) by (simp add: realms_of_def security_now_def List.map_filter_def)
  then show ?thesis
    using assms(1,3)
    by (auto simp: LoginTenant_def Login_def AuthorizeRealm_def realm_primary reply_def retM_def AddRoles_def SetCrenditals_def
      split: outcome.splits)
qed

lemma post_error: "PostMessage kf c m k = (Err e, k') \<Longrightarrow> k' = k"
  by (auto simp: PostMessage_def kp_SendMessage_def newKafkaProducer_def Serialize_def split: outcome.splits if_splits)


subsection \<open>Instances\<close>

lemma sample_registry: "registry_New (ad_dial api_sample) (ad_config api_sample) = Ok ()"
  by (simp add: api_sample_def registry_New_def api_config_items)

theorem console_serves_nobody_witness:
  "(''GET'', ''/iot/api/v1/console/products'', H_GetProductList) \<in> set console_routes \<and>
   fst (console_call api_sample (Some ''t1'') (''GET'', ''/iot/api/v1/console/products'', H_GetProductList) (sample_request no_binding [] None)
     (state_of one_product)) \<noteq> Ok (Resp OK (RProducts [(''p1'', ''lamps'')]))"
proof -
  have reach: "console_reach api_sample (state_of one_product)"
    by (rule console_reach.fresh) (simp add: state_of_def newDefaultSecurityManager_def)
  have route: "(''GET'', ''/iot/api/v1/console/products'', H_GetProductList) \<in> set console_routes" by (simp add: console_routes_def)
  have jwt: "StringConfigWithDefaultValue (ad_config api_sample) ''auth'' ''jwt'' = ''jwt''"
    by (simp add: StringConfigWithDefaultValue_def api_sample_def api_config_items)
  show ?thesis
    using console_serves_nobody [OF reach, OF route, OF sample_registry, OF jwt, of "Some ''t1''" "sample_request no_binding [] None"] route by blast
qed

theorem management_serves_nobody_witness:
  "\<exists>e. management_call api_sample ''t1'' (''POST'', ''/iot/api/v1/products'', H_CreateProduct) (sample_request no_binding [] None) (state_of one_product) =
     (Err e, state_of one_product)"
  using management_serves_nobody [OF sample_registry] .

definition one_tenant :: "string \<Rightarrow> document list" where
  "one_tenant = (\<lambda>_. [])(''tenants'' := [enc_tenant \<lparr>tn_TenantId = ''t1'', tn_Password = ''pw'', tn_SecretKey = [], tn_CreatedAt = 0,
     tn_UpdatedAt = 0, tn_Roles = []\<rparr>])"

definition login_request :: "string \<Rightarrow> request" where
  "login_request pw = sample_request (no_binding\<lparr>bd_register := Some \<lparr>rg_TenantId = ''t1'', rg_Password = pw\<rparr>\<rparr>) [] None"

theorem login_iff_password_witness:
  "LoginTenant api_sample (login_request ''pw'') (state_of one_tenant) = (Ok (Resp OK (RToken ''t1'')), state_of one_tenant) \<and>
   LoginTenant api_sample (login_request ''no'') (state_of one_tenant) = (Ok (Resp Unauthorized RNone), state_of one_tenant)"
proof -
  have iter: "ad_iter api_sample [''iot_api_server''] = [''iot_api_server'']" by (simp add: api_sample_def)
  have bound: "bd_register (rq_bind (login_request pw)) = Some \<lparr>rg_TenantId = ''t1'', rg_Password = pw\<rparr>" for pw
    by (simp add: login_request_def sample_request_def)
  have found: "\<exists>t. GetTenant (ad_store api_sample) ''t1'' (as_db (state_of one_tenant)) = Ok t \<and> tn_Password t = ''pw''"
    by (simp add: run_api GetTenant_def get_one_def find_one_def one_tenant_def by_tenant_def enc_tenant_def dec_tenant_def b_str_def)
  then have wrong: "\<not> (\<exists>t. GetTenant (ad_store api_sample) ''t1'' (as_db (state_of one_tenant)) = Ok t \<and> tn_Password t = ''no'')" by auto
  show ?thesis
    using found wrong
    by (simp add: login_iff_password [OF sample_registry, OF iter, OF bound]) (simp add: api_sample_def)
qed


end
