(* ===== verification/Platform.thy ===== *)
theory Platform
  imports Conductor Whaler Api_Console Broker_Auth
begin

text \<open>
  How the services of the platform work together: what a handler of the interface writes to the registry and to the message bus is
  what the conductor, the rule engine and the brokers read. A bus keeps what was put in: \<open>entries\<close> are the entries of a state of the
  bus, in their order. A reader of a topic hands its handler the entries of the topic, each read back from its JSON form by the
  consumer of \<^verbatim>\<open>Message_Bus\<close>.
\<close>

definition bus_law :: "'k kafka \<Rightarrow> ('k \<Rightarrow> (string \<times> json) list) \<Rightarrow> bool" where
  "bus_law kf entries \<longleftrightarrow> (\<forall>v k. entries (kf_input kf v k) = entries k @ [v])"

text \<open>The bus is in the configuration, and it answers.\<close>

definition bus_up :: "('db, 'k) api_deps \<Rightarrow> bool" where
  "bus_up d \<longleftrightarrow> (case cfg_String ''kafka'' (ad_config d) of
      Ok hosts \<Rightarrow> hosts \<noteq> [] \<and> (\<forall>k. kf_dial (ad_kafka d) (split_on (CHR '','') hosts) False k)
    | _ \<Rightarrow> False)"

definition received :: "string \<Rightarrow> (string \<times> json) list \<Rightarrow> message list" where
  "received topic es = concat (map (\<lambda>(t, v). if t = topic
     then map snd (on_message topic \<lparr>sb_topic = topic, sb_handler = Some 0, sb_clientId = []\<rparr> (Some v)) else []) es)"

text \<open>What was put in between two states of the bus.\<close>

definition sent_since :: "('k \<Rightarrow> (string \<times> json) list) \<Rightarrow> 'k \<Rightarrow> 'k \<Rightarrow> (string \<times> json) list" where
  "sent_since entries k k' = drop (length (entries k)) (entries k')"

text \<open>The engine at the messages one after the other, as long as the process lives.\<close>

fun engine_run :: "('db, 'k) whaler_deps \<Rightarrow> message list \<Rightarrow> ('db, 'k, unit) engine" where
  "engine_run d [] s = (Ok (), s)"
| "engine_run d (m # ms) s = (case en_messageHandlerFunc d m s of (Panic, t) \<Rightarrow> (Panic, t) | (_, t) \<Rightarrow> engine_run d ms t)"

text \<open>What the authentication of a broker reads in the registry for a device.\<close>

definition registry_secret :: "'db store \<Rightarrow> 'db \<Rightarrow> device_registry" where
  "registry_secret st db productId deviceName = (case GetDeviceByName st productId deviceName db of
      Ok device \<Rightarrow> Some (dv_DeviceSecret device) | _ \<Rightarrow> None)"

subsection \<open>Messages on their way\<close>

lemma produced:
  assumes "bus_up d"
  shows "asyncProduceMessage d m s = (Ok (), s\<lparr>as_kafka := kf_input (ad_kafka d) (Topic m, marshal_message m) (as_kafka s)\<rparr>)"
  using assms
  by (auto simp: bus_up_def asyncProduceMessage_def PostMessage_def newKafkaProducer_def kp_SendMessage_def Serialize_def split: outcome.splits)

lemma received_proper:
  "proper m \<Longrightarrow> Topic m = topic \<Longrightarrow> received topic ((topic, marshal_message m) # es) = m # received topic es"
  "received topic [] = []"
  using deserialize_serialize [of m] by (auto simp: received_def on_message_def)

lemma sent_one: "bus_law kf entries \<Longrightarrow> sent_since entries k (kf_input kf v k) = [v]"
  by (cases v) (simp add: bus_law_def sent_since_def)

lemma sent_two: "bus_law kf entries \<Longrightarrow> sent_since entries k (kf_input kf w (kf_input kf v k)) = [v, w]"
  by (cases v; cases w) (simp add: bus_law_def sent_since_def)

lemma action_ascii:
  "json_string TopicNameProduct = TopicNameProduct" "json_string TopicNameRule = TopicNameRule" "json_string [] = []"
  "json_string ActionCreate = ActionCreate" "json_string ActionStart = ActionStart"
  by (rule json_string_ascii; simp add: topic_names ActionCreate_def ActionStart_def)+

lemma rule_message_proper:
  assumes "json_string productId = productId" "json_string ruleName = ruleName" "action \<in> {ActionCreate, ActionStart}"
  shows "proper (rule_message_of productId ruleName action)"
  using assms by (auto simp: proper_def rule_message_of_def action_ascii)

lemma product_message_proper:
  "json_string productId = productId \<Longrightarrow> proper (product_message_of productId ActionCreate)"
  by (simp add: proper_def product_message_of_def action_ascii)

subsection \<open>Rules, from a request to the engine\<close>

lemma created_rule_effect:
  assumes "bus_up d" "CreateRule d rq s = (Ok (Resp OK (RRule r)), t)"
  shows "RegisterRule (ad_store d) r (as_db s) = (Ok (), as_db t)"
    "as_kafka t = kf_input (ad_kafka d) (TopicNameRule, marshal_message (rule_message_of (ru_ProductId r) (ru_RuleName r) ActionCreate)) (as_kafka s)"
    "ru_ProductId r \<noteq> []" "ru_RuleName r \<noteq> []"
  using assms(2)
  by (auto simp: CreateRule_def bad_rule_def reply_def retM_def OK_def BadRequest_def ServerError_def seqM_def time_Now_def with_write_def Let_def
    produced [OF assms(1)] rule_message_of_def split: option.splits if_splits prod.splits outcome.splits)

lemma started_rule_effect:
  assumes "bus_up d" "StartRule d rq s = (Ok (Resp OK RNone), t)"
  shows "as_db t = as_db s" "as_kafka t = kf_input (ad_kafka d)
    (TopicNameRule, marshal_message (rule_message_of (rq_param rq ''productId'') (rq_param rq ''ruleName'') ActionStart)) (as_kafka s)"
  using assms(2)
  by (auto simp: StartRule_def rule_params_def reply_def retM_def OK_def BadRequest_def seqM_def Let_def produced [OF assms(1)] rule_message_of_def
    split: if_splits)

lemma registered_rule_found:
  assumes "store_laws st contents uniq" "RegisterRule st r db = (Ok (), db')"
    "filter_mset (matches (by_rule (ru_ProductId r) (ru_RuleName r))) (contents db ''rules'') = {#}"
  shows "GetRule st (ru_ProductId r) (ru_RuleName r) db' =
    Ok (r\<lparr>ru_TimeCreated := to_millis (ru_TimeCreated r), ru_TimeUpdated := to_millis (ru_TimeUpdated r)\<rparr>)"
proof -
  note new = insert_adds [OF assms(1), OF assms(2) [unfolded RegisterRule_def]]
  have hit: "matches (by_rule (ru_ProductId r) (ru_RuleName r)) (enc_rule r)" by (simp add: by_rule_def enc_rule_def)
  have "filter_mset (matches (by_rule (ru_ProductId r) (ru_RuleName r))) (contents db' ''rules'') = {#enc_rule r#}"
    by (simp only: new fun_upd_same filter_mset_add_mset hit assms(3) if_True)
  from find_one_unique [OF assms(1), OF this] show ?thesis by (simp add: GetRule_def get_one_def dec_enc_rule)
qed

lemma engine_starts_rule:
  assumes "newRuleEngine w c db k = Ok e" "GetRule (wd_store w) productId ruleName db = Ok r" "GetProduct (wd_store w) productId db = Ok product"
    "dt_Type (ru_DataTarget r) = ''topic''" "cfg_String ''kafka'' c = Ok hosts" "hosts \<noteq> []" "kf_dial (wd_kafka w) (split_on (CHR '','') hosts) True k"
  shows "\<exists>e' p x. engine_run w [rule_message_of productId ruleName ActionCreate, rule_message_of productId ruleName ActionStart] e = (Ok (), e') \<and>
    en_executors e' = [(productId, p)] \<and> ex_rules p = [(ruleName, x)] \<and> ex_started p \<and> ex_tenantId p = pr_TenantId product \<and>
    wr_Rule x = r\<lparr>ru_Status := ''started''\<rparr> \<and> (\<exists>pl. wr_ppline x = Some pl \<and> rule_pipeline (pr_TenantId product) r pl)"
proof -
  let ?cc = "NewRuleContext productId ruleName ''create''"
  have e: "en_executors e = []" "en_config e = c" "en_db e = db" "en_kafka e = k" and reg: "registry_New (wd_dial w) c = Ok ()"
    using assms(1) by (auto simp: newRuleEngine_def split: outcome.splits)
  obtain mongo where mongo: "MustString ''mongo'' c = Ok mongo"
    using reg by (auto simp: registry_New_def split: outcome.splits)
  have kafka: "MustString ''kafka'' c = Ok hosts"
    using assms(5) by (simp add: MustString_def MustStringWithSection_def must_def cfg_String_def)
  have stored: "stored_rule w c ?cc db = Ok r" using reg assms(2) by (simp add: stored_rule_def NewRuleContext_def)
  obtain x where x: "newRule w c (pr_TenantId product) ?cc db k = Ok x"
    using newRule_makes [OF stored assms(4) mongo kafka assms(6,7)] by blast
  let ?x = "\<lparr>kc_khosts = hosts, kc_clientId = ''whaler-rule-executor-'' @ productId, kc_subscribers = []\<rparr>"
  have "newKafkaConsumer c (''whaler-rule-executor-'' @ productId) = Ok ?x" using assms(5,6) by (simp add: newKafkaConsumer_def)
  then obtain t where t: "dispatchRule w ?cc e = (Ok (), t)"
    using create_succeeds [of e w productId product ?x ruleName x] reg assms(3,7) e x by auto
  obtain p where p: "en_executors t = [(productId, p)]" "ex_rules p = [(ruleName, x)]" "ex_started p" "ex_tenantId p = pr_TenantId product"
    using created_rule [OF t e(1)] assms(3) e x by auto
  obtain u where u: "dispatchRule w (NewRuleContext productId ruleName ''start'') t = (Ok (), u)"
    using start_succeeds [OF p(1-3)] by blast
  have run: "engine_run w [rule_message_of productId ruleName ActionCreate, rule_message_of productId ruleName ActionStart] e = (Ok (), u)"
    using t u by (simp add: en_messageHandlerFunc_def rule_message_of_def rule_action_def ActionCreate_def ActionStart_def ActionRemove_def
      ActionUpdate_def ActionStop_def)
  show ?thesis
    using run started_rule [OF u p(1-3)] p(3,4) newRule_pipeline [OF x stored]
    by (intro exI [of _ u] exI [of _ "p\<lparr>ex_rules := [(ruleName, x\<lparr>wr_Rule := (wr_Rule x)\<lparr>ru_Status := ''started''\<rparr>\<rparr>)]\<rparr>"]
      exI [of _ "x\<lparr>wr_Rule := (wr_Rule x)\<lparr>ru_Status := ''started''\<rparr>\<rparr>"]) simp
qed


subsection \<open>Products, from a request to the conductor\<close>

lemma created_product_effect:
  assumes "bus_up d" "CreateProduct d rq s = (Ok (Resp OK (RProduct p)), t)"
  shows "as_kafka t = kf_input (ad_kafka d) (TopicNameProduct, marshal_message (product_message_of (pr_ProductId p) ActionCreate)) (as_kafka s)"
  using assms(2)
  by (auto simp: CreateProduct_def getAccessId_def on_security_def reply_def retM_def panicM_def OK_def BadRequest_def ServerError_def seqM_def time_Now_def
    NewObjectId_def with_write_def Let_def produced [OF assms(1)] product_message_of_def split: option.splits if_splits prod.splits outcome.splits)

text \<open>C28. A product that is created through the interface ends the conductor: the message that the request puts on the bus names no tenant,
  and the conductor, which has no tenant without a name, panics at it.\<close>

theorem created_product_stops_conductor:
  assumes "bus_up d" "bus_law (ad_kafka d) entries" "CreateProduct d rq s = (Ok (Resp OK (RProduct p)), t)"
    "json_string (pr_ProductId p) = pr_ProductId p" "\<not> cd_locked cs" "tenant_at [] cs = None"
  shows "conduct cp (received TopicNameProduct (sent_since entries (as_kafka s) (as_kafka t))) cs = None"
proof -
  have "sent_since entries (as_kafka s) (as_kafka t) = [(TopicNameProduct, marshal_message (product_message_of (pr_ProductId p) ActionCreate))]"
    unfolding created_product_effect [OF assms(1,3)] by (rule sent_one [OF assms(2)])
  moreover have "Topic (product_message_of (pr_ProductId p) ActionCreate) = TopicNameProduct" by (simp add: product_message_of_def)
  ultimately have "received TopicNameProduct (sent_since entries (as_kafka s) (as_kafka t)) = [product_message_of (pr_ProductId p) ActionCreate]"
    using product_message_proper [OF assms(4)] by (simp add: received_proper)
  moreover have "fst (cd_messageHandlerFunc cp (product_message_of (pr_ProductId p) ActionCreate) cs) = Panic"
    using assms(5,6) by (simp add: product_message_of_def cd_messageHandlerFunc_def handleProductNotify_def createProduct_def locked_def
      seqM_def isProductExist_def topic_names tenant_at_def)
  ultimately show ?thesis by (simp split: prod.splits outcome.splits) (metis fst_conv outcome.distinct)
qed

subsection \<open>Devices, from a request to the broker\<close>

lemma secret_found:
  assumes "store_laws st contents uniq" "filter_mset (matches (by_device_name p n)) (contents db ''devices'') = {#enc_device v#}"
  shows "registry_secret st db p n = Some (dv_DeviceSecret v)"
  by (simp add: registry_secret_def GetDeviceByName_def get_one_def find_one_unique [OF assms(1), OF assms(2)] dec_enc_device)



subsection \<open>Instances\<close>

definition platform_deps :: "(string \<Rightarrow> document list, (string \<times> json) list) api_deps" where
  "platform_deps = api_sample\<lparr>ad_config := whaler_config\<rparr>"

lemma platform_parts: "ad_store platform_deps = list_store no_index" "ad_kafka platform_deps = list_kafka"
  by (simp_all add: platform_deps_def api_sample_def)

lemma platform_up: "bus_up platform_deps"
  by (simp add: bus_up_def platform_deps_def api_sample_def whaler_config_items list_kafka_def)

lemma platform_bus: "bus_law (ad_kafka platform_deps) (\<lambda>k. k)"
  by (simp add: bus_law_def platform_parts list_kafka_def)

lemma platform_laws: "store_laws (ad_store platform_deps) list_contents no_index"
  by (simp add: platform_parts list_store_laws)

lemma platform_produced:
  "asyncProduceMessage platform_deps m s = (Ok (), s\<lparr>as_kafka := as_kafka s @ [(Topic m, marshal_message m)]\<rparr>)"
  by (simp add: produced [OF platform_up] platform_parts) (simp add: list_kafka_def)

definition products_db :: "string \<Rightarrow> document list" where
  "products_db = (\<lambda>_. [])(''products'' := [enc_product sample_product])"

definition rule_request_of :: request where
  "rule_request_of = sample_request (no_binding\<lparr>bd_rule := Some sample_stored_rule\<rparr>) [(''productId'', ''p1''), (''ruleName'', ''r1'')] None"

lemma ascii_names: "json_string ''p1'' = ''p1''" "json_string ''r1'' = ''r1''" "json_string ''u'' = ''u''"
  by (rule json_string_ascii; simp)+


definition product_request_of :: request where
  "product_request_of = sample_request (no_binding\<lparr>bd_create := Some \<lparr>pq_ProductName = ''lamps'', pq_Category = [], pq_Description = []\<rparr>\<rparr>) [] (Some ''t1'')"

theorem created_product_stops_conductor_witness:
  "\<exists>p t. CreateProduct platform_deps product_request_of (state_of (\<lambda>_. [])) = (Ok (Resp OK (RProduct p)), t) \<and>
     conduct local_deps (received TopicNameProduct (sent_since (\<lambda>k. k) [] (as_kafka t))) (sample_tenant sample_cluster) = None"
proof -
  obtain p t where run: "CreateProduct platform_deps product_request_of (state_of (\<lambda>_. [])) = (Ok (Resp OK (RProduct p)), t)" "pr_ProductId p = ''u''"
    by (simp add: CreateProduct_def product_request_of_def sample_request_def getAccessId_def retM_def seqM_def NewObjectId_def time_Now_def with_write_def
      platform_parts platform_produced RegisterProduct_def insert_new_def find_one_def list_store_def state_of_def on_security_def reply_def Let_def no_index_def)
      (simp add: platform_deps_def api_sample_def state_of_def)
  have "conduct local_deps (received TopicNameProduct (sent_since (\<lambda>k. k) (as_kafka (state_of (\<lambda>_. []))) (as_kafka t))) (sample_tenant sample_cluster) = None"
    by (rule created_product_stops_conductor [OF platform_up platform_bus run(1)])
      (simp_all add: run(2) ascii_names sample_tenant_def tenant_at_def)
  with run(1) show ?thesis by (auto simp: state_of_def)
qed

definition lamp_context :: "string \<Rightarrow> Context" where
  "lamp_context password = \<lparr>cx_ClientID = ''c'', cx_DeviceName = ''lamp'', cx_ProductID = ''p1'', cx_SecurityMode = 2, cx_SignMethod = ''sha1mac'',
     cx_Timestamp = ''1'', cx_Password = password, cx_DeviceSecret = []\<rparr>"

lemma lamp_password: "right_password secret (lamp_context password) = right_password secret (lamp_context [])"
  by (simp add: right_password_def sign_content_def lamp_context_def)



end
