(* ===== verification/Mns.thy ===== *)
theory Mns
  imports Registry Message_Bus
begin

text \<open>
  The message service (\<^verbatim>\<open>src/mns/mns\<close>): the objects it keeps, the adaptor that keeps them in the database, queues, the endpoints of
  subscriptions and the manager. Parameters are the database server, as in \<^verbatim>\<open>Registry\<close>, with what it answers of a list when some of it is to
  be skipped, the kafka client, the mail server, the decoding of attributes into a struct (\<^verbatim>\<open>mapstructure\<close>), the clock, and the JSON form of
  a queue message, which has a time with its location. The text that \<^verbatim>\<open>With\<close> adds to an error value, which all of its users share, is
  read by nothing and is left out.
\<close>

subsection \<open>Objects\<close>

record QueueAttribute =
  qa_AccountId :: string
  qa_QueueName :: string
  qa_DelaySeconds :: "32 word"
  qa_MaxMessageSize :: "32 word"
  qa_MessageRetentionPeriod :: "32 word"
  qa_VisibilityTimeout :: "32 word"
  qa_PollingWaitSeconds :: "32 word"
  qa_ActiveMessages :: "64 word"
  qa_InactiveMessages :: "64 word"
  qa_DelayMessages :: "64 word"
  qa_CreateTime :: int
  qa_LastModifyTime :: int

definition zero_queue :: QueueAttribute where
  "zero_queue = \<lparr>qa_AccountId = [], qa_QueueName = [], qa_DelaySeconds = 0, qa_MaxMessageSize = 0, qa_MessageRetentionPeriod = 0,
     qa_VisibilityTimeout = 0, qa_PollingWaitSeconds = 0, qa_ActiveMessages = 0, qa_InactiveMessages = 0, qa_DelayMessages = 0,
     qa_CreateTime = zero_time, qa_LastModifyTime = zero_time\<rparr>"

type_synonym attributes = "(string \<times> json) list"

record QueueMessage =
  qm_TopicName :: string
  qm_MessageId :: string
  qm_ReceiptHandle :: string
  qm_MessageBody :: bytes
  qm_MessageBodyMd5 :: string
  qm_MessageTag :: string
  qm_Priority :: byte
  qm_FirstEnqueueTime :: int
  qm_Attributes :: attributes

definition zero_message :: QueueMessage where
  "zero_message = \<lparr>qm_TopicName = [], qm_MessageId = [], qm_ReceiptHandle = [], qm_MessageBody = [], qm_MessageBodyMd5 = [],
     qm_MessageTag = [], qm_Priority = 0, qm_FirstEnqueueTime = zero_time, qm_Attributes = []\<rparr>"

record MnsTopic =
  tc_AccountId :: string
  tc_TopicName :: string
  tc_CreatedAt :: int
  tc_LastModifiedAt :: int
  tc_MaximumMessageSize :: "32 word"
  tc_MessageRetentionPeriod :: "32 word"
  tc_LogginEnabled :: bool

record Subscription =
  sp_AccountId :: string
  sp_SubscriptionName :: string
  sp_Subscriber :: string
  sp_TopicOwner :: string
  sp_TopicName :: string
  sp_Endpoint :: string
  sp_NotifyStrategy :: string
  sp_NotifyContentFormat :: string
  sp_FilterTag :: string
  sp_CreatedAt :: int
  sp_LastModifiedAt :: int

definition zero_subscription :: Subscription where
  "zero_subscription = \<lparr>sp_AccountId = [], sp_SubscriptionName = [], sp_Subscriber = [], sp_TopicOwner = [], sp_TopicName = [],
     sp_Endpoint = [], sp_NotifyStrategy = [], sp_NotifyContentFormat = [], sp_FilterTag = [], sp_CreatedAt = zero_time, sp_LastModifiedAt = zero_time\<rparr>"

record MnsError =
  me_StatusCode :: nat
  me_Message :: string

definition NewError :: "nat \<Rightarrow> string \<Rightarrow> MnsError" where
  "NewError status msg = \<lparr>me_StatusCode = status, me_Message = msg\<rparr>"

definition ErrNotImplemented :: MnsError where "ErrNotImplemented = NewError 501 ''NotImplemented''"
definition ErrInvalidArgument :: MnsError where "ErrInvalidArgument = NewError 400 ''InvalidArgument''"

datatype mns_error = EMns MnsError | EDb db_error | EMsg msg_error | ETimeout | EMail | ESmsConfig

text \<open>
  Documents. The tag of the account of a queue is the name \<^verbatim>\<open>_\<close>, and most fields of a queue are left out when they are zero.
\<close>

definition unless_zero :: "bool \<Rightarrow> string \<Rightarrow> bson \<Rightarrow> document" where
  "unless_zero z k v = (if z then [] else [(k, v)])"

definition b_word :: "string \<Rightarrow> document \<Rightarrow> 'w::len word" where
  "b_word k d = (case map_of d k of Some (BInt i) \<Rightarrow> word_of_int i | _ \<Rightarrow> 0)"

definition enc_queue :: "QueueAttribute \<Rightarrow> document" where
  "enc_queue a = [(''_'', BStr (qa_AccountId a))] @
     unless_zero (qa_QueueName a = []) ''QueueName'' (BStr (qa_QueueName a)) @
     unless_zero (qa_DelaySeconds a = 0) ''DelaySenconds'' (BInt (sint (qa_DelaySeconds a))) @
     unless_zero (qa_MaxMessageSize a = 0) ''MaximumMessageSize'' (BInt (sint (qa_MaxMessageSize a))) @
     unless_zero (qa_MessageRetentionPeriod a = 0) ''MessageRetentionPeriod'' (BInt (sint (qa_MessageRetentionPeriod a))) @
     unless_zero (qa_VisibilityTimeout a = 0) ''VisibilityTimeout'' (BInt (sint (qa_VisibilityTimeout a))) @
     unless_zero (qa_PollingWaitSeconds a = 0) ''PollingWaitSeconds'' (BInt (sint (qa_PollingWaitSeconds a))) @
     unless_zero (qa_ActiveMessages a = 0) ''ActiveMessages'' (BInt (sint (qa_ActiveMessages a))) @
     unless_zero (qa_InactiveMessages a = 0) ''InactiveMessages'' (BInt (sint (qa_InactiveMessages a))) @
     unless_zero (qa_DelayMessages a = 0) ''DelayMessages'' (BInt (sint (qa_DelayMessages a))) @
     unless_zero (qa_CreateTime a = zero_time) ''CreateTime'' (e_time (qa_CreateTime a)) @
     unless_zero (qa_LastModifyTime a = zero_time) ''LastModifyTime'' (e_time (qa_LastModifyTime a))"

definition dec_queue :: "document \<Rightarrow> QueueAttribute" where
  "dec_queue d = \<lparr>qa_AccountId = b_str ''_'' d, qa_QueueName = b_str ''QueueName'' d, qa_DelaySeconds = b_word ''DelaySenconds'' d,
     qa_MaxMessageSize = b_word ''MaximumMessageSize'' d, qa_MessageRetentionPeriod = b_word ''MessageRetentionPeriod'' d,
     qa_VisibilityTimeout = b_word ''VisibilityTimeout'' d, qa_PollingWaitSeconds = b_word ''PollingWaitSeconds'' d,
     qa_ActiveMessages = b_word ''ActiveMessages'' d, qa_InactiveMessages = b_word ''InactiveMessages'' d,
     qa_DelayMessages = b_word ''DelayMessages'' d, qa_CreateTime = b_time ''CreateTime'' d, qa_LastModifyTime = b_time ''LastModifyTime'' d\<rparr>"

definition enc_topic :: "MnsTopic \<Rightarrow> document" where
  "enc_topic t = [(''AccountId'', BStr (tc_AccountId t)), (''TopicName'', BStr (tc_TopicName t)), (''CreatedAt'', e_time (tc_CreatedAt t)),
     (''LastModifiedAt'', e_time (tc_LastModifiedAt t)), (''MaximumMessageSize'', BInt (uint (tc_MaximumMessageSize t))),
     (''MessageRetentionPeriod'', BInt (uint (tc_MessageRetentionPeriod t))), (''LogginEnabled'', BBool (tc_LogginEnabled t))]"

definition dec_topic :: "document \<Rightarrow> MnsTopic" where
  "dec_topic d = \<lparr>tc_AccountId = b_str ''AccountId'' d, tc_TopicName = b_str ''TopicName'' d, tc_CreatedAt = b_time ''CreatedAt'' d,
     tc_LastModifiedAt = b_time ''LastModifiedAt'' d, tc_MaximumMessageSize = b_word ''MaximumMessageSize'' d,
     tc_MessageRetentionPeriod = b_word ''MessageRetentionPeriod'' d, tc_LogginEnabled = b_bool ''LogginEnabled'' d\<rparr>"

definition enc_subscription :: "Subscription \<Rightarrow> document" where
  "enc_subscription p = [(''AccountId'', BStr (sp_AccountId p)), (''SubscriptionName'', BStr (sp_SubscriptionName p)),
     (''Subscriber'', BStr (sp_Subscriber p)), (''TopicOwner'', BStr (sp_TopicOwner p)), (''TopicName'', BStr (sp_TopicName p)),
     (''Endpoint'', BStr (sp_Endpoint p)), (''NotifyStrategy'', BStr (sp_NotifyStrategy p)),
     (''NotifyContentFormat'', BStr (sp_NotifyContentFormat p)), (''FilterTag'', BStr (sp_FilterTag p)),
     (''CreatedAt'', e_time (sp_CreatedAt p)), (''LastModifiedAt'', e_time (sp_LastModifiedAt p))]"

definition dec_subscription :: "document \<Rightarrow> Subscription" where
  "dec_subscription d = \<lparr>sp_AccountId = b_str ''AccountId'' d, sp_SubscriptionName = b_str ''SubscriptionName'' d,
     sp_Subscriber = b_str ''Subscriber'' d, sp_TopicOwner = b_str ''TopicOwner'' d, sp_TopicName = b_str ''TopicName'' d,
     sp_Endpoint = b_str ''Endpoint'' d, sp_NotifyStrategy = b_str ''NotifyStrategy'' d,
     sp_NotifyContentFormat = b_str ''NotifyContentFormat'' d, sp_FilterTag = b_str ''FilterTag'' d,
     sp_CreatedAt = b_time ''CreatedAt'' d, sp_LastModifiedAt = b_time ''LastModifiedAt'' d\<rparr>"

subsection \<open>The adaptor\<close>

text \<open>
  The operations of the interface that the manager and the handlers use. \<open>page skip limit\<close> is what the server leaves of a list.
\<close>

type_synonym page = "int \<Rightarrow> int \<Rightarrow> document list \<Rightarrow> document list"

record 'db adaptor =
  an_GetQueueAttribute :: "string \<Rightarrow> string \<Rightarrow> ('db, QueueAttribute) reading"
  an_AddQueue :: "string \<Rightarrow> string \<Rightarrow> QueueAttribute \<Rightarrow> 'db writing"
  an_UpdateQueue :: "string \<Rightarrow> string \<Rightarrow> QueueAttribute \<Rightarrow> 'db writing"
  an_RemoveQueue :: "string \<Rightarrow> string \<Rightarrow> 'db writing"
  an_GetAccountQueues :: "string \<Rightarrow> 'db \<Rightarrow> string list"
  an_RemoveAccountQueues :: "string \<Rightarrow> 'db \<Rightarrow> 'db"
  an_GetTopic :: "string \<Rightarrow> string \<Rightarrow> ('db, MnsTopic) reading"
  an_AddTopic :: "string \<Rightarrow> string \<Rightarrow> MnsTopic \<Rightarrow> 'db writing"
  an_UpdateTopic :: "string \<Rightarrow> string \<Rightarrow> MnsTopic \<Rightarrow> 'db writing"
  an_RemoveTopic :: "string \<Rightarrow> string \<Rightarrow> 'db writing"
  an_GetAccountTopics :: "string \<Rightarrow> 'db \<Rightarrow> string list"
  an_RemoveAccountTopics :: "string \<Rightarrow> 'db \<Rightarrow> 'db"
  an_GetSubscription :: "string \<Rightarrow> string \<Rightarrow> string \<Rightarrow> ('db, Subscription) reading"
  an_AddSubscription :: "string \<Rightarrow> string \<Rightarrow> Subscription \<Rightarrow> 'db writing"
  an_UpdateSubscription :: "string \<Rightarrow> string \<Rightarrow> string \<Rightarrow> Subscription \<Rightarrow> 'db writing"
  an_RemoveSubscription :: "string \<Rightarrow> string \<Rightarrow> string \<Rightarrow> 'db writing"
  an_GetAccountSubscriptions :: "string \<Rightarrow> string \<Rightarrow> ('db, string list) reading"
  an_GetAccountSubscriptionsWithPage :: "string \<Rightarrow> string \<Rightarrow> int \<Rightarrow> int \<Rightarrow> ('db, string list) reading"
  an_RemoveAccountSubscriptions :: "string \<Rightarrow> string \<Rightarrow> 'db \<Rightarrow> 'db"

text \<open>The constructor of the database adaptor is switched off: there is no adaptor, and no error.\<close>

definition NewAdaptor :: "config \<Rightarrow> (mns_error, 'db adaptor option) outcome" where
  "NewAdaptor c = Ok None"

definition of_account :: "string \<Rightarrow> document" where "of_account accountId = [(''AccountId'', BStr accountId)]"

definition by_queue :: "string \<Rightarrow> string \<Rightarrow> document" where
  "by_queue accountId queueName = [(''AccountId'', BStr accountId), (''QueueName'', BStr queueName)]"

definition by_topic :: "string \<Rightarrow> string \<Rightarrow> document" where
  "by_topic accountId topicName = [(''AccountId'', BStr accountId), (''TopicName'', BStr topicName)]"

definition by_subscription :: "string \<Rightarrow> string \<Rightarrow> string \<Rightarrow> document" where
  "by_subscription accountId topicName subscriptionName =
     [(''AccountId'', BStr accountId), (''TopicName'', BStr topicName), (''SubscriptionName'', BStr subscriptionName)]"

definition mo_GetQueueAttribute :: "'db store \<Rightarrow> string \<Rightarrow> string \<Rightarrow> ('db, QueueAttribute) reading" where
  "mo_GetQueueAttribute st accountId queueName db = get_one dec_queue st ''queues'' (by_queue accountId queueName) db"

definition mo_AddQueue :: "'db store \<Rightarrow> string \<Rightarrow> string \<Rightarrow> QueueAttribute \<Rightarrow> 'db writing" where
  "mo_AddQueue st accountId queueName attr = st_insert st ''queues'' (enc_queue (attr\<lparr>qa_AccountId := accountId, qa_QueueName := queueName\<rparr>))"

definition mo_UpdateQueue :: "'db store \<Rightarrow> string \<Rightarrow> string \<Rightarrow> QueueAttribute \<Rightarrow> 'db writing" where
  "mo_UpdateQueue st accountId queueName attr = st_update st ''queues'' (by_queue accountId queueName)
     (enc_queue (attr\<lparr>qa_AccountId := accountId, qa_QueueName := queueName\<rparr>))"

definition mo_RemoveQueue :: "'db store \<Rightarrow> string \<Rightarrow> string \<Rightarrow> 'db writing" where
  "mo_RemoveQueue st accountId queueName = st_remove st ''queues'' [(''AccountId'', BStr accountId), (''queueName'', BStr queueName)]"

definition mo_GetAccountQueues :: "'db store \<Rightarrow> string \<Rightarrow> 'db \<Rightarrow> string list" where
  "mo_GetAccountQueues st accountId db = map qa_QueueName (all_or_none (get_all dec_queue st ''queues'' (of_account accountId) None db))"

definition mo_RemoveAccountQueues :: "'db store \<Rightarrow> string \<Rightarrow> 'db \<Rightarrow> 'db" where
  "mo_RemoveAccountQueues st accountId db = snd (st_remove st ''queues'' (of_account accountId) db)"

definition mo_GetTopic :: "'db store \<Rightarrow> string \<Rightarrow> string \<Rightarrow> ('db, MnsTopic) reading" where
  "mo_GetTopic st accountId topicName db = get_one dec_topic st ''topics'' (by_topic accountId topicName) db"

definition mo_AddTopic :: "'db store \<Rightarrow> string \<Rightarrow> string \<Rightarrow> MnsTopic \<Rightarrow> 'db writing" where
  "mo_AddTopic st accountId topicName topic = st_insert st ''topics'' (enc_topic (topic\<lparr>tc_AccountId := accountId, tc_TopicName := topicName\<rparr>))"

definition mo_UpdateTopic :: "'db store \<Rightarrow> string \<Rightarrow> string \<Rightarrow> MnsTopic \<Rightarrow> 'db writing" where
  "mo_UpdateTopic st accountId topicName topic = st_update st ''topics'' (by_topic accountId topicName)
     (enc_topic (topic\<lparr>tc_AccountId := accountId, tc_TopicName := topicName\<rparr>))"

definition mo_RemoveTopic :: "'db store \<Rightarrow> string \<Rightarrow> string \<Rightarrow> 'db writing" where
  "mo_RemoveTopic st accountId topicName = st_remove st ''topics'' (by_topic accountId topicName)"

definition mo_GetAccountTopics :: "'db store \<Rightarrow> string \<Rightarrow> 'db \<Rightarrow> string list" where
  "mo_GetAccountTopics st accountId db = map tc_TopicName (all_or_none (get_all dec_topic st ''topics'' (of_account accountId) None db))"

definition mo_RemoveAccountTopics :: "'db store \<Rightarrow> string \<Rightarrow> 'db \<Rightarrow> 'db" where
  "mo_RemoveAccountTopics st accountId db = snd (st_remove st ''topics'' (of_account accountId) db)"

definition mo_GetSubscription :: "'db store \<Rightarrow> string \<Rightarrow> string \<Rightarrow> string \<Rightarrow> ('db, Subscription) reading" where
  "mo_GetSubscription st accountId topicName subscriptionName db =
     get_one dec_subscription st ''subscriptions'' (by_subscription accountId topicName subscriptionName) db"

definition mo_AddSubscription :: "'db store \<Rightarrow> string \<Rightarrow> string \<Rightarrow> Subscription \<Rightarrow> 'db writing" where
  "mo_AddSubscription st accountId topicName subscription =
     st_insert st ''subscriptions'' (enc_subscription (subscription\<lparr>sp_TopicName := topicName, sp_AccountId := accountId\<rparr>))"

definition mo_UpdateSubscription :: "'db store \<Rightarrow> string \<Rightarrow> string \<Rightarrow> string \<Rightarrow> Subscription \<Rightarrow> 'db writing" where
  "mo_UpdateSubscription st accountId topicName subscriptionName subscription =
     st_update st ''subscriptions'' (by_subscription accountId topicName subscriptionName)
       (enc_subscription (subscription\<lparr>sp_TopicName := topicName, sp_AccountId := accountId, sp_SubscriptionName := subscriptionName\<rparr>))"

definition mo_RemoveSubscription :: "'db store \<Rightarrow> string \<Rightarrow> string \<Rightarrow> string \<Rightarrow> 'db writing" where
  "mo_RemoveSubscription st accountId topicName subscriptionName = st_remove st ''subscriptions''
     [(''AccountId'', BStr accountId), (''TopicName'', BStr topicName), (''subscriptionName'', BStr subscriptionName)]"

definition mo_GetAccountSubscriptions :: "'db store \<Rightarrow> string \<Rightarrow> string \<Rightarrow> ('db, string list) reading" where
  "mo_GetAccountSubscriptions st accountId topicName db =
     get_all (\<lambda>d. sp_SubscriptionName (dec_subscription d)) st ''subscriptions'' (by_topic accountId topicName) None db"

text \<open>The product of the number and the size of the page is one of 64 bits.\<close>

definition mo_GetAccountSubscriptionsWithPage :: "page \<Rightarrow> 'db store \<Rightarrow> string \<Rightarrow> string \<Rightarrow> int \<Rightarrow> int \<Rightarrow> ('db, string list) reading" where
  "mo_GetAccountSubscriptionsWithPage page st accountId topicName pageno pageSize db =
     (case st_find st ''subscriptions'' (by_topic accountId topicName) None db of
        Ok ds \<Rightarrow> Ok (map (\<lambda>d. sp_SubscriptionName (dec_subscription d))
          (page (sint (word_of_int (pageno * pageSize) :: 64 word)) pageSize ds))
      | Err e \<Rightarrow> Err e
      | Panic \<Rightarrow> Panic)"

definition mo_RemoveAccountSubscriptions :: "'db store \<Rightarrow> string \<Rightarrow> string \<Rightarrow> 'db \<Rightarrow> 'db" where
  "mo_RemoveAccountSubscriptions st accountId topicName db = snd (st_remove st ''subscriptions'' (by_topic accountId topicName) db)"

definition mongoAdaptor :: "page \<Rightarrow> 'db store \<Rightarrow> 'db adaptor" where
  "mongoAdaptor page st = \<lparr>an_GetQueueAttribute = mo_GetQueueAttribute st, an_AddQueue = mo_AddQueue st, an_UpdateQueue = mo_UpdateQueue st,
     an_RemoveQueue = mo_RemoveQueue st, an_GetAccountQueues = mo_GetAccountQueues st, an_RemoveAccountQueues = mo_RemoveAccountQueues st,
     an_GetTopic = mo_GetTopic st, an_AddTopic = mo_AddTopic st, an_UpdateTopic = mo_UpdateTopic st, an_RemoveTopic = mo_RemoveTopic st,
     an_GetAccountTopics = mo_GetAccountTopics st, an_RemoveAccountTopics = mo_RemoveAccountTopics st,
     an_GetSubscription = mo_GetSubscription st, an_AddSubscription = mo_AddSubscription st,
     an_UpdateSubscription = mo_UpdateSubscription st, an_RemoveSubscription = mo_RemoveSubscription st,
     an_GetAccountSubscriptions = mo_GetAccountSubscriptions st,
     an_GetAccountSubscriptionsWithPage = mo_GetAccountSubscriptionsWithPage page st,
     an_RemoveAccountSubscriptions = mo_RemoveAccountSubscriptions st\<rparr>"

definition newMongoAdaptor :: "(string \<Rightarrow> bool) \<Rightarrow> page \<Rightarrow> 'db store \<Rightarrow> config \<Rightarrow> (mns_error, 'db adaptor) outcome" where
  "newMongoAdaptor dial page st c = (case MustString ''mongo'' c of
      Ok addr \<Rightarrow> if dial addr then Ok (mongoAdaptor page st) else Err (EDb ErrServer)
    | _ \<Rightarrow> Panic)"

subsection \<open>State\<close>

record mail =
  ml_host :: string
  ml_port :: int
  ml_account :: string
  ml_pwd :: string
  ml_from :: string
  ml_to :: string
  ml_subject :: string
  ml_content :: string
  ml_type :: string

record mailAttribute =
  mt_AccountName :: string
  mt_Subject :: string
  mt_AddressType :: byte
  mt_IsHtml :: byte
  mt_ReplyToAddress :: byte

record smsAttribute =
  sa_FreeSignName :: string
  sa_TemplateCode :: string
  sa_Type :: string
  sa_Receiver :: string
  sa_Params :: string

record ('db, 'k, 'w) mns_state =
  ms_db :: 'db
  ms_kafka :: 'k
  ms_mail :: 'w
  ms_tick :: nat

record ('k, 'w) mns_deps =
  md_kafka :: "'k kafka"
  md_now :: "nat \<Rightarrow> int"
  md_json :: "QueueMessage \<Rightarrow> json"
  md_mailAttribute :: "attributes \<Rightarrow> mailAttribute option"
  md_smsAttribute :: "attributes \<Rightarrow> smsAttribute option"
  md_DialAndSend :: "mail \<Rightarrow> 'w \<Rightarrow> bool \<times> 'w"

type_synonym ('db, 'k, 'w, 'a) mns = "(('db, 'k, 'w) mns_state, mns_error, 'a) go"

definition mns_Now :: "('k, 'w) mns_deps \<Rightarrow> ('db, 'k, 'w, int) mns" where
  "mns_Now d s = (Ok (md_now d (ms_tick s)), s\<lparr>ms_tick := Suc (ms_tick s)\<rparr>)"

definition mns_read :: "('db, 'a) reading \<Rightarrow> ('db, 'k, 'w, 'a) mns" where
  "mns_read r s = (case r (ms_db s) of Ok x \<Rightarrow> (Ok x, s) | Err e \<Rightarrow> (Err (EDb e), s) | Panic \<Rightarrow> (Panic, s))"

definition mns_write :: "'db writing \<Rightarrow> ('db, 'k, 'w, unit) mns" where
  "mns_write w s = (case w (ms_db s) of
      (Ok _, db) \<Rightarrow> (Ok (), s\<lparr>ms_db := db\<rparr>) | (Err e, db) \<Rightarrow> (Err (EDb e), s\<lparr>ms_db := db\<rparr>) | (Panic, db) \<Rightarrow> (Panic, s\<lparr>ms_db := db\<rparr>))"

text \<open>\<^verbatim>\<open>PostMessage\<close> of a queue message: with a configuration that is nil, reading it panics.\<close>

definition post :: "('k, 'w) mns_deps \<Rightarrow> config option \<Rightarrow> QueueMessage list \<Rightarrow> ('db, 'k, 'w, unit) mns" where
  "post d c msgs s = (case c of
      None \<Rightarrow> (Panic, s)
    | Some c' \<Rightarrow> (case newKafkaProducer (md_kafka d) c' [] False (ms_kafka s) of
        Ok p \<Rightarrow> (Ok (), s\<lparr>ms_kafka := foldl (\<lambda>k m. kf_input (md_kafka d) (qm_TopicName m, md_json d m) k) (ms_kafka s) msgs\<rparr>)
      | _ \<Rightarrow> (Ok (), s)))"

subsection \<open>Queues\<close>

record kafkaQueue =
  kq_queueName :: string
  kq_config :: "config option"
  kq_attribute :: QueueAttribute

text \<open>The constructor uses none of its arguments.\<close>

definition newKafkaQueue :: "config \<Rightarrow> QueueAttribute \<Rightarrow> 'db adaptor \<Rightarrow> kafkaQueue" where
  "newKafkaQueue c attr adaptor = \<lparr>kq_queueName = [], kq_config = None, kq_attribute = zero_queue\<rparr>"

definition NewQueue :: "config \<Rightarrow> QueueAttribute \<Rightarrow> 'db adaptor \<Rightarrow> kafkaQueue" where
  "NewQueue c attr adaptor = newKafkaQueue c attr adaptor"

definition q_SendMessage :: "('k, 'w) mns_deps \<Rightarrow> kafkaQueue \<Rightarrow> QueueMessage \<Rightarrow> ('db, 'k, 'w, unit) mns" where
  "q_SendMessage d q msg = post d (kq_config q) [msg]"

definition q_BatchSendMessage :: "('k, 'w) mns_deps \<Rightarrow> kafkaQueue \<Rightarrow> QueueMessage list \<Rightarrow> ('db, 'k, 'w, unit) mns" where
  "q_BatchSendMessage d q msgs = post d (kq_config q) msgs"

definition q_CreateMessage :: "kafkaQueue \<Rightarrow> string \<Rightarrow> QueueMessage option" where
  "q_CreateMessage q topic = (if topic = kq_queueName q then Some (zero_message\<lparr>qm_TopicName := kq_queueName q\<rparr>) else None)"

text \<open>
  Receiving: the handler of the messages does nothing, so that nothing ever comes through the channel and the timer ends the wait. Its
  error goes to the variable of the inner scope: the result is the zero value without an error.
\<close>

definition q_ReceiveMessage :: "kafkaQueue \<Rightarrow> int \<Rightarrow> ('db, 'k, 'w, QueueMessage) mns" where
  "q_ReceiveMessage q ws s = (case kq_config q of None \<Rightarrow> (Panic, s) | Some c \<Rightarrow> (Ok zero_message, s))"

definition q_BatchReceiveMessages :: "kafkaQueue \<Rightarrow> int \<Rightarrow> int \<Rightarrow> ('db, 'k, 'w, QueueMessage list) mns" where
  "q_BatchReceiveMessages q ws numOfMessages s = (case kq_config q of None \<Rightarrow> (Panic, s) | Some c \<Rightarrow> (Ok [], s))"

definition q_DeleteMessage :: "kafkaQueue \<Rightarrow> string \<Rightarrow> ('db, 'k, 'w, unit) mns" where
  "q_DeleteMessage q handle = retM ()"

definition q_BatchDeleteMessages :: "kafkaQueue \<Rightarrow> string list \<Rightarrow> ('db, 'k, 'w, unit) mns" where
  "q_BatchDeleteMessages q handles = retM ()"

definition q_PeekMessage :: "kafkaQueue \<Rightarrow> int \<Rightarrow> ('db, 'k, 'w, QueueMessage) mns" where
  "q_PeekMessage q ws = retM zero_message"

definition q_BatchPeekMessages :: "kafkaQueue \<Rightarrow> int \<Rightarrow> int \<Rightarrow> ('db, 'k, 'w, QueueMessage list) mns" where
  "q_BatchPeekMessages q ws numOfMessages = retM []"

definition q_SetMessageVisibility :: "kafkaQueue \<Rightarrow> string \<Rightarrow> int \<Rightarrow> ('db, 'k, 'w, unit) mns" where
  "q_SetMessageVisibility q handle seconds = retM ()"

subsection \<open>Endpoints\<close>

record EndpointAttribute =
  ea_Name :: string
  ea_Type :: string
  ea_URI :: string
  ea_CreatedAt :: int
  ea_LastModifiedAt :: int

datatype Endpoint =
    httpEndpoint string EndpointAttribute
  | queueEndpoint config string string EndpointAttribute
  | mailEndpoint config string EndpointAttribute
  | smsEndpoint config string EndpointAttribute

fun GetAttribute :: "Endpoint \<Rightarrow> EndpointAttribute" where
  "GetAttribute (httpEndpoint _ a) = a"
| "GetAttribute (queueEndpoint _ _ _ a) = a"
| "GetAttribute (mailEndpoint _ _ a) = a"
| "GetAttribute (smsEndpoint _ _ a) = a"

definition endpoint_attribute :: "('k, 'w) mns_deps \<Rightarrow> string \<Rightarrow> string \<Rightarrow> ('db, 'k, 'w, EndpointAttribute) mns" where
  "endpoint_attribute d uri kind = seqM (mns_Now d) (\<lambda>created. seqM (mns_Now d) (\<lambda>modified.
     retM \<lparr>ea_Name = uri, ea_Type = kind, ea_URI = uri, ea_CreatedAt = created, ea_LastModifiedAt = modified\<rparr>))"

definition newHttpEndpoint :: "('k, 'w) mns_deps \<Rightarrow> config \<Rightarrow> Subscription \<Rightarrow> ('db, 'k, 'w, Endpoint) mns" where
  "newHttpEndpoint d c p = seqM (endpoint_attribute d (sp_Endpoint p) ''http'') (\<lambda>a. retM (httpEndpoint (sp_Endpoint p) a))"

text \<open>A queue's address: where it is well formed the error value is set to nil, and \<^verbatim>\<open>With\<close> writes through it.\<close>

definition parseQueueScheme :: "string \<Rightarrow> (mns_error, string \<times> string) outcome" where
  "parseQueueScheme uri = (case split_on (CHR '':'') uri of
      [_, accountId, rest] \<Rightarrow> (case split_on (CHR ''/'') rest of
          [_, queueName] \<Rightarrow> Panic
        | _ \<Rightarrow> Err (EMns ErrInvalidArgument))
    | _ \<Rightarrow> Err (EMns ErrInvalidArgument))"

definition newQueueEndpoint :: "('k, 'w) mns_deps \<Rightarrow> config \<Rightarrow> Subscription \<Rightarrow> ('db, 'k, 'w, Endpoint) mns" where
  "newQueueEndpoint d c p s = (case parseQueueScheme (sp_Endpoint p) of
      Panic \<Rightarrow> (Panic, s)
    | Err e \<Rightarrow> seqM (endpoint_attribute d (sp_Endpoint p) ''mns'') (\<lambda>_. errM e) s
    | Ok (accountId, queueName) \<Rightarrow>
        seqM (endpoint_attribute d (sp_Endpoint p) ''mns'') (\<lambda>a. retM (queueEndpoint c accountId queueName a)) s)"

definition newMailEndpoint :: "('k, 'w) mns_deps \<Rightarrow> config \<Rightarrow> Subscription \<Rightarrow> ('db, 'k, 'w, Endpoint) mns" where
  "newMailEndpoint d c p = seqM (endpoint_attribute d (sp_Endpoint p) ''mail'') (\<lambda>a. retM (mailEndpoint c (sp_Endpoint p) a))"

definition newSMSEndpoint :: "('k, 'w) mns_deps \<Rightarrow> config \<Rightarrow> Subscription \<Rightarrow> ('db, 'k, 'w, Endpoint) mns" where
  "newSMSEndpoint d c p = seqM (endpoint_attribute d (sp_Endpoint p) ''sms'') (\<lambda>a. retM (smsEndpoint c (sp_Endpoint p) a))"

definition NewEndpoint :: "('k, 'w) mns_deps \<Rightarrow> config \<Rightarrow> Subscription \<Rightarrow> ('db, 'k, 'w, Endpoint) mns" where
  "NewEndpoint d c p = (let scheme = hd (split_on (CHR '':'') (sp_Endpoint p)) in
     if scheme = ''http'' then newHttpEndpoint d c p
     else if scheme = ''mns'' then newQueueEndpoint d c p
     else if scheme = ''mail'' then newMailEndpoint d c p
     else if scheme = ''sms'' then newSMSEndpoint d c p
     else errM (EMns ErrInvalidArgument))"

text \<open>A setting whose error is not looked at.\<close>

definition setting :: "(cfg_error, 'a) outcome \<Rightarrow> 'a \<Rightarrow> 'a" where
  "setting r zero = (case r of Ok v \<Rightarrow> v | _ \<Rightarrow> zero)"

lemma setting_Ok: "setting (Ok v) zero = v"
  by (simp add: setting_def)

definition sendMail :: "('k, 'w) mns_deps \<Rightarrow> config \<Rightarrow> string \<Rightarrow> string \<Rightarrow> string \<Rightarrow> string \<Rightarrow> ('db, 'k, 'w, unit) mns" where
  "sendMail d c addr subject content contentType s =
     (let host = setting (StringWithSection ''email'' ''host'' c) []; port = setting (IntWithSection ''email'' ''port'' c) 0;
          account = setting (StringWithSection ''email'' ''account'' c) []; pwd = setting (StringWithSection ''email'' ''pwd'' c) [];
          from' = setting (StringWithSection ''email'' ''from'' c) [] in
      if host = [] \<or> port < 0 \<or> account = [] \<or> pwd = [] \<or> from' = [] then (Err (EMns ErrInvalidArgument), s)
      else case md_DialAndSend d \<lparr>ml_host = host, ml_port = port, ml_account = account, ml_pwd = pwd, ml_from = from', ml_to = addr,
             ml_subject = subject, ml_content = content, ml_type = contentType\<rparr> (ms_mail s) of
        (sent, w) \<Rightarrow> (if sent then Ok () else Err EMail, s\<lparr>ms_mail := w\<rparr>))"

text \<open>The parameters are unmarshalled into a map that is not a pointer, which is an error whatever they are: nothing is ever sent.\<close>

definition sendSMS :: "config \<Rightarrow> string \<Rightarrow> smsAttribute \<Rightarrow> ('db, 'k, 'w, unit) mns" where
  "sendSMS c addr attr =
     (let appid = setting (StringWithSection ''sms'' ''appid'' c) []; appkey = setting (StringWithSection ''sms'' ''appkey'' c) [];
          signtype = setting (StringWithSection ''sms'' ''signtype'' c) [] in
      if appid = [] \<or> appkey = [] \<or> signtype = [] then errM ESmsConfig else errM (EMns ErrInvalidArgument))"

definition bad_mail :: "mailAttribute \<Rightarrow> bool" where
  "bad_mail a \<longleftrightarrow> mt_AccountName a = [] \<or> mt_Subject a = [] \<or> mt_AddressType a > 1 \<or> mt_IsHtml a > 1 \<or> mt_ReplyToAddress a > 1"

definition bad_sms :: "smsAttribute \<Rightarrow> bool" where
  "bad_sms a \<longleftrightarrow> sa_FreeSignName a = [] \<or> sa_TemplateCode a = [] \<or> (sa_Type a \<noteq> ''singleContent'' \<and> sa_Type a \<noteq> ''multiContent'') \<or> sa_Params a = []"

fun PushMessage :: "('k, 'w) mns_deps \<Rightarrow> Endpoint \<Rightarrow> bytes \<Rightarrow> string \<Rightarrow> attributes \<Rightarrow> ('db, 'k, 'w, unit) mns" where
  "PushMessage d (httpEndpoint _ _) body tag attrs s = (Ok (), s)"
| "PushMessage d (queueEndpoint c accountId queueName _) body tag attrs s =
     post d (Some c) [zero_message\<lparr>qm_TopicName := ''mns-queues-'' @ accountId @ ''-'' @ queueName, qm_MessageBody := body,
       qm_MessageTag := tag, qm_Attributes := attrs\<rparr>] s"
| "PushMessage d (mailEndpoint c toaddr _) body tag attrs s = (case md_mailAttribute d attrs of
      None \<Rightarrow> (Err (EMns ErrInvalidArgument), s)
    | Some attr \<Rightarrow>
        (if bad_mail attr then (Err (EMns ErrInvalidArgument), s)
         else sendMail d c toaddr (mt_Subject attr) (string_of_bytes body) ''html'' s))"
| "PushMessage d (smsEndpoint c addr _) body tag attrs s = (case md_smsAttribute d attrs of
      None \<Rightarrow> (Err (EMns ErrInvalidArgument), s)
    | Some attr \<Rightarrow> (if bad_sms attr then (Err (EMns ErrInvalidArgument), s) else sendSMS c addr attr s))"

subsection \<open>The manager\<close>

record 'db manager =
  mg_config :: config
  mg_adaptor :: "'db adaptor option"

definition NewManager :: "config \<Rightarrow> (mns_error, 'db manager) outcome" where
  "NewManager c = (case NewAdaptor c of
      Ok a \<Rightarrow> Ok \<lparr>mg_config = c, mg_adaptor = a\<rparr> | Err e \<Rightarrow> Err e | Panic \<Rightarrow> Panic)"

text \<open>A call through an adaptor that is nil panics.\<close>

definition on_adaptor :: "'db manager \<Rightarrow> ('db adaptor \<Rightarrow> ('db, 'k, 'w, 'a) mns) \<Rightarrow> ('db, 'k, 'w, 'a) mns" where
  "on_adaptor m f = (case mg_adaptor m of None \<Rightarrow> panicM | Some a \<Rightarrow> f a)"

text \<open>A queue whose attribute is not found: the error of the inner scope is lost, and the result is no queue and no error.\<close>

definition mg_GetQueue :: "'db manager \<Rightarrow> string \<Rightarrow> string \<Rightarrow> ('db, 'k, 'w, kafkaQueue option) mns" where
  "mg_GetQueue m accountId queueName = on_adaptor m (\<lambda>a s. case an_GetQueueAttribute a accountId queueName (ms_db s) of
      Ok attr \<Rightarrow> (Ok (Some (NewQueue (mg_config m) attr a)), s)
    | Err _ \<Rightarrow> (Ok None, s)
    | Panic \<Rightarrow> (Panic, s))"

text \<open>An operation on a queue: a queue that is nil panics.\<close>

definition on_queue :: "'db manager \<Rightarrow> string \<Rightarrow> string \<Rightarrow> (kafkaQueue \<Rightarrow> ('db, 'k, 'w, 'a) mns) \<Rightarrow> ('db, 'k, 'w, 'a) mns" where
  "on_queue m accountId queueName f = seqM (mg_GetQueue m accountId queueName) (\<lambda>q. case q of None \<Rightarrow> panicM | Some queue \<Rightarrow> f queue)"

definition mg_CreateQueue :: "('k, 'w) mns_deps \<Rightarrow> 'db manager \<Rightarrow> string \<Rightarrow> string \<Rightarrow> ('db, 'k, 'w, QueueAttribute) mns" where
  "mg_CreateQueue d m accountId queueName = seqM (mns_Now d) (\<lambda>created. seqM (mns_Now d) (\<lambda>modified.
     let attr = zero_queue\<lparr>qa_QueueName := queueName, qa_CreateTime := created, qa_LastModifyTime := modified\<rparr> in
     on_adaptor m (\<lambda>a. seqM (mns_write (an_AddQueue a accountId queueName attr)) (\<lambda>_. retM attr))))"

definition mg_DeleteQueue :: "'db manager \<Rightarrow> string \<Rightarrow> string \<Rightarrow> ('db, 'k, 'w, unit) mns" where
  "mg_DeleteQueue m accountId queueName = on_adaptor m (\<lambda>a. mns_write (an_RemoveQueue a accountId queueName))"

definition mg_GetQueues :: "'db manager \<Rightarrow> string \<Rightarrow> ('db, 'k, 'w, string list) mns" where
  "mg_GetQueues m accountId = on_adaptor m (\<lambda>a s. (Ok (an_GetAccountQueues a accountId (ms_db s)), s))"

definition mg_SetQueueAttribute :: "'db manager \<Rightarrow> string \<Rightarrow> string \<Rightarrow> QueueAttribute \<Rightarrow> ('db, 'k, 'w, unit) mns" where
  "mg_SetQueueAttribute m accountId queueName attr = on_adaptor m (\<lambda>a. mns_write (an_UpdateQueue a accountId queueName attr))"

definition mg_GetQueueAttribute :: "'db manager \<Rightarrow> string \<Rightarrow> string \<Rightarrow> ('db, 'k, 'w, QueueAttribute) mns" where
  "mg_GetQueueAttribute m accountId queueName = on_adaptor m (\<lambda>a. mns_read (an_GetQueueAttribute a accountId queueName))"

definition mg_SendQueueMessage :: "('k, 'w) mns_deps \<Rightarrow> 'db manager \<Rightarrow> string \<Rightarrow> string \<Rightarrow> QueueMessage \<Rightarrow> ('db, 'k, 'w, unit) mns" where
  "mg_SendQueueMessage d m accountId queueName msg = on_queue m accountId queueName (\<lambda>q. q_SendMessage d q msg)"

definition mg_BatchSendQueueMessage :: "('k, 'w) mns_deps \<Rightarrow> 'db manager \<Rightarrow> string \<Rightarrow> string \<Rightarrow> QueueMessage list \<Rightarrow> ('db, 'k, 'w, unit) mns" where
  "mg_BatchSendQueueMessage d m accountId queueName msgs = on_queue m accountId queueName (\<lambda>q. q_BatchSendMessage d q msgs)"

definition mg_ReceiveQueueMessage :: "'db manager \<Rightarrow> string \<Rightarrow> string \<Rightarrow> int \<Rightarrow> ('db, 'k, 'w, QueueMessage) mns" where
  "mg_ReceiveQueueMessage m accountId queueName ws = on_queue m accountId queueName (\<lambda>q. q_ReceiveMessage q ws)"

definition mg_BatchReceiveQueueMessages :: "'db manager \<Rightarrow> string \<Rightarrow> string \<Rightarrow> int \<Rightarrow> int \<Rightarrow> ('db, 'k, 'w, QueueMessage list) mns" where
  "mg_BatchReceiveQueueMessages m accountId queueName ws numOfMessages =
     on_queue m accountId queueName (\<lambda>q. q_BatchReceiveMessages q ws numOfMessages)"

definition mg_DeleteQueueMessage :: "'db manager \<Rightarrow> string \<Rightarrow> string \<Rightarrow> string \<Rightarrow> ('db, 'k, 'w, unit) mns" where
  "mg_DeleteQueueMessage m accountId queueName handle = on_queue m accountId queueName (\<lambda>q. q_DeleteMessage q handle)"

definition mg_BatchDeleteQueueMessages :: "'db manager \<Rightarrow> string \<Rightarrow> string \<Rightarrow> string list \<Rightarrow> ('db, 'k, 'w, unit) mns" where
  "mg_BatchDeleteQueueMessages m accountId queueName handles = on_queue m accountId queueName (\<lambda>q. q_BatchDeleteMessages q handles)"

definition mg_PeekQueueMessage :: "'db manager \<Rightarrow> string \<Rightarrow> string \<Rightarrow> int \<Rightarrow> ('db, 'k, 'w, QueueMessage) mns" where
  "mg_PeekQueueMessage m accountId queueName ws = on_queue m accountId queueName (\<lambda>q. q_PeekMessage q ws)"

definition mg_BatchPeekQueueMessages :: "'db manager \<Rightarrow> string \<Rightarrow> string \<Rightarrow> int \<Rightarrow> int \<Rightarrow> ('db, 'k, 'w, QueueMessage list) mns" where
  "mg_BatchPeekQueueMessages m accountId queueName ws numOfMessages = on_queue m accountId queueName (\<lambda>q. q_BatchPeekMessages q ws numOfMessages)"

definition mg_SetQueueMessageVisibility :: "'db manager \<Rightarrow> string \<Rightarrow> string \<Rightarrow> string \<Rightarrow> int \<Rightarrow> ('db, 'k, 'w, unit) mns" where
  "mg_SetQueueMessageVisibility m accountId queueName handle seconds = on_queue m accountId queueName (\<lambda>q. q_SetMessageVisibility q handle seconds)"

definition mg_CreateTopic :: "('k, 'w) mns_deps \<Rightarrow> 'db manager \<Rightarrow> string \<Rightarrow> string \<Rightarrow> ('db, 'k, 'w, MnsTopic) mns" where
  "mg_CreateTopic d m accountId topicName = seqM (mns_Now d) (\<lambda>created. seqM (mns_Now d) (\<lambda>modified.
     let topicAttr = \<lparr>tc_AccountId = [], tc_TopicName = topicName, tc_CreatedAt = created, tc_LastModifiedAt = modified,
           tc_MaximumMessageSize = 256, tc_MessageRetentionPeriod = 0, tc_LogginEnabled = False\<rparr> in
     on_adaptor m (\<lambda>a. seqM (mns_write (an_AddTopic a accountId topicName topicAttr)) (\<lambda>_. retM topicAttr))))"

definition mg_GetTopic :: "'db manager \<Rightarrow> string \<Rightarrow> string \<Rightarrow> ('db, 'k, 'w, MnsTopic) mns" where
  "mg_GetTopic m accountId topicName = on_adaptor m (\<lambda>a. mns_read (an_GetTopic a accountId topicName))"

definition mg_DeleteTopic :: "'db manager \<Rightarrow> string \<Rightarrow> string \<Rightarrow> ('db, 'k, 'w, unit) mns" where
  "mg_DeleteTopic m accountId topicName = on_adaptor m (\<lambda>a. mns_write (an_RemoveTopic a accountId topicName))"

definition mg_ListTopics :: "'db manager \<Rightarrow> string \<Rightarrow> ('db, 'k, 'w, string list) mns" where
  "mg_ListTopics m account = on_adaptor m (\<lambda>a s. (Ok (an_GetAccountTopics a account (ms_db s)), s))"

definition mg_SetTopic :: "'db manager \<Rightarrow> string \<Rightarrow> string \<Rightarrow> MnsTopic \<Rightarrow> ('db, 'k, 'w, unit) mns" where
  "mg_SetTopic m accountId topicName topic = on_adaptor m (\<lambda>a. mns_write (an_UpdateTopic a accountId topicName topic))"

definition mg_SetSubscription :: "'db manager \<Rightarrow> string \<Rightarrow> string \<Rightarrow> string \<Rightarrow> Subscription \<Rightarrow> ('db, 'k, 'w, unit) mns" where
  "mg_SetSubscription m accountId topicName subscriptionName subscription =
     on_adaptor m (\<lambda>a. mns_write (an_UpdateSubscription a accountId topicName subscriptionName subscription))"

definition mg_GetSubscription :: "'db manager \<Rightarrow> string \<Rightarrow> string \<Rightarrow> string \<Rightarrow> ('db, 'k, 'w, Subscription) mns" where
  "mg_GetSubscription m accountId topicName subscriptionName =
     on_adaptor m (\<lambda>a. mns_read (an_GetSubscription a accountId topicName subscriptionName))"

definition mg_Subscribe :: "('k, 'w) mns_deps \<Rightarrow> 'db manager \<Rightarrow> string \<Rightarrow> string \<Rightarrow> string \<Rightarrow> string \<Rightarrow> string \<Rightarrow> string \<Rightarrow> string \<Rightarrow> ('db, 'k, 'w, unit) mns" where
  "mg_Subscribe d m accountId topicName subscriptionName endpoint filterTag notifyStrategy notifyContentFormat =
     seqM (mns_Now d) (\<lambda>created. seqM (mns_Now d) (\<lambda>modified.
       let attr = zero_subscription\<lparr>sp_TopicName := topicName, sp_SubscriptionName := subscriptionName, sp_Endpoint := endpoint,
             sp_FilterTag := filterTag, sp_NotifyStrategy := notifyStrategy, sp_NotifyContentFormat := notifyContentFormat,
             sp_CreatedAt := created, sp_LastModifiedAt := modified\<rparr> in
       on_adaptor m (\<lambda>a. mns_write (an_AddSubscription a accountId topicName attr))))"

definition mg_Unsubscribe :: "'db manager \<Rightarrow> string \<Rightarrow> string \<Rightarrow> string \<Rightarrow> ('db, 'k, 'w, unit) mns" where
  "mg_Unsubscribe m accountId topicName subscriptionName =
     on_adaptor m (\<lambda>a. mns_write (an_RemoveSubscription a accountId topicName subscriptionName))"

text \<open>A subscription that cannot be read is the zero value.\<close>

definition subscription_or_zero :: "'db adaptor \<Rightarrow> string \<Rightarrow> string \<Rightarrow> 'db \<Rightarrow> string \<Rightarrow> Subscription" where
  "subscription_or_zero a accountId topicName db name = (case an_GetSubscription a accountId topicName name db of Ok p \<Rightarrow> p | _ \<Rightarrow> zero_subscription)"

definition mg_ListTopicSubscriptions :: "'db manager \<Rightarrow> string \<Rightarrow> string \<Rightarrow> int \<Rightarrow> int \<Rightarrow> ('db, 'k, 'w, Subscription list) mns" where
  "mg_ListTopicSubscriptions m accountId topicName pageno pageSize = on_adaptor m (\<lambda>a.
     seqM (mns_read (an_GetAccountSubscriptionsWithPage a accountId topicName pageno pageSize))
       (\<lambda>names s. (Ok (map (subscription_or_zero a accountId topicName (ms_db s)) names), s)))"

fun push_all :: "('k, 'w) mns_deps \<Rightarrow> config \<Rightarrow> bytes \<Rightarrow> string \<Rightarrow> attributes \<Rightarrow> Subscription list \<Rightarrow> ('db, 'k, 'w, unit) mns" where
  "push_all d c body tag attrs [] s = (Ok (), s)"
| "push_all d c body tag attrs (p # ps) s = (case NewEndpoint d c p s of
      (Panic, t) \<Rightarrow> (Panic, t)
    | (Err _, t) \<Rightarrow> push_all d c body tag attrs ps t
    | (Ok endpoint, t) \<Rightarrow> (case PushMessage d endpoint body tag attrs t of
        (Panic, u) \<Rightarrow> (Panic, u)
      | (_, u) \<Rightarrow> push_all d c body tag attrs ps u))"

definition mg_PublishMessage :: "('k, 'w) mns_deps \<Rightarrow> 'db manager \<Rightarrow> string \<Rightarrow> string \<Rightarrow> bytes \<Rightarrow> string \<Rightarrow> attributes \<Rightarrow> ('db, 'k, 'w, unit) mns" where
  "mg_PublishMessage d m accountId topicName body tag attrs = on_adaptor m (\<lambda>a.
     seqM (mns_read (an_GetAccountSubscriptions a accountId topicName))
       (\<lambda>names s. push_all d (mg_config m) body tag attrs (map (subscription_or_zero a accountId topicName (ms_db s)) names) s))"

subsection \<open>Queues are lost\<close>

lemma map_of_unless [simp]: "map_of (unless_zero z k v) j = (if j = k \<and> \<not> z then Some v else None)"
  by (simp add: unless_zero_def)

lemma enc_queue_no_account: "map_of (enc_queue a) ''AccountId'' = None"
  by (simp add: enc_queue_def map_add_def)

definition queue_documents :: "'db contents \<Rightarrow> 'db \<Rightarrow> bool" where
  "queue_documents contents db \<longleftrightarrow> (\<forall>e \<in># contents db ''queues''. \<exists>a. e = enc_queue a)"

lemma account_matches_none:
  assumes "queue_documents contents db"
  shows "filter_mset (matches ((''AccountId'', v) # q)) (contents db ''queues'') = {#}"
proof -
  have "\<not> matches ((''AccountId'', v) # q) (enc_queue a)" for a by (simp add: matches_def enc_queue_no_account)
  then show ?thesis using assms unfolding queue_documents_def filter_mset_none by metis
qed

definition mongo_manager :: "page \<Rightarrow> 'db store \<Rightarrow> config \<Rightarrow> 'db manager" where
  "mongo_manager page st c = \<lparr>mg_config = c, mg_adaptor = Some (mongoAdaptor page st)\<rparr>"

lemmas mongo_defs = mongo_manager_def mongoAdaptor_def on_adaptor_def mns_read_def mns_write_def

text \<open>Over the database a queue that was created is lost: its attributes are not found, it cannot be changed or deleted, it is in no list of
  queues, and sending to it or receiving from it panics. The account of a queue is stored under another name than the one it is looked for
  with.\<close>

theorem created_queue_is_lost:
  assumes "store_laws st contents uniq" "queue_documents contents (ms_db s)"
    "mg_CreateQueue d (mongo_manager page st c) accountId queueName s = (Ok attr, t)"
  shows "mg_GetQueueAttribute (mongo_manager page st c) accountId queueName t = (Err (EDb ErrNotFound), t) \<and>
    mg_SetQueueAttribute (mongo_manager page st c) accountId queueName attr t = (Err (EDb ErrNotFound), t) \<and>
    mg_DeleteQueue (mongo_manager page st c) accountId queueName t = (Err (EDb ErrNotFound), t) \<and>
    mg_GetQueues (mongo_manager page st c) accountId t = (Ok [], t) \<and>
    mg_SendQueueMessage d (mongo_manager page st c) accountId queueName msg t = (Panic, t) \<and>
    mg_ReceiveQueueMessage (mongo_manager page st c) accountId queueName ws t = (Panic, t)"
proof -
  obtain q where "st_insert st ''queues'' (enc_queue q) (ms_db s) = (Ok (), ms_db t)"
    using assms(3) by (auto simp: mg_CreateQueue_def seqM_def mns_Now_def Let_def mongo_defs mo_AddQueue_def split: prod.splits outcome.splits)
  from insert_adds [OF assms(1), OF this] have "queue_documents contents (ms_db t)"
    using assms(2) by (auto simp: queue_documents_def)
  note none = find_nothing [OF assms(1), OF account_matches_none [OF this]]
  show ?thesis
    by (simp add: mg_GetQueueAttribute_def mg_SetQueueAttribute_def mg_DeleteQueue_def mg_GetQueues_def mg_SendQueueMessage_def mg_ReceiveQueueMessage_def
      on_queue_def mg_GetQueue_def mongo_defs mo_GetQueueAttribute_def mo_UpdateQueue_def mo_RemoveQueue_def mo_GetAccountQueues_def by_queue_def
      of_account_def get_one_def get_all_def all_or_none_def none seqM_def)
qed

subsection \<open>Topics and subscriptions\<close>

lemma b_word_read:
  "map_of d k = Some (BInt (uint w)) \<Longrightarrow> b_word k d = (w :: 'w::len word)"
  by (simp add: b_word_def)

lemma dec_enc_topic: "dec_topic (enc_topic t) = t\<lparr>tc_CreatedAt := to_millis (tc_CreatedAt t), tc_LastModifiedAt := to_millis (tc_LastModifiedAt t)\<rparr>"
  by (simp add: dec_topic_def enc_topic_def b_str_def b_time_def b_bool_def b_word_read e_time_def to_millis_def)

lemma topic_matches: "matches (by_topic a n) (enc_topic t) \<longleftrightarrow> tc_AccountId t = a \<and> tc_TopicName t = n"
  by (auto simp: by_topic_def enc_topic_def)

text \<open>A topic that was created is found, deleted and then not found any more: its fields are those of its creation, with its account, the times cut
  to milliseconds.\<close>

theorem topic_life:
  assumes "store_laws st contents uniq" "filter_mset (matches (by_topic accountId topicName)) (contents (ms_db s) ''topics'') = {#}"
    "mg_CreateTopic d (mongo_manager page st c) accountId topicName s = (Ok topic, t)"
  shows "mg_GetTopic (mongo_manager page st c) accountId topicName t = (Ok (topic\<lparr>tc_AccountId := accountId,
      tc_CreatedAt := to_millis (tc_CreatedAt topic), tc_LastModifiedAt := to_millis (tc_LastModifiedAt topic)\<rparr>), t) \<and>
    (\<exists>u. mg_DeleteTopic (mongo_manager page st c) accountId topicName t = (Ok (), u) \<and>
       mg_GetTopic (mongo_manager page st c) accountId topicName u = (Err (EDb ErrNotFound), u))"
proof -
  let ?t = "topic\<lparr>tc_AccountId := accountId, tc_TopicName := topicName\<rparr>"
  have ins: "st_insert st ''topics'' (enc_topic ?t) (ms_db s) = (Ok (), ms_db t)" and name: "tc_TopicName topic = topicName"
    using assms(3) by (auto simp: mg_CreateTopic_def seqM_def mns_Now_def Let_def mongo_defs mo_AddTopic_def split: prod.splits outcome.splits)
  have one: "filter_mset (matches (by_topic accountId topicName)) (contents (ms_db t) ''topics'') = {#enc_topic ?t#}"
    by (simp only: insert_adds [OF assms(1), OF ins] fun_upd_same filter_mset_add_mset topic_matches assms(2)) simp
  have got: "mg_GetTopic (mongo_manager page st c) accountId topicName t = (Ok (dec_topic (enc_topic ?t)), t)"
    by (simp add: mg_GetTopic_def mongo_defs mo_GetTopic_def get_one_def find_one_unique [OF assms(1), OF one])
  have "\<exists>u. mg_DeleteTopic (mongo_manager page st c) accountId topicName t = (Ok (), u) \<and>
       mg_GetTopic (mongo_manager page st c) accountId topicName u = (Err (EDb ErrNotFound), u)"
  proof (rule remove_cases [OF assms(1), of "''topics''" "by_topic accountId topicName" "ms_db t"])
    assume "filter_mset (matches (by_topic accountId topicName)) (contents (ms_db t) ''topics'') = {#}"
    then show ?thesis using one by (simp only: add_mset_not_empty)
  next
    fix db' e assume gone: "st_remove st ''topics'' (by_topic accountId topicName) (ms_db t) = (Ok (), db')" "e \<in># contents (ms_db t) ''topics''"
      "matches (by_topic accountId topicName) e" "contents db' = (contents (ms_db t))(''topics'' := contents (ms_db t) ''topics'' - {#e#})"
    have "size (filter_mset (matches (by_topic accountId topicName)) (contents (ms_db t) ''topics'')) \<le> 1" by (simp only: one size_single order_refl)
    from filter_remove_only [OF this gone(2,3)]
    have "filter_mset (matches (by_topic accountId topicName)) (contents db' ''topics'') = {#}" by (simp only: gone(4) fun_upd_same)
    from find_nothing(2) [OF assms(1), OF this] show ?thesis
      by (simp add: mg_DeleteTopic_def mg_GetTopic_def mongo_defs mo_RemoveTopic_def mo_GetTopic_def get_one_def gone(1))
  qed
  with got name show ?thesis by (simp add: dec_enc_topic)
qed

definition subscription_documents :: "'db contents \<Rightarrow> 'db \<Rightarrow> bool" where
  "subscription_documents contents db \<longleftrightarrow> (\<forall>e \<in># contents db ''subscriptions''. \<exists>p. e = enc_subscription p)"

text \<open>A subscription cannot be cancelled: over the database every attempt answers that there is no such subscription, and nothing
  changes. The name of the subscription is looked for under a name that no document has.\<close>

theorem subscription_stays:
  assumes "store_laws st contents uniq" "subscription_documents contents (ms_db s)"
  shows "mg_Unsubscribe (mongo_manager page st c) accountId topicName subscriptionName s = (Err (EDb ErrNotFound), s)"
proof -
  let ?q = "[(''AccountId'', BStr accountId), (''TopicName'', BStr topicName), (''subscriptionName'', BStr subscriptionName)]"
  have "\<not> matches ?q (enc_subscription p)" for p by (simp add: enc_subscription_def)
  then have "filter_mset (matches ?q) (contents (ms_db s) ''subscriptions'') = {#}"
    using assms(2) unfolding subscription_documents_def filter_mset_none by metis
  from find_nothing(3) [OF assms(1), OF this] show ?thesis
    by (simp add: mg_Unsubscribe_def mongo_defs mo_RemoveSubscription_def)
qed

subsection \<open>Publishing\<close>

definition queue_address :: "string \<Rightarrow> bool" where
  "queue_address uri \<longleftrightarrow> hd (split_on (CHR '':'') uri) = ''mns'' \<and> parseQueueScheme uri = Panic"

text \<open>The mail that a subscription gets for a message, if any.\<close>

definition mail_for :: "('k, 'w) mns_deps \<Rightarrow> config \<Rightarrow> bytes \<Rightarrow> attributes \<Rightarrow> Subscription \<Rightarrow> mail option" where
  "mail_for d c body attrs p =
     (if hd (split_on (CHR '':'') (sp_Endpoint p)) = ''mail''
      then (case md_mailAttribute d attrs of
          Some attr \<Rightarrow>
            (let host = setting (StringWithSection ''email'' ''host'' c) []; port = setting (IntWithSection ''email'' ''port'' c) 0;
                 account = setting (StringWithSection ''email'' ''account'' c) []; pwd = setting (StringWithSection ''email'' ''pwd'' c) [];
                 from' = setting (StringWithSection ''email'' ''from'' c) [] in
             if bad_mail attr \<or> host = [] \<or> port < 0 \<or> account = [] \<or> pwd = [] \<or> from' = [] then None
             else Some \<lparr>ml_host = host, ml_port = port, ml_account = account, ml_pwd = pwd, ml_from = from', ml_to = sp_Endpoint p,
               ml_subject = mt_Subject attr, ml_content = string_of_bytes body, ml_type = ''html''\<rparr>)
        | None \<Rightarrow> None)
      else None)"

definition mailed :: "('k, 'w) mns_deps \<Rightarrow> mail list \<Rightarrow> 'w \<Rightarrow> 'w" where
  "mailed d ms w = fold (\<lambda>m w. snd (md_DialAndSend d m w)) ms w"

lemma parse_not_Ok: "parseQueueScheme uri \<noteq> Ok x"
  by (auto simp: parseQueueScheme_def split: list.splits)

lemma push_mail:
  assumes "hd (split_on (CHR '':'') (sp_Endpoint p)) = ''mail''"
  shows "\<exists>r t. PushMessage d (mailEndpoint c (sp_Endpoint p) a) body tag attrs s = (r, t) \<and> r \<noteq> Panic \<and>
    ms_db t = ms_db s \<and> ms_kafka t = ms_kafka s \<and> ms_mail t = mailed d (case mail_for d c body attrs p of None \<Rightarrow> [] | Some m \<Rightarrow> [m]) (ms_mail s)"
proof (cases "md_mailAttribute d attrs")
  case None then show ?thesis by (simp add: mail_for_def mailed_def)
next
  case (Some attr)
  then show ?thesis using assms
    by (cases "bad_mail attr") (auto simp: mail_for_def mailed_def sendMail_def Let_def split: prod.splits)
qed

lemma push_sms: "\<exists>r. PushMessage d (smsEndpoint c addr a) body tag attrs s = (r, s) \<and> r \<noteq> Panic"
  by (auto simp: sendSMS_def Let_def errM_def split: option.splits)

lemma endpoint_attribute_run:
  "endpoint_attribute d uri kind s = (Ok \<lparr>ea_Name = uri, ea_Type = kind, ea_URI = uri, ea_CreatedAt = md_now d (ms_tick s),
     ea_LastModifiedAt = md_now d (Suc (ms_tick s))\<rparr>, s\<lparr>ms_tick := Suc (Suc (ms_tick s))\<rparr>)"
  by (simp add: endpoint_attribute_def seqM_def mns_Now_def retM_def)

text \<open>One turn of the loop over the subscriptions.\<close>

lemma push_step:
  assumes "\<not> queue_address (sp_Endpoint p)"
  shows "\<exists>t. push_all d c body tag attrs (p # ps) s = push_all d c body tag attrs ps t \<and> ms_db t = ms_db s \<and> ms_kafka t = ms_kafka s \<and>
    ms_mail t = mailed d (case mail_for d c body attrs p of None \<Rightarrow> [] | Some m \<Rightarrow> [m]) (ms_mail s)"
proof -
  let ?scheme = "hd (split_on (CHR '':'') (sp_Endpoint p))"
  define a where "a kind = \<lparr>ea_Name = sp_Endpoint p, ea_Type = kind, ea_URI = sp_Endpoint p, ea_CreatedAt = md_now d (ms_tick s),
    ea_LastModifiedAt = md_now d (Suc (ms_tick s))\<rparr>" for kind
  let ?s = "s\<lparr>ms_tick := Suc (Suc (ms_tick s))\<rparr>"
  have a: "endpoint_attribute d (sp_Endpoint p) kind s = (Ok (a kind), ?s)" for kind
    by (simp only: endpoint_attribute_run a_def)
  have other: "mail_for d c body attrs p = None" if "?scheme \<noteq> ''mail''" using that by (simp add: mail_for_def)
  consider "?scheme = ''http''" | "?scheme = ''mns''" | "?scheme = ''mail''" | "?scheme = ''sms''"
    | "?scheme \<noteq> ''http''" "?scheme \<noteq> ''mns''" "?scheme \<noteq> ''mail''" "?scheme \<noteq> ''sms''" by blast
  then show ?thesis
  proof cases
    case 1
    then show ?thesis by (intro exI [of _ ?s]) (simp add: NewEndpoint_def newHttpEndpoint_def seqM_def a retM_def other mailed_def)
  next
    case 2
    then obtain e where "parseQueueScheme (sp_Endpoint p) = Err e"
      using assms parse_not_Ok by (cases "parseQueueScheme (sp_Endpoint p)") (auto simp: queue_address_def)
    then show ?thesis using 2 by (intro exI [of _ ?s]) (simp add: NewEndpoint_def newQueueEndpoint_def seqM_def a errM_def other mailed_def)
  next
    case 3
    obtain r t where run: "PushMessage d (mailEndpoint c (sp_Endpoint p) (a ''mail'')) body tag attrs ?s = (r, t)" "r \<noteq> Panic"
      "ms_db t = ms_db s" "ms_kafka t = ms_kafka s" "ms_mail t = mailed d (case mail_for d c body attrs p of None \<Rightarrow> [] | Some m \<Rightarrow> [m]) (ms_mail s)"
      using push_mail [OF 3, of d c "a ''mail''" body tag attrs "?s"] by auto
    have "NewEndpoint d c p s = (Ok (mailEndpoint c (sp_Endpoint p) (a ''mail'')), ?s)"
      using 3 by (simp add: NewEndpoint_def newMailEndpoint_def seqM_def a retM_def)
    then show ?thesis using run by (intro exI [of _ t], cases r) (simp_all del: PushMessage.simps)
  next
    case 4
    obtain r where "PushMessage d (smsEndpoint c (sp_Endpoint p) (a ''sms'')) body tag attrs ?s = (r, ?s)" "r \<noteq> Panic"
      using push_sms by blast
    moreover have "NewEndpoint d c p s = (Ok (smsEndpoint c (sp_Endpoint p) (a ''sms'')), ?s)"
      using 4 by (simp add: NewEndpoint_def newSMSEndpoint_def seqM_def a retM_def)
    ultimately show ?thesis using other 4 by (intro exI [of _ ?s], cases r) (simp_all add: mailed_def del: PushMessage.simps)
  next
    case 5
    then show ?thesis by (intro exI [of _ s]) (simp add: NewEndpoint_def errM_def other mailed_def)
  qed
qed

lemma push_panics: "queue_address (sp_Endpoint p) \<Longrightarrow> push_all d c body tag attrs (p # ps) s = (Panic, s)"
  by (simp add: queue_address_def NewEndpoint_def newQueueEndpoint_def)

lemma deliver_append: "mailed d (ms @ ns) w = mailed d ns (mailed d ms w)"
  by (simp add: mailed_def)

lemma map_filter_Cons: "List.map_filter f (x # xs) = (case f x of None \<Rightarrow> [] | Some y \<Rightarrow> [y]) @ List.map_filter f xs"
  by (simp split: option.splits)

lemma push_all_run:
  "\<exists>t. push_all d c body tag attrs ps s = (if \<exists>p \<in> set ps. queue_address (sp_Endpoint p) then Panic else Ok (), t) \<and>
     ms_db t = ms_db s \<and> ms_kafka t = ms_kafka s \<and>
     ms_mail t = mailed d (List.map_filter (mail_for d c body attrs) (takeWhile (\<lambda>p. \<not> queue_address (sp_Endpoint p)) ps)) (ms_mail s)"
proof (induction ps arbitrary: s)
  case (Cons p ps)
  show ?case
  proof (cases "queue_address (sp_Endpoint p)")
    case True then show ?thesis using push_panics [OF True] by (intro exI [of _ s]) (simp add: mailed_def del: push_all.simps)
  next
    case False
    obtain t where t: "push_all d c body tag attrs (p # ps) s = push_all d c body tag attrs ps t" "ms_db t = ms_db s" "ms_kafka t = ms_kafka s"
      "ms_mail t = mailed d (case mail_for d c body attrs p of None \<Rightarrow> [] | Some m \<Rightarrow> [m]) (ms_mail s)"
      using push_step [OF False] by blast
    obtain u where "push_all d c body tag attrs ps t = (if \<exists>p \<in> set ps. queue_address (sp_Endpoint p) then Panic else Ok (), u)"
      "ms_db u = ms_db t" "ms_kafka u = ms_kafka t"
      "ms_mail u = mailed d (List.map_filter (mail_for d c body attrs) (takeWhile (\<lambda>p. \<not> queue_address (sp_Endpoint p)) ps)) (ms_mail t)"
      using Cons.IH by blast
    then show ?thesis using False t by (intro exI [of _ u]) (simp add: map_filter_Cons deliver_append del: push_all.simps map_filter_simps)
  qed
qed (simp add: mailed_def)


subsection \<open>Instances\<close>

definition mns_sample :: "((string \<times> json) list, mail list) mns_deps" where
  "mns_sample = \<lparr>md_kafka = list_kafka, md_now = (\<lambda>_. 0), md_json = (\<lambda>_. JNull),
     md_mailAttribute = (\<lambda>_. Some \<lparr>mt_AccountName = ''n'', mt_Subject = ''news'', mt_AddressType = 0, mt_IsHtml = 1, mt_ReplyToAddress = 0\<rparr>),
     md_smsAttribute = (\<lambda>_. None), md_DialAndSend = (\<lambda>m w. (True, w @ [m]))\<rparr>"

definition mns_state_of :: "(string \<Rightarrow> document list) \<Rightarrow> (string \<Rightarrow> document list, (string \<times> json) list, mail list) mns_state" where
  "mns_state_of db = \<lparr>ms_db = db, ms_kafka = [], ms_mail = [], ms_tick = 0\<rparr>"

abbreviation sample_mns :: "config \<Rightarrow> (string \<Rightarrow> document list) manager" where
  "sample_mns \<equiv> mongo_manager (\<lambda>s l ds. ds) (list_store no_index)"

lemmas run_mns = seqM_def mns_Now_def Let_def mongo_defs list_store_def no_index_def same_key_def mns_state_of_def mns_sample_def retM_def

theorem created_queue_is_lost_witness:
  "\<exists>attr t. mg_CreateQueue mns_sample (sample_mns (newConfig ''mns'')) ''a'' ''q'' (mns_state_of (\<lambda>_. [])) = (Ok attr, t) \<and>
     mg_GetQueueAttribute (sample_mns (newConfig ''mns'')) ''a'' ''q'' t = (Err (EDb ErrNotFound), t)"
proof -
  obtain attr t where run: "mg_CreateQueue mns_sample (sample_mns (newConfig ''mns'')) ''a'' ''q'' (mns_state_of (\<lambda>_. [])) = (Ok attr, t)"
    by (simp add: mg_CreateQueue_def run_mns mo_AddQueue_def)
  have "queue_documents list_contents (ms_db (mns_state_of (\<lambda>_. [])))" by (simp add: queue_documents_def list_contents_def mns_state_of_def)
  from created_queue_is_lost [OF list_store_laws, OF this, OF run] run show ?thesis by blast
qed

theorem topic_life_witness:
  "\<exists>topic t u. mg_CreateTopic mns_sample (sample_mns (newConfig ''mns'')) ''a'' ''news'' (mns_state_of (\<lambda>_. [])) = (Ok topic, t) \<and>
     mg_DeleteTopic (sample_mns (newConfig ''mns'')) ''a'' ''news'' t = (Ok (), u) \<and>
     mg_GetTopic (sample_mns (newConfig ''mns'')) ''a'' ''news'' u = (Err (EDb ErrNotFound), u)"
proof -
  obtain topic t where run: "mg_CreateTopic mns_sample (sample_mns (newConfig ''mns'')) ''a'' ''news'' (mns_state_of (\<lambda>_. [])) = (Ok topic, t)"
    by (simp add: mg_CreateTopic_def run_mns mo_AddTopic_def)
  have "filter_mset (matches (by_topic ''a'' ''news'')) (list_contents (ms_db (mns_state_of (\<lambda>_. []))) ''topics'') = {#}"
    by (simp add: list_contents_def mns_state_of_def)
  from topic_life [OF list_store_laws, OF this, OF run] run show ?thesis by blast
qed

definition mail_subscription :: Subscription where
  "mail_subscription = zero_subscription\<lparr>sp_AccountId := ''a'', sp_SubscriptionName := ''s1'', sp_TopicName := ''news'', sp_Endpoint := ''mail:x@y.z''\<rparr>"

definition subscriptions_db :: "string \<Rightarrow> document list" where
  "subscriptions_db = (\<lambda>_. [])(''subscriptions'' := [enc_subscription mail_subscription])"

theorem subscription_stays_witness:
  "mg_Unsubscribe (sample_mns (newConfig ''mns'')) ''a'' ''news'' ''s1'' (mns_state_of subscriptions_db) =
     (Err (EDb ErrNotFound), mns_state_of subscriptions_db)"
  by (rule subscription_stays [OF list_store_laws])
    (auto simp: subscription_documents_def list_contents_def mns_state_of_def subscriptions_db_def)

definition mail_config :: config where
  "mail_config = AddConfigItemWithSection ''email'' ''host'' (Some (CStr ''h'')) (AddConfigItemWithSection ''email'' ''account'' (Some (CStr ''u''))
     (AddConfigItemWithSection ''email'' ''pwd'' (Some (CStr ''p'')) (AddConfigItemWithSection ''email'' ''from'' (Some (CStr ''f'')) (newConfig ''mns''))))"

lemma mail_settings:
  "StringWithSection ''email'' ''host'' mail_config = Ok ''h''" "StringWithSection ''email'' ''account'' mail_config = Ok ''u''"
  "StringWithSection ''email'' ''pwd'' mail_config = Ok ''p''" "StringWithSection ''email'' ''from'' mail_config = Ok ''f''"
  "setting (IntWithSection ''email'' ''port'' mail_config) 0 = 0"
  by (simp_all add: mail_config_def StringWithSection_def IntWithSection_def setting_def AddConfigItemWithSection_def Let_def newConfig_def make_section_def
    put_item_def checkItemExist_def section_of_def)


end
