(* ===== verification/Mns_Api.thy ===== *)
theory Mns_Api
  imports Mns Goshiro Go_Sha1
begin

text \<open>
  The interface of the message service (\<^verbatim>\<open>src/mns/apiservice\<close>): the handlers, the routes, the token of a request and its signature.
  What the framework reads out of a request is an argument, as in \<^verbatim>\<open>Api_Server\<close>.
\<close>

subsection \<open>Requests and answers\<close>

record subscribe_body =
  su_Endpoint :: string
  su_FilterTag :: string
  su_NotifyStrategy :: string
  su_NotifyContentFormat :: string

record publish_body =
  pb_Body :: bytes
  pb_Tag :: string
  pb_Attributes :: attributes

record mns_binding =
  nb_queue :: "QueueAttribute option"
  nb_message :: "QueueMessage option"
  nb_messages :: "QueueMessage list option"
  nb_ids :: bool
  nb_topic :: "MnsTopic option"
  nb_subscribe :: "subscribe_body option"
  nb_subscription :: "Subscription option"
  nb_publish :: "publish_body option"

record mns_request =
  nr_param :: "string \<Rightarrow> string"
  nr_query :: "string \<Rightarrow> string"
  nr_principal :: "string option"
  nr_bind :: mns_binding

datatype mns_value = VNull | VError mns_error | VQueue QueueAttribute | VNames "string list" | VMessage QueueMessage
  | VMessages "QueueMessage list" | VTopic MnsTopic | VSubscription Subscription | VSubscriptions "Subscription list" | VSubscriptionId string

datatype mns_answer = AError nat string | AValues nat "mns_value list"

text \<open>Only an error of the service's own is answered as an error: any other is a value of a successful answer.\<close>

fun mns_reply :: "mns_value list \<Rightarrow> mns_answer" where
  "mns_reply [] = AValues 200 []"
| "mns_reply (VError (EMns e) # vs) = AError (me_StatusCode e) (me_Message e)"
| "mns_reply vs = AValues 200 vs"

definition reply_error :: "('db, 'k, 'w, 'a) mns \<Rightarrow> ('db, 'k, 'w, mns_answer) mns" where
  "reply_error m s = (case m s of
      (Ok _, t) \<Rightarrow> (Ok (mns_reply [VNull]), t) | (Err e, t) \<Rightarrow> (Ok (mns_reply [VError e]), t) | (Panic, t) \<Rightarrow> (Panic, t))"

definition replyObject :: "('a \<Rightarrow> mns_value) \<Rightarrow> ('db, 'k, 'w, 'a) mns \<Rightarrow> ('db, 'k, 'w, mns_answer) mns" where
  "replyObject wrap m s = (case m s of
      (Ok x, t) \<Rightarrow> (Ok (mns_reply [wrap x]), t) | (Err e, t) \<Rightarrow> (Ok (mns_reply [VError e]), t) | (Panic, t) \<Rightarrow> (Panic, t))"

definition reply_both :: "mns_value \<Rightarrow> ('a \<Rightarrow> mns_value) \<Rightarrow> ('db, 'k, 'w, 'a) mns \<Rightarrow> ('db, 'k, 'w, mns_answer) mns" where
  "reply_both zero wrap m s = (case m s of
      (Ok x, t) \<Rightarrow> (Ok (mns_reply [wrap x, VNull]), t) | (Err e, t) \<Rightarrow> (Ok (mns_reply [zero, VError e]), t) | (Panic, t) \<Rightarrow> (Panic, t))"

definition invalid :: "('db, 'k, 'w, mns_answer) mns" where
  "invalid = retM (mns_reply [VError (EMns ErrInvalidArgument)])"

definition getAccount :: "mns_request \<Rightarrow> (string \<Rightarrow> ('db, 'k, 'w, 'a) mns) \<Rightarrow> ('db, 'k, 'w, 'a) mns" where
  "getAccount rq f = (case nr_principal rq of None \<Rightarrow> panicM | Some name \<Rightarrow> f name)"

definition bound :: "'a option \<Rightarrow> ('a \<Rightarrow> ('db, 'k, 'w, mns_answer) mns) \<Rightarrow> ('db, 'k, 'w, mns_answer) mns" where
  "bound b f = (case b of None \<Rightarrow> invalid | Some x \<Rightarrow> f x)"

subsection \<open>Handlers of queues\<close>

type_synonym ('db, 'k, 'w) handling = "mns_request \<Rightarrow> ('db, 'k, 'w, mns_answer) mns"

definition ns_createQueue :: "('k, 'w) mns_deps \<Rightarrow> 'db manager \<Rightarrow> ('db, 'k, 'w) handling" where
  "ns_createQueue d m rq = getAccount rq (\<lambda>accountId s. case mg_CreateQueue d m accountId (nr_param rq ''queueName'') s of
      (Ok _, t) \<Rightarrow> (Ok (mns_reply []), t) | (Err e, t) \<Rightarrow> (Ok (mns_reply [VError e]), t) | (Panic, t) \<Rightarrow> (Panic, t))"

definition ns_setQueueAttribute :: "'db manager \<Rightarrow> ('db, 'k, 'w) handling" where
  "ns_setQueueAttribute m rq = bound (nb_queue (nr_bind rq)) (\<lambda>attr. getAccount rq (\<lambda>accountId.
     reply_error (mg_SetQueueAttribute m accountId (nr_param rq ''queueName'') attr)))"

definition ns_getQueueAttribute :: "'db manager \<Rightarrow> ('db, 'k, 'w) handling" where
  "ns_getQueueAttribute m rq = getAccount rq (\<lambda>accountId. replyObject VQueue (mg_GetQueueAttribute m accountId (nr_param rq ''queueName'')))"

definition ns_deleteQueue :: "'db manager \<Rightarrow> ('db, 'k, 'w) handling" where
  "ns_deleteQueue m rq = getAccount rq (\<lambda>accountId. reply_error (mg_DeleteQueue m accountId (nr_param rq ''queueName'')))"

definition ns_getQueueList :: "'db manager \<Rightarrow> ('db, 'k, 'w) handling" where
  "ns_getQueueList m rq = getAccount rq (\<lambda>accountId. replyObject VNames (mg_GetQueues m accountId))"

definition ns_sendQueueMessage :: "('k, 'w) mns_deps \<Rightarrow> 'db manager \<Rightarrow> ('db, 'k, 'w) handling" where
  "ns_sendQueueMessage d m rq = bound (nb_message (nr_bind rq)) (\<lambda>msg. getAccount rq (\<lambda>accountId.
     reply_error (mg_SendQueueMessage d m accountId (nr_param rq ''queueName'') msg)))"

definition ns_batchSendQueueMessage :: "('k, 'w) mns_deps \<Rightarrow> 'db manager \<Rightarrow> ('db, 'k, 'w) handling" where
  "ns_batchSendQueueMessage d m rq = bound (nb_messages (nr_bind rq)) (\<lambda>msgs. getAccount rq (\<lambda>accountId.
     reply_error (mg_BatchSendQueueMessage d m accountId (nr_param rq ''queueName'') msgs)))"

definition ns_receiveQueueMessage :: "'db manager \<Rightarrow> ('db, 'k, 'w) handling" where
  "ns_receiveQueueMessage m rq = getAccount rq (\<lambda>accountId. bound (Atoi (nr_query rq ''ws'')) (\<lambda>ws.
     replyObject VMessage (mg_ReceiveQueueMessage m accountId (nr_param rq ''queueName'') ws)))"

definition ns_batchReceiveQueueMessage :: "'db manager \<Rightarrow> ('db, 'k, 'w) handling" where
  "ns_batchReceiveQueueMessage m rq = bound (Atoi (nr_query rq ''numberOfMessages'')) (\<lambda>numberOfMessages. bound (Atoi (nr_query rq ''ws'')) (\<lambda>ws.
     getAccount rq (\<lambda>accountId.
       replyObject VMessages (mg_BatchReceiveQueueMessages m accountId (nr_param rq ''queueName'') ws numberOfMessages))))"

definition ns_deleteQueueMessage :: "'db manager \<Rightarrow> ('db, 'k, 'w) handling" where
  "ns_deleteQueueMessage m rq = getAccount rq (\<lambda>accountId.
     reply_error (mg_DeleteQueueMessage m accountId (nr_param rq ''queueName'') (nr_query rq ''msgId'')))"

text \<open>The request is bound by value: whatever the framework reads, the list of the messages stays empty.\<close>

definition ns_batchDeleteQueueMessages :: "'db manager \<Rightarrow> ('db, 'k, 'w) handling" where
  "ns_batchDeleteQueueMessages m rq = (if nb_ids (nr_bind rq)
     then getAccount rq (\<lambda>accountId. reply_error (mg_BatchDeleteQueueMessages m accountId (nr_param rq ''queueName'') []))
     else invalid)"

definition ns_peekQueueMessages :: "'db manager \<Rightarrow> ('db, 'k, 'w) handling" where
  "ns_peekQueueMessages m rq = getAccount rq (\<lambda>accountId. bound (Atoi (nr_query rq ''ws'')) (\<lambda>ws.
     reply_both (VMessage zero_message) VMessage (mg_PeekQueueMessage m accountId (nr_param rq ''queueName'') ws)))"

definition ns_batchPeekQueueMessages :: "'db manager \<Rightarrow> ('db, 'k, 'w) handling" where
  "ns_batchPeekQueueMessages m rq = bound (Atoi (nr_query rq ''numberOfMessages'')) (\<lambda>numberOfMessages. bound (Atoi (nr_query rq ''ws'')) (\<lambda>ws.
     getAccount rq (\<lambda>accountId.
       replyObject VMessages (mg_BatchPeekQueueMessages m accountId (nr_param rq ''queueName'') ws numberOfMessages))))"

subsection \<open>Handlers of topics, subscriptions and messages\<close>

definition zero_topic :: MnsTopic where
  "zero_topic = \<lparr>tc_AccountId = [], tc_TopicName = [], tc_CreatedAt = zero_time, tc_LastModifiedAt = zero_time, tc_MaximumMessageSize = 0,
     tc_MessageRetentionPeriod = 0, tc_LogginEnabled = False\<rparr>"

definition ns_createTopic :: "('k, 'w) mns_deps \<Rightarrow> 'db manager \<Rightarrow> ('db, 'k, 'w) handling" where
  "ns_createTopic d m rq = getAccount rq (\<lambda>accountId. replyObject VTopic (mg_CreateTopic d m accountId (nr_param rq ''topicName'')))"

definition ns_setTopic :: "'db manager \<Rightarrow> ('db, 'k, 'w) handling" where
  "ns_setTopic m rq = getAccount rq (\<lambda>accountId. bound (nb_topic (nr_bind rq)) (\<lambda>topicAttr.
     reply_error (mg_SetTopic m accountId (nr_param rq ''topicName'') topicAttr)))"

definition ns_getTopic :: "'db manager \<Rightarrow> ('db, 'k, 'w) handling" where
  "ns_getTopic m rq = getAccount rq (\<lambda>accountId. reply_both (VTopic zero_topic) VTopic (mg_GetTopic m accountId (nr_param rq ''topicName'')))"

definition ns_deleteTopic :: "'db manager \<Rightarrow> ('db, 'k, 'w) handling" where
  "ns_deleteTopic m rq = getAccount rq (\<lambda>accountId. reply_error (mg_DeleteTopic m accountId (nr_param rq ''topicName'')))"

definition ns_listTopics :: "'db manager \<Rightarrow> ('db, 'k, 'w) handling" where
  "ns_listTopics m rq = getAccount rq (\<lambda>accountId. replyObject VNames (mg_ListTopics m accountId))"

definition ns_subscribe :: "('k, 'w) mns_deps \<Rightarrow> 'db manager \<Rightarrow> ('db, 'k, 'w) handling" where
  "ns_subscribe d m rq = getAccount rq (\<lambda>accountId. bound (nb_subscribe (nr_bind rq)) (\<lambda>req.
     replyObject (\<lambda>_. VSubscriptionId (nr_param rq ''subscriptionName''))
       (mg_Subscribe d m accountId (nr_param rq ''topicName'') (nr_param rq ''subscriptionName'') (su_Endpoint req) (su_FilterTag req)
         (su_NotifyStrategy req) (su_NotifyContentFormat req))))"

definition ns_unsubscribe :: "'db manager \<Rightarrow> ('db, 'k, 'w) handling" where
  "ns_unsubscribe m rq = getAccount rq (\<lambda>accountId.
     reply_error (mg_Unsubscribe m accountId (nr_param rq ''topicName'') (nr_param rq ''subscriptionName'')))"

definition ns_getSubscription :: "'db manager \<Rightarrow> ('db, 'k, 'w) handling" where
  "ns_getSubscription m rq = getAccount rq (\<lambda>accountId.
     replyObject VSubscription (mg_GetSubscription m accountId (nr_param rq ''topicName'') (nr_param rq ''subscriptionName'')))"

definition ns_setSubscription :: "'db manager \<Rightarrow> ('db, 'k, 'w) handling" where
  "ns_setSubscription m rq = getAccount rq (\<lambda>accountId. bound (nb_subscription (nr_bind rq)) (\<lambda>attr.
     reply_error (mg_SetSubscription m accountId (nr_param rq ''topicName'') (nr_param rq ''subscriptionName'') attr)))"

definition ns_listTopicSubscriptions :: "'db manager \<Rightarrow> ('db, 'k, 'w) handling" where
  "ns_listTopicSubscriptions m rq = getAccount rq (\<lambda>accountId. bound (Atoi (nr_query rq ''pageSize'')) (\<lambda>pageSize. bound (Atoi (nr_query rq ''pageNo'')) (\<lambda>pageNo.
     replyObject VSubscriptions (mg_ListTopicSubscriptions m accountId (nr_param rq ''topicName'') pageNo pageSize))))"

definition ns_publishMessage :: "('k, 'w) mns_deps \<Rightarrow> 'db manager \<Rightarrow> ('db, 'k, 'w) handling" where
  "ns_publishMessage d m rq = getAccount rq (\<lambda>accountId. bound (nb_publish (nr_bind rq)) (\<lambda>req.
     reply_error (mg_PublishMessage d m accountId (nr_param rq ''topicName'') (pb_Body req) (pb_Tag req) (pb_Attributes req))))"

definition ns_publishNotification :: "('db, 'k, 'w) handling" where
  "ns_publishNotification rq = errM (EMns ErrNotImplemented)"

subsection \<open>The service\<close>

definition mns_routes :: "('k, 'w) mns_deps \<Rightarrow> 'db manager \<Rightarrow> (string \<times> string \<times> ('db, 'k, 'w) handling) list" where
  "mns_routes d m = [
     (''POST'', ''mns/v1/api/queues/:queueName'', ns_createQueue d m),
     (''PUT'', ''mns/v1/api/queues/:queueName'', ns_setQueueAttribute m),
     (''GET'', ''mns/v1/api/queues/:queueName'', ns_getQueueAttribute m),
     (''GET'', ''mns/v1/api/queues'', ns_getQueueList m),
     (''DELETE'', ''mns/v1/api/queues/:queueName'', ns_deleteQueue m),
     (''POST'', ''mns/v1/api/queues/:queueName/messages'', ns_sendQueueMessage d m),
     (''POST'', ''mns/v1/api/queues/:queueName/messages?batch=true'', ns_batchSendQueueMessage d m),
     (''GET'', ''mns/v1/api/queues/:queueName/messages?ws=:ws'', ns_receiveQueueMessage m),
     (''GET'', ''mns/v1/api/queues/:queueName/messages?ws=:ws&nbr=:numberOfMesssages'', ns_batchReceiveQueueMessage m),
     (''DELETE'', ''mns/v1/api/queues/:queueName/messages?msgId=:msgId'', ns_deleteQueueMessage m),
     (''DELETE'', ''mns/v1/api/queues/:queueName/messages?batch=true'', ns_batchDeleteQueueMessages m),
     (''GET'', ''mns/v1/api/queues/:queueName/messages?ws=:ws&peekonly=true'', ns_peekQueueMessages m),
     (''GET'', ''mns/v1/api/queues/:queueName/messages?peekonly=true&batch=true'', ns_batchPeekQueueMessages m),
     (''POST'', ''mns/v1/api/topics/:topicName'', ns_createTopic d m),
     (''PUT'', ''mns/v1/api/topics/:topicName'', ns_setTopic m),
     (''GET'', ''mns/v1/api/topics/:topicName'', ns_getTopic m),
     (''DELETE'', ''mns/v1/api/topics/:topicName'', ns_deleteTopic m),
     (''GET'', ''mns/v1/api/topics'', ns_listTopics m),
     (''POST'', ''mns/v1/api/topics/:topicName/subscriptions/:subscriptionName'', ns_subscribe d m),
     (''PUT'', ''mns/v1/api/topics/:topicName/subscriptions/:subscriptionName'', ns_setSubscription m),
     (''GET'', ''mns/v1/api/topics/:topicName/subscriptions/:subscriptionName'', ns_getSubscription m),
     (''DELETE'', ''mns/v1/api/topics/:topicName/subscriptions/:subscriptionName'', ns_unsubscribe m),
     (''GET'', ''mns/v1/api/topics/:topicName/subscriptions?pagesize=:pageSize&pageno=:pageNo'', ns_listTopicSubscriptions m),
     (''POST'', ''mns/v1/api/topics/:topicName/messages'', ns_publishMessage d m),
     (''POST'', ''mns/v1/api/notifications'', ns_publishNotification)]"

text \<open>
  A call: the authentication is never installed, and nothing sets the principal.
\<close>

definition mns_call :: "(string \<times> string \<times> ('db, 'k, 'w) handling) \<Rightarrow> ('db, 'k, 'w) handling" where
  "mns_call route rq = snd (snd route) (rq\<lparr>nr_principal := None\<rparr>)"

subsection \<open>Tokens\<close>

record apiToken =
  at_method :: string
  at_accessId :: string
  at_contentMD5 :: string
  at_contentType :: string
  at_date :: string
  at_headers :: "string list"
  at_resource :: string
  at_signature :: string

text \<open>
  The header of a request: names in the form that the HTTP library gives them, in the order in which the map is iterated, and \<^verbatim>\<open>Get\<close>, whose
  argument has that form.
\<close>

type_synonym header = "(string \<times> string list) list"

definition header_Get :: "header \<Rightarrow> string \<Rightarrow> string" where
  "header_Get h k = (case map_of h k of Some (v # _) \<Rightarrow> v | _ \<Rightarrow> [])"

definition newApiToken :: "string \<Rightarrow> string \<Rightarrow> header \<Rightarrow> apiToken" where
  "newApiToken meth path h =
     (let (accessId, signature) = (case split_on (CHR '' '') (header_Get h ''Authorization'') of
            [_, item] \<Rightarrow> (case split_on (CHR '':'') item of [a, s] \<Rightarrow> (a, s) | _ \<Rightarrow> ([], []))
          | _ \<Rightarrow> ([], [])) in
      \<lparr>at_method = meth, at_accessId = accessId, at_contentMD5 = header_Get h ''Content-Md5'', at_contentType = header_Get h ''Content-Type'',
       at_date = header_Get h ''Date'',
       at_headers = map (\<lambda>(k, v). k @ '':'' @ concat v) (filter (\<lambda>(k, v). take 6 k = ''x-mns-'') h),
       at_resource = path, at_signature = signature\<rparr>)"

definition access_string :: "string \<Rightarrow> string \<Rightarrow> string \<Rightarrow> string \<Rightarrow> string list \<Rightarrow> string \<Rightarrow> string" where
  "access_string meth md5 contentType date headers resource =
     meth @ [CHR 0x0A] @ md5 @ [CHR 0x0A] @ contentType @ [CHR 0x0A] @ date @ [CHR 0x0A] @ join_with (CHR 0x0A) headers @ [CHR 0x0A] @ resource"

definition signature_of :: "string \<Rightarrow> string \<Rightarrow> string" where
  "signature_of secretKey stringToSign = b64_encode (hmac_sha1 (bytes_of_string secretKey) (bytes_of_string stringToSign))"

definition signAccess :: "apiToken \<Rightarrow> string \<Rightarrow> (unit, unit) outcome" where
  "signAccess token secretKey =
     (if at_signature token = signature_of secretKey (access_string (at_method token) (at_contentMD5 token) (at_contentType token) (at_date token)
          (at_headers token) (at_resource token))
      then Ok () else Err ())"

subsection \<open>Properties\<close>

lemmas queue_handlers = ns_createQueue_def ns_setQueueAttribute_def ns_getQueueAttribute_def ns_deleteQueue_def ns_getQueueList_def ns_sendQueueMessage_def
  ns_batchSendQueueMessage_def ns_receiveQueueMessage_def ns_batchReceiveQueueMessage_def ns_deleteQueueMessage_def ns_batchDeleteQueueMessages_def
  ns_peekQueueMessages_def ns_batchPeekQueueMessages_def

lemmas topic_handlers = ns_createTopic_def ns_setTopic_def ns_getTopic_def ns_deleteTopic_def ns_listTopics_def ns_subscribe_def ns_unsubscribe_def
  ns_getSubscription_def ns_setSubscription_def ns_listTopicSubscriptions_def ns_publishMessage_def ns_publishNotification_def

definition refused :: "(mns_error, mns_answer) outcome \<Rightarrow> bool" where
  "refused r \<longleftrightarrow> r = Panic \<or> r = Ok (AError 400 ''InvalidArgument'') \<or> r = Err (EMns ErrNotImplemented)"

lemma refused_simps [simp]: "refused Panic" "refused (Ok (AError 400 ''InvalidArgument''))" "refused (Err (EMns ErrNotImplemented))"
  by (simp_all add: refused_def)

definition refuses :: "('db, 'k, 'w, mns_answer) mns \<Rightarrow> bool" where
  "refuses h \<longleftrightarrow> (\<forall>s. snd (h s) = s \<and> refused (fst (h s)))"

lemma refuses_rules [intro]:
  "refuses invalid" "nr_principal rq = None \<Longrightarrow> refuses (getAccount rq f)" "(\<And>x. refuses (g x)) \<Longrightarrow> refuses (bound b g)"
  "refuses (errM (EMns ErrNotImplemented))"
  by (auto simp: refuses_def invalid_def getAccount_def bound_def panicM_def retM_def errM_def ErrInvalidArgument_def NewError_def split: option.splits)

text \<open>C27. The message service serves nobody: whatever the route and the request, the answer is that the argument is invalid or that the operation is not
  implemented, or the handler panics, and nothing changes. No handler is ever told who asks.\<close>

theorem mns_serves_nobody:
  assumes "route \<in> set (mns_routes d m)"
  shows "snd (mns_call route rq s) = s \<and> refused (fst (mns_call route rq s))"
proof -
  let ?rq = "rq\<lparr>nr_principal := None\<rparr>"
  have none: "nr_principal ?rq = None" by simp
  have "refuses (snd (snd route) ?rq)"
    using assms unfolding mns_routes_def
    by (auto simp: queue_handlers topic_handlers intro!: refuses_rules)
  then show ?thesis by (simp add: mns_call_def refuses_def)
qed

text \<open>Even for a caller who is known: the manager of the service has no adaptor, and every operation on it panics.\<close>

definition kept :: "('db, 'k, 'w, mns_answer) mns \<Rightarrow> bool" where
  "kept h \<longleftrightarrow> (\<forall>s. ms_db (snd (h s)) = ms_db s \<and> ms_kafka (snd (h s)) = ms_kafka s \<and> ms_mail (snd (h s)) = ms_mail s \<and> refused (fst (h s)))"

definition stuck :: "('db, 'k, 'w, 'a) mns \<Rightarrow> bool" where
  "stuck h \<longleftrightarrow> (\<forall>s. ms_db (snd (h s)) = ms_db s \<and> ms_kafka (snd (h s)) = ms_kafka s \<and> ms_mail (snd (h s)) = ms_mail s \<and> fst (h s) = Panic)"

lemma stuck_rules [intro]:
  "mg_adaptor m = None \<Longrightarrow> stuck (on_adaptor m f)" "mg_adaptor m = None \<Longrightarrow> stuck (on_queue m a n g)"
  "(\<And>x. stuck (k x)) \<Longrightarrow> stuck (seqM (mns_Now d) k)"
  by (auto simp: stuck_def on_adaptor_def on_queue_def mg_GetQueue_def panicM_def seqM_def mns_Now_def)

lemma stuck_run:
  assumes "stuck h"
  obtains t where "h s = (Panic, t)" "ms_db t = ms_db s" "ms_kafka t = ms_kafka s" "ms_mail t = ms_mail s"
  using assms unfolding stuck_def by (metis prod.collapse)

lemma kept_reply [intro]:
  assumes "stuck h"
  shows "kept (reply_error h)" "kept (replyObject wrap h)" "kept (reply_both zero wrap h)"
proof -
  have "\<exists>t. h s = (Panic, t) \<and> ms_db t = ms_db s \<and> ms_kafka t = ms_kafka s \<and> ms_mail t = ms_mail s" for s
    using stuck_run [OF assms, of s] by blast
  then obtain t where "\<And>s. h s = (Panic, t s)" "\<And>s. ms_db (t s) = ms_db s" "\<And>s. ms_kafka (t s) = ms_kafka s" "\<And>s. ms_mail (t s) = ms_mail s" by metis
  then show "kept (reply_error h)" "kept (replyObject wrap h)" "kept (reply_both zero wrap h)"
    by (simp_all add: kept_def reply_error_def replyObject_def reply_both_def)
qed

lemma kept_rules [intro]:
  "kept invalid" "(\<And>x. kept (f x)) \<Longrightarrow> kept (getAccount rq f)" "(\<And>x. kept (g x)) \<Longrightarrow> kept (bound b g)" "kept (errM (EMns ErrNotImplemented))"
  by (auto simp: kept_def invalid_def getAccount_def bound_def panicM_def retM_def errM_def ErrInvalidArgument_def NewError_def split: option.splits)

lemma kept_create: "mg_adaptor m = None \<Longrightarrow> kept (\<lambda>s. case mg_CreateQueue d m accountId queueName s of
    (Ok _, t) \<Rightarrow> (Ok (mns_reply []), t) | (Err e, t) \<Rightarrow> (Ok (mns_reply [VError e]), t) | (Panic, t) \<Rightarrow> (Panic, t))"
  by (simp add: kept_def mg_CreateQueue_def Let_def on_adaptor_def seqM_def mns_Now_def panicM_def)

lemmas manager_ops = mg_SetQueueAttribute_def mg_GetQueueAttribute_def mg_DeleteQueue_def mg_GetQueues_def mg_SendQueueMessage_def mg_BatchSendQueueMessage_def
  mg_ReceiveQueueMessage_def mg_BatchReceiveQueueMessages_def mg_DeleteQueueMessage_def mg_BatchDeleteQueueMessages_def mg_PeekQueueMessage_def
  mg_BatchPeekQueueMessages_def mg_CreateTopic_def mg_SetTopic_def mg_GetTopic_def mg_DeleteTopic_def mg_ListTopics_def mg_Subscribe_def mg_Unsubscribe_def
  mg_GetSubscription_def mg_SetSubscription_def mg_ListTopicSubscriptions_def mg_PublishMessage_def

text \<open>The manager that the message service makes has no adaptor: whoever asks, every handler panics, or answers that the argument is invalid or that
  the operation is not implemented, and the database, the bus and the mail server see nothing of it.\<close>

theorem manager_without_adaptor:
  assumes "NewManager c = Ok m" "(verb, path, h) \<in> set (mns_routes d m)"
  shows "refused (fst (h rq s)) \<and> ms_db (snd (h rq s)) = ms_db s \<and> ms_kafka (snd (h rq s)) = ms_kafka s \<and> ms_mail (snd (h rq s)) = ms_mail s"
proof -
  have none: "mg_adaptor m = None" using assms(1) by (auto simp: NewManager_def NewAdaptor_def)
  have "kept (h rq)"
    using assms(2) none unfolding mns_routes_def
    by (auto simp: queue_handlers topic_handlers manager_ops Let_def intro!: kept_rules kept_reply stuck_rules kept_create)
  then show ?thesis by (simp add: kept_def)
qed

subsection \<open>Instances\<close>

definition nothing_bound :: mns_binding where
  "nothing_bound = \<lparr>nb_queue = None, nb_message = None, nb_messages = None, nb_ids = False, nb_topic = None, nb_subscribe = None,
     nb_subscription = None, nb_publish = None\<rparr>"

definition topic_request :: "string option \<Rightarrow> mns_request" where
  "topic_request who = \<lparr>nr_param = (\<lambda>_. ''news''), nr_query = (\<lambda>_. []), nr_principal = who, nr_bind = nothing_bound\<rparr>"

theorem mns_serves_nobody_witness:
  "snd (mns_call (''POST'', ''mns/v1/api/topics/:topicName'', ns_createTopic mns_sample (sample_mns (newConfig ''mns''))) (topic_request (Some ''a''))
     (mns_state_of (\<lambda>_. []))) = mns_state_of (\<lambda>_. [])"
proof -
  have "(''POST'', ''mns/v1/api/topics/:topicName'', ns_createTopic mns_sample (sample_mns (newConfig ''mns''))) \<in>
      set (mns_routes mns_sample (sample_mns (newConfig ''mns'')))"
    by (simp add: mns_routes_def)
  from mns_serves_nobody [OF this] show ?thesis by blast
qed

theorem manager_without_adaptor_witness:
  "\<exists>m. NewManager (newConfig ''mns'') = Ok m \<and> ms_db (snd (ns_createTopic mns_sample m (topic_request (Some ''a'')) (mns_state_of (\<lambda>_. [])))) = (\<lambda>_. [])"
proof -
  obtain m :: "(string \<Rightarrow> document list) manager" where m: "NewManager (newConfig ''mns'') = Ok m" by (simp add: NewManager_def NewAdaptor_def)
  have "(''POST'', ''mns/v1/api/topics/:topicName'', ns_createTopic mns_sample m) \<in> set (mns_routes mns_sample m)" by (simp add: mns_routes_def)
  from manager_without_adaptor [OF m, OF this, of "topic_request (Some ''a'')" "mns_state_of (\<lambda>_. [])"] m
  show ?thesis by (auto simp: mns_state_of_def)
qed

end
