(* ===== verification/Go_Md5.thy ===== *)
theory Go_Md5
  imports Go_Sha1
begin

unbundle bit_operations_syntax

text \<open>What the client of the message service uses of \<^verbatim>\<open>crypto/md5\<close>: the digest of a byte sequence (RFC 1321), and its hexadecimal form.\<close>

definition le_bytes :: "nat \<Rightarrow> nat \<Rightarrow> bytes" where
  "le_bytes k n = map (\<lambda>i. word_of_nat (n div 256 ^ i)) [0..<k]"

definition le_word :: "bytes \<Rightarrow> 32 word" where
  "le_word bs = foldr (\<lambda>b w. push_bit 8 w OR ucast b) bs 0"

definition md5_pad :: "bytes \<Rightarrow> bytes" where
  "md5_pad msg = msg @ [0x80] @ replicate ((119 - length msg mod 64) mod 64) 0 @ le_bytes 8 (8 * length msg)"

definition md5_table :: "32 word list" where
  "md5_table = [0xD76AA478, 0xE8C7B756, 0x242070DB, 0xC1BDCEEE, 0xF57C0FAF, 0x4787C62A, 0xA8304613, 0xFD469501, 0x698098D8, 0x8B44F7AF,
     0xFFFF5BB1, 0x895CD7BE, 0x6B901122, 0xFD987193, 0xA679438E, 0x49B40821, 0xF61E2562, 0xC040B340, 0x265E5A51, 0xE9B6C7AA,
     0xD62F105D, 0x02441453, 0xD8A1E681, 0xE7D3FBC8, 0x21E1CDE6, 0xC33707D6, 0xF4D50D87, 0x455A14ED, 0xA9E3E905, 0xFCEFA3F8,
     0x676F02D9, 0x8D2A4C8A, 0xFFFA3942, 0x8771F681, 0x6D9D6122, 0xFDE5380C, 0xA4BEEA44, 0x4BDECFA9, 0xF6BB4B60, 0xBEBFBC70,
     0x289B7EC6, 0xEAA127FA, 0xD4EF3085, 0x04881D05, 0xD9D4D039, 0xE6DB99E5, 0x1FA27CF8, 0xC4AC5665, 0xF4292244, 0x432AFF97,
     0xAB9423A7, 0xFC93A039, 0x655B59C3, 0x8F0CCC92, 0xFFEFF47D, 0x85845DD1, 0x6FA87E4F, 0xFE2CE6E0, 0xA3014314, 0x4E0811A1,
     0xF7537E82, 0xBD3AF235, 0x2AD7D2BB, 0xEB86D391]"

definition md5_shift :: "nat \<Rightarrow> nat" where
  "md5_shift i = (if i < 16 then [7, 12, 17, 22] ! (i mod 4) else if i < 32 then [5, 9, 14, 20] ! (i mod 4)
     else if i < 48 then [4, 11, 16, 23] ! (i mod 4) else [6, 10, 15, 21] ! (i mod 4))"

record md5_state =
  md5_a :: "32 word"
  md5_b :: "32 word"
  md5_c :: "32 word"
  md5_d :: "32 word"

definition md5_init :: md5_state where
  "md5_init = \<lparr>md5_a = 0x67452301, md5_b = 0xEFCDAB89, md5_c = 0x98BADCFE, md5_d = 0x10325476\<rparr>"

definition md5_round :: "32 word list \<Rightarrow> nat \<Rightarrow> md5_state \<Rightarrow> md5_state" where
  "md5_round m i s =
     (let b = md5_b s; c = md5_c s; d = md5_d s;
          (f, g) = (if i < 16 then ((b AND c) OR (NOT b AND d), i)
                    else if i < 32 then ((d AND b) OR (NOT d AND c), (5 * i + 1) mod 16)
                    else if i < 48 then (b XOR c XOR d, (3 * i + 5) mod 16)
                    else (c XOR (b OR NOT d), (7 * i) mod 16)) in
      \<lparr>md5_a = d, md5_b = b + word_rotl (md5_shift i) (f + md5_a s + md5_table ! i + m ! g), md5_c = b, md5_d = c\<rparr>)"

definition md5_block :: "md5_state \<Rightarrow> bytes \<Rightarrow> md5_state" where
  "md5_block s blk =
     (let r = fold (md5_round (map le_word (chunks 4 blk))) [0..<64] s in
      \<lparr>md5_a = md5_a s + md5_a r, md5_b = md5_b s + md5_b r, md5_c = md5_c s + md5_c r, md5_d = md5_d s + md5_d r\<rparr>)"

definition md5 :: "bytes \<Rightarrow> bytes" where
  "md5 msg = (let s = foldl md5_block md5_init (chunks 64 (md5_pad msg)) in
     concat (map (\<lambda>h. le_bytes 4 (unat h)) [md5_a s, md5_b s, md5_c s, md5_d s]))"

definition hex_digit :: "nat \<Rightarrow> char" where
  "hex_digit n = ''0123456789abcdef'' ! n"

definition hex :: "bytes \<Rightarrow> string" where
  "hex bs = concat (map (\<lambda>b. [hex_digit (unat b div 16), hex_digit (unat b mod 16)]) bs)"

lemma length_md5 [simp]: "length (md5 msg) = 16"
  by (simp add: md5_def Let_def le_bytes_def)

lemma length_hex [simp]: "length (hex bs) = 2 * length bs"
  by (induction bs) (simp_all add: hex_def)

end
