(* ===== verification/Mns_Client.thy ===== *)
theory Mns_Client
  imports Mns_Api Go_Md5 "HOL-Library.Char_ord" "HOL-Library.List_Lexorder" "HOL-Library.Signed_Division"
begin

text \<open>
  The client library of the message service (\<^verbatim>\<open>src/mns/client\<close>): the limit on the rate of queries, the signature of a request, sending, the
  operations on queues and on the queue manager. Parameters are the HTTP transport, the reading and the printing of JSON texts, the clock and the
  environment variables. The maps of headers are lists in the order in which they are iterated.
\<close>

subsection \<open>The rate of queries\<close>

record QPSMonitor =
  qp_latestIndex :: "32 word"
  qp_delaySecond :: "32 word"
  qp_totalQueries :: "32 word list"

definition NewQPSMonitor :: "32 word \<Rightarrow> QPSMonitor" where
  "NewQPSMonitor delaySecond = (let n = (if sint delaySecond < 5 then 5 else delaySecond) in
     \<lparr>qp_latestIndex = 0, qp_delaySecond = n, qp_totalQueries = replicate (unat n) 0\<rparr>)"

text \<open>\<open>second\<close> is the second of the minute; an index outside the counters is a panic, \<open>None\<close>.\<close>

definition Pulse :: "nat \<Rightarrow> QPSMonitor \<Rightarrow> QPSMonitor option" where
  "Pulse second p =
     (let index = word_of_int (sint (word_of_nat second :: 32 word) smod sint (qp_delaySecond p)) :: 32 word; i = unat index in
      if i < length (qp_totalQueries p)
      then (let p1 = (if qp_latestIndex p \<noteq> index then p\<lparr>qp_latestIndex := index, qp_totalQueries := (qp_totalQueries p)[i := 0]\<rparr> else p) in
            Some (p1\<lparr>qp_totalQueries := (qp_totalQueries p1)[i := qp_totalQueries p1 ! i + 1]\<rparr>))
      else None)"

definition QPS :: "QPSMonitor \<Rightarrow> 32 word" where
  "QPS p =
     (let total = foldl (\<lambda>n i. if word_of_nat i \<noteq> qp_latestIndex p then n + qp_totalQueries p ! i else n) 0 [0..<length (qp_totalQueries p)] in
      word_of_int (sint total sdiv sint (qp_delaySecond p - 1)))"

subsection \<open>Strings\<close>

definition space_runes :: "string list" where
  "space_runes = map (map char_of) [[9 :: nat], [10], [11], [12], [13], [32], [0xC2, 0x85], [0xC2, 0xA0], [0xE1, 0x9A, 0x80],
     [0xE2, 0x80, 0x80], [0xE2, 0x80, 0x81], [0xE2, 0x80, 0x82], [0xE2, 0x80, 0x83], [0xE2, 0x80, 0x84], [0xE2, 0x80, 0x85], [0xE2, 0x80, 0x86],
     [0xE2, 0x80, 0x87], [0xE2, 0x80, 0x88], [0xE2, 0x80, 0x89], [0xE2, 0x80, 0x8A], [0xE2, 0x80, 0xA8], [0xE2, 0x80, 0xA9], [0xE2, 0x80, 0xAF],
     [0xE2, 0x81, 0x9F], [0xE3, 0x80, 0x80]]"

text \<open>The words of \<open>ws\<close>, none of them empty, are taken off the front as often as one is there.\<close>

function strip :: "string list \<Rightarrow> string \<Rightarrow> string" where
  "strip ws s = (case find (\<lambda>w. w \<noteq> [] \<and> take (length w) s = w) ws of None \<Rightarrow> s | Some w \<Rightarrow> strip ws (drop (length w) s))"
  by pat_completeness auto
termination
proof (relation "measure (\<lambda>(ws, s). length s)")
  fix ws s w assume "find (\<lambda>w. w \<noteq> [] \<and> take (length w) s = w) ws = Some w"
  then have "w \<noteq> []" "take (length w) s = w" by (auto simp: find_Some_iff)
  then show "((ws, drop (length w) s), (ws, s)) \<in> measure (\<lambda>(ws, s). length s)" by (cases s) auto
qed simp

declare strip.simps [simp del]

definition TrimSpace :: "string \<Rightarrow> string" where
  "TrimSpace s = rev (strip (map rev space_runes) (rev (strip space_runes s)))"

definition itoa :: "int \<Rightarrow> string" where
  "itoa n = (if n < 0 then CHR ''-'' # decimal (nat (- n)) else decimal (nat n))"

text \<open>The form in which the HTTP library keeps the name of a header that is a token.\<close>

definition lower_char :: "char \<Rightarrow> char" where
  "lower_char c = (if CHR ''A'' \<le> c \<and> c \<le> CHR ''Z'' then char_of (of_char c + 32 :: nat) else c)"

fun canonical :: "bool \<Rightarrow> string \<Rightarrow> string" where
  "canonical up [] = []"
| "canonical up (c # cs) = (if up then upper_char c else lower_char c) # canonical (c = CHR ''-'') cs"

subsection \<open>The client\<close>

record mnsClient =
  mc_url :: string
  mc_secret :: string
  mc_accessKeyId :: string
  mc_proxyURL :: string

definition NewMnsClient :: "string \<Rightarrow> string \<Rightarrow> string \<Rightarrow> (unit, mnsClient) outcome" where
  "NewMnsClient url accessKeyId accessKeySecret =
     (if url = [] then Panic else Ok \<lparr>mc_url = url, mc_secret = accessKeySecret, mc_accessKeyId = accessKeyId, mc_proxyURL = []\<rparr>)"

definition SetProxy :: "string \<Rightarrow> mnsClient \<Rightarrow> mnsClient" where
  "SetProxy url p = p\<lparr>mc_proxyURL := url\<rparr>"

type_synonym headers = "(string \<times> string) list"

record http_request =
  hq_method :: string
  hq_url :: string
  hq_header :: headers
  hq_body :: bytes
  hq_proxy :: string

datatype http_result = NoRequest | NoResponse | Response nat bytes

record 'w client_deps =
  cd_Do :: "http_request \<Rightarrow> 'w \<Rightarrow> http_result \<times> 'w"
  cd_date :: string
  cd_text :: "json \<Rightarrow> bytes"
  cd_errorCode :: "bytes \<Rightarrow> string option"

definition mns_headers :: "headers \<Rightarrow> string list" where
  "mns_headers h = sort (map (\<lambda>(k, v). k @ '':'' @ TrimSpace v) (filter (\<lambda>(k, v). take 6 k = ''x-mns-'') h))"

definition client_string :: "string \<Rightarrow> string \<Rightarrow> headers \<Rightarrow> string \<Rightarrow> string" where
  "client_string date meth h resource =
     (let item = (\<lambda>k z. case map_of h k of Some v \<Rightarrow> v | None \<Rightarrow> z) in
      access_string meth (item ''Content-MD5'' []) (item ''Content-Type'' []) (item ''Date'' date) (mns_headers h) resource)"

definition Signature :: "string \<Rightarrow> mnsClient \<Rightarrow> string \<Rightarrow> headers \<Rightarrow> string \<Rightarrow> string" where
  "Signature date p meth h resource = signature_of (mc_secret p) (client_string date meth h resource)"

definition authorization :: "string \<Rightarrow> mnsClient \<Rightarrow> string \<Rightarrow> headers \<Rightarrow> string \<Rightarrow> string" where
  "authorization date p meth h resource = ''MNS '' @ mc_accessKeyId p @ '':'' @ Signature date p meth h resource"

text \<open>The headers of a request, before the authorization is added, and with it.\<close>

definition signed_headers :: "string \<Rightarrow> headers \<Rightarrow> bytes \<Rightarrow> headers" where
  "signed_headers date h content =
     AList.update ''Date'' date (AList.update ''Content-MD5'' (b64_encode (bytes_of_string (hex (md5 content))))
       (AList.update ''Content-Type'' ''application/json'' (AList.update ''x-mns-version'' ''2018-05-01'' h)))"

definition client_request :: "'w client_deps \<Rightarrow> mnsClient \<Rightarrow> string \<Rightarrow> headers \<Rightarrow> json option \<Rightarrow> string \<Rightarrow> http_request" where
  "client_request d p meth h msg resource =
     (let content = (case msg of None \<Rightarrow> [] | Some j \<Rightarrow> cd_text d j);
          h1 = signed_headers (cd_date d) h content;
          h2 = AList.update ''Authorization'' (authorization (cd_date d) p meth h1 (CHR ''/'' # resource)) h1 in
      \<lparr>hq_method = meth, hq_url = mc_url p @ ''/'' @ resource, hq_header = map (\<lambda>(k, v). (canonical True k, v)) h2, hq_body = content,
       hq_proxy = mc_proxyURL p\<rparr>)"

definition cl_Send :: "'w client_deps \<Rightarrow> mnsClient \<Rightarrow> string \<Rightarrow> headers \<Rightarrow> json option \<Rightarrow> string \<Rightarrow> 'w \<Rightarrow> http_result \<times> 'w" where
  "cl_Send d p meth h msg resource w = cd_Do d (client_request d p meth h msg resource) w"

datatype client_error = ERR_CREATE_NEW_REQUEST_FAILED | ERR_SEND_REQUEST_FAILED | ERR_UNMARSHAL_ERROR_RESPONSE_FAILED | ERR_UNMARSHAL_RESPONSE_FAILED
  | ERR_MNS_CODE string | ERR_MNS_UNKNOWN_CODE string | ERR_MNS_QUEUE_NAME_IS_TOO_LONG | ERR_MNS_DELAY_SECONDS_RANGE_ERROR
  | ERR_MNS_MAX_MESSAGE_SIZE_RANGE_ERROR | ERR_MNS_MSG_RETENTION_PERIOD_RANGE_ERROR | ERR_MNS_MSG_VISIBILITY_TIMEOUT_RANGE_ERROR
  | ERR_MNS_MSG_POOLLING_WAIT_SECONDS_RANGE_ERROR | ERR_MNS_GET_QUEUE_RET_NUMBER_RANGE_ERROR | ERR_MNS_QUEUE_ALREADY_EXIST_AND_HAVE_SAME_ATTR string

definition errMapping :: "string list" where
  "errMapping = [''AccessDenied'', ''InvalidAccessKeyId'', ''InternalError'', ''InvalidAuthorizationHeader'', ''InvalidDateHeader'', ''InvalidArgument'',
     ''InvalidDegist'', ''InvalidRequestURL'', ''InvalidQueryString'', ''MalformedXML'', ''MissingAuthorizationHeader'', ''MissingDateHeader'',
     ''MissingVersionHeader'', ''MissingReceiptHandle'', ''MissingVisibilityTimeout'', ''MessageNotExist'', ''QueueAlreadyExist'', ''QueueDeletedRecently'',
     ''InvalidQueueName'', ''QueueNameLengthError'', ''QueueNotExist'', ''ReceiptHandleError'', ''SignatureDoesNotMatch'', ''TimeExpired'', ''QpsLimitExceeded'']"

text \<open>The error that the code stands for is made, and nil is returned.\<close>

definition ParseError :: "string \<Rightarrow> string \<Rightarrow> client_error option" where
  "ParseError code resource = (let err = (if code \<in> set errMapping then ERR_MNS_CODE code else ERR_MNS_UNKNOWN_CODE code) in None)"

text \<open>\<open>dec\<close> reads the body of an answer; without it the body is not read. The result has the status, the error and the object that was read.\<close>

definition send :: "'w client_deps \<Rightarrow> mnsClient \<Rightarrow> string \<Rightarrow> headers \<Rightarrow> json option \<Rightarrow> string \<Rightarrow> (bytes \<Rightarrow> 'v option) option \<Rightarrow> 'w \<Rightarrow>
    (nat \<times> client_error option \<times> 'v option) \<times> 'w" where
  "send d p meth h msg resource dec w = (case cl_Send d p meth h msg resource w of
      (NoRequest, t) \<Rightarrow> ((0, Some ERR_CREATE_NEW_REQUEST_FAILED, None), t)
    | (NoResponse, t) \<Rightarrow> ((0, Some ERR_SEND_REQUEST_FAILED, None), t)
    | (Response status body, t) \<Rightarrow>
        (if status \<noteq> 201 \<and> status \<noteq> 200 \<and> status \<noteq> 204
         then (case cd_errorCode d body of
             None \<Rightarrow> ((status, Some ERR_UNMARSHAL_ERROR_RESPONSE_FAILED, None), t)
           | Some code \<Rightarrow> ((status, ParseError code resource, None), t))
         else (case dec of
             None \<Rightarrow> ((status, None, None), t)
           | Some f \<Rightarrow> (case f body of
               None \<Rightarrow> ((status, Some ERR_UNMARSHAL_RESPONSE_FAILED, None), t)
             | Some v \<Rightarrow> ((status, None, Some v), t)))))"

subsection \<open>The queue manager\<close>

record queueManager =
  qg_ownerId :: string
  qg_accessKeyId :: string
  qg_accessKeySecret :: string

definition makeMnsUrl :: "string \<Rightarrow> string" where
  "makeMnsUrl ownerId = ''http://localhost:9091/mns/api/v1''"

definition checkQueueName :: "string \<Rightarrow> client_error option" where
  "checkQueueName queueName = (if length queueName > 256 then Some ERR_MNS_QUEUE_NAME_IS_TOO_LONG else None)"

definition checkDelaySeconds :: "32 word \<Rightarrow> client_error option" where
  "checkDelaySeconds seconds = (if sint seconds > 60480 \<or> sint seconds < 0 then Some ERR_MNS_DELAY_SECONDS_RANGE_ERROR else None)"

definition checkMaxMessageSize :: "32 word \<Rightarrow> client_error option" where
  "checkMaxMessageSize maxSize = (if sint maxSize < 1024 \<or> sint maxSize > 65536 then Some ERR_MNS_MAX_MESSAGE_SIZE_RANGE_ERROR else None)"

definition checkMessageRetentionPeriod :: "32 word \<Rightarrow> client_error option" where
  "checkMessageRetentionPeriod retentionPeriod =
     (if sint retentionPeriod < 60 \<or> sint retentionPeriod > 1296000 then Some ERR_MNS_MSG_RETENTION_PERIOD_RANGE_ERROR else None)"

definition checkVisibilityTimeout :: "32 word \<Rightarrow> client_error option" where
  "checkVisibilityTimeout visibilityTimeout =
     (if sint visibilityTimeout < 1 \<or> sint visibilityTimeout > 43200 then Some ERR_MNS_MSG_VISIBILITY_TIMEOUT_RANGE_ERROR else None)"

definition checkPollingWaitSeconds :: "32 word \<Rightarrow> client_error option" where
  "checkPollingWaitSeconds pollingWaitSeconds =
     (if sint pollingWaitSeconds < 0 \<or> sint pollingWaitSeconds > 30 then Some ERR_MNS_MSG_POOLLING_WAIT_SECONDS_RANGE_ERROR else None)"

record CreateQueueRequest =
  cq_DelaySeconds :: "32 word"
  cq_MaxMessageSize :: "32 word"
  cq_MessageRetentionPeriod :: "32 word"
  cq_VisibilityTimeout :: "32 word"
  cq_PollingWaitSeconds :: "32 word"

text \<open>The first error of several checks.\<close>

fun first_error :: "client_error option list \<Rightarrow> client_error option" where
  "first_error [] = None"
| "first_error (Some e # es) = Some e"
| "first_error (None # es) = first_error es"

definition checkAttributes :: "CreateQueueRequest \<Rightarrow> client_error option" where
  "checkAttributes r = first_error [checkDelaySeconds (cq_DelaySeconds r), checkMaxMessageSize (cq_MaxMessageSize r),
     checkMessageRetentionPeriod (cq_MessageRetentionPeriod r), checkVisibilityTimeout (cq_VisibilityTimeout r),
     checkPollingWaitSeconds (cq_PollingWaitSeconds r)]"

text \<open>Members that are zero are left out.\<close>

definition marshal_create :: "CreateQueueRequest \<Rightarrow> json" where
  "marshal_create r = (let item = (\<lambda>k w. if w = 0 then [] else [(k, JNum (sint w))]) in
     JObj (item ''delay_senconds'' (cq_DelaySeconds r) @ item ''maximum_message_size'' (cq_MaxMessageSize r) @
       item ''message_retention_period'' (cq_MessageRetentionPeriod r) @ item ''visibility_timeout'' (cq_VisibilityTimeout r) @
       item ''polling_wait_secods'' (cq_PollingWaitSeconds r)))"

definition manager_client :: "queueManager \<Rightarrow> mnsClient" where
  "manager_client p = \<lparr>mc_url = makeMnsUrl (qg_ownerId p), mc_secret = qg_accessKeySecret p, mc_accessKeyId = qg_accessKeyId p, mc_proxyURL = []\<rparr>"

definition qm_CreateQueue :: "'w client_deps \<Rightarrow> queueManager \<Rightarrow> string \<Rightarrow> CreateQueueRequest \<Rightarrow> 'w \<Rightarrow> client_error option \<times> 'w" where
  "qm_CreateQueue d p name r w =
     (let queueName = TrimSpace name in
      case first_error [checkQueueName queueName, checkAttributes r] of
        Some e \<Rightarrow> (Some e, w)
      | None \<Rightarrow> (case send d (manager_client p) ''POST'' [] (Some (marshal_create r)) (''queues/'' @ queueName) (None :: (bytes \<Rightarrow> unit option) option) w of
          ((code, err, _), t) \<Rightarrow> (if code = 204 then Some (ERR_MNS_QUEUE_ALREADY_EXIST_AND_HAVE_SAME_ATTR queueName) else err, t)))"

definition qm_SetQueueAttributes :: "'w client_deps \<Rightarrow> queueManager \<Rightarrow> string \<Rightarrow> CreateQueueRequest \<Rightarrow> 'w \<Rightarrow> client_error option \<times> 'w" where
  "qm_SetQueueAttributes d p name r w =
     (let queueName = TrimSpace name in
      case first_error [checkQueueName queueName, checkAttributes r] of
        Some e \<Rightarrow> (Some e, w)
      | None \<Rightarrow> (case send d (manager_client p) ''PUT'' [] (Some (marshal_create r)) (''queues/'' @ queueName @ ''?metaoverride=true'')
            (None :: (bytes \<Rightarrow> unit option) option) w of
          ((_, err, _), t) \<Rightarrow> (err, t)))"

definition qm_GetQueueAttributes :: "'w client_deps \<Rightarrow> (bytes \<Rightarrow> 'v option) \<Rightarrow> queueManager \<Rightarrow> string \<Rightarrow> 'w \<Rightarrow> (client_error option \<times> 'v option) \<times> 'w" where
  "qm_GetQueueAttributes d dec p name w =
     (let queueName = TrimSpace name in
      case checkQueueName queueName of
        Some e \<Rightarrow> ((Some e, None), w)
      | None \<Rightarrow> (case send d (manager_client p) ''GET'' [] None (''queues/'' @ queueName) (Some dec) w of ((_, err, v), t) \<Rightarrow> ((err, v), t)))"

definition qm_DeleteQueue :: "'w client_deps \<Rightarrow> queueManager \<Rightarrow> string \<Rightarrow> 'w \<Rightarrow> client_error option \<times> 'w" where
  "qm_DeleteQueue d p name w =
     (let queueName = TrimSpace name in
      case checkQueueName queueName of
        Some e \<Rightarrow> (Some e, w)
      | None \<Rightarrow> (case send d (manager_client p) ''DELETE'' [] None (''queues/'' @ queueName) (None :: (bytes \<Rightarrow> unit option) option) w of
          ((_, err, _), t) \<Rightarrow> (err, t)))"

definition qm_ListQueue :: "'w client_deps \<Rightarrow> (bytes \<Rightarrow> 'v option) \<Rightarrow> queueManager \<Rightarrow> string \<Rightarrow> 32 word \<Rightarrow> string \<Rightarrow> 'w \<Rightarrow> (client_error option \<times> 'v option) \<times> 'w" where
  "qm_ListQueue d dec p nextMarker retNumber prefix' w =
     (let marker = TrimSpace nextMarker; pre = TrimSpace prefix';
          h1 = (if marker \<noteq> [] then [(''x-mns-marker'', marker)] else []) in
      if sint retNumber > 1000 then ((Some ERR_MNS_GET_QUEUE_RET_NUMBER_RANGE_ERROR, None), w)
      else
        (let h2 = (if sint retNumber > 0 then AList.update ''x-mns-ret-number'' (itoa (sint retNumber)) h1 else h1);
             h3 = (if pre \<noteq> [] then AList.update ''x-mns-prefix'' pre h2 else h2) in
         case send d (manager_client p) ''GET'' h3 None ''queues'' (Some dec) w of ((_, err, v), t) \<Rightarrow> ((err, v), t)))"

subsection \<open>Queues\<close>

record mnsQueue =
  mq_name :: string
  mq_client :: mnsClient
  mq_qpsLimit :: "32 word"
  mq_qpsMonitor :: QPSMonitor

text \<open>
  \<open>env\<close> gives the variables of the environment, the names of queues are in ASCII. The client is shared: the proxy is set on the one that was given,
  which is the one in the result.
\<close>

definition proxy_key :: "string \<Rightarrow> string" where
  "proxy_key name = ''MNS_PROXY_'' @ map (\<lambda>c. if c = CHR ''-'' then CHR ''_'' else upper_char c) name"

definition NewMnsQueue :: "(string \<Rightarrow> string) \<Rightarrow> string \<Rightarrow> mnsClient \<Rightarrow> 32 word list \<Rightarrow> (unit, mnsQueue) outcome" where
  "NewMnsQueue env name client qps =
     (if name = [] then Panic
      else
        (let limit = (case qps of [q] \<Rightarrow> if sint q > 0 then q else 2000 | _ \<Rightarrow> 2000);
             url = env (proxy_key name);
             proxyURL = (if url \<noteq> [] then url else env ''MNS_GLOBAL_PROXY'') in
         Ok \<lparr>mq_name = name, mq_client = (if proxyURL \<noteq> [] then SetProxy proxyURL client else client), mq_qpsLimit = limit,
           mq_qpsMonitor = NewQPSMonitor 5\<rparr>))"

text \<open>
  Waiting while the rate is above the limit: does the loop, of which each turn is a sleep of ten milliseconds, end within \<open>n\<close> turns when nobody else
  uses the queue? The loop itself changes nothing.
\<close>

definition too_fast :: "mnsQueue \<Rightarrow> bool" where
  "too_fast p \<longleftrightarrow> sint (mq_qpsLimit p) > 0 \<and> sint (QPS (mq_qpsMonitor p)) > sint (mq_qpsLimit p)"

fun ends_within :: "nat \<Rightarrow> mnsQueue \<Rightarrow> bool" where
  "ends_within 0 p = (\<not> too_fast p)"
| "ends_within (Suc n) p = (if too_fast p then ends_within n p else True)"

text \<open>The result has the queue with its monitor, and whether the wait is over; without a result the monitor panics.\<close>

definition checkQPS :: "nat \<Rightarrow> nat \<Rightarrow> mnsQueue \<Rightarrow> (mnsQueue \<times> bool) option" where
  "checkQPS n second p = (case Pulse second (mq_qpsMonitor p) of
      None \<Rightarrow> None
    | Some m \<Rightarrow> (let q = p\<lparr>mq_qpsMonitor := m\<rparr> in Some (q, ends_within n q)))"

record MessageSendRequest =
  sr_MessageBody :: bytes
  sr_DelaySeconds :: "64 word"
  sr_Priority :: "64 word"

definition marshal_send :: "MessageSendRequest \<Rightarrow> json" where
  "marshal_send r = JObj [(''message_body'', j_bytes (sr_MessageBody r)), (''delay_seconds'', JNum (sint (sr_DelaySeconds r))),
     (''priority'', JNum (sint (sr_Priority r)))]"

definition messages_resource :: "mnsQueue \<Rightarrow> string" where
  "messages_resource p = ''queues/'' @ mq_name p @ ''/messages''"

text \<open>An operation after its check of the rate: \<open>Ok None\<close> when the check does not end within its turns.\<close>

type_synonym ('w, 'v) call = "(unit, (client_error option \<times> 'v option) option) outcome \<times> mnsQueue \<times> 'w"

definition checked :: "nat \<Rightarrow> nat \<Rightarrow> mnsQueue \<Rightarrow> 'w \<Rightarrow> (mnsQueue \<Rightarrow> 'w \<Rightarrow> (nat \<times> client_error option \<times> 'v option) \<times> 'w) \<Rightarrow> ('w, 'v) call" where
  "checked n second p w f = (case checkQPS n second p of
      None \<Rightarrow> (Panic, p, w)
    | Some (q, ended) \<Rightarrow> (if ended then (case f q w of ((_, err, v), t) \<Rightarrow> (Ok (Some (err, v)), q, t)) else (Ok None, q, w)))"

definition mq_SendMessage :: "'w client_deps \<Rightarrow> (bytes \<Rightarrow> 'v option) \<Rightarrow> nat \<Rightarrow> nat \<Rightarrow> mnsQueue \<Rightarrow> MessageSendRequest \<Rightarrow> 'w \<Rightarrow> ('w, 'v) call" where
  "mq_SendMessage d dec n second p msg w =
     checked n second p w (\<lambda>q. send d (mq_client q) ''POST'' [] (Some (marshal_send msg)) (messages_resource q) (Some dec))"

definition mq_BatchSendMessage :: "'w client_deps \<Rightarrow> (bytes \<Rightarrow> 'v option) \<Rightarrow> nat \<Rightarrow> nat \<Rightarrow> mnsQueue \<Rightarrow> MessageSendRequest list \<Rightarrow> 'w \<Rightarrow> ('w, 'v) call" where
  "mq_BatchSendMessage d dec n second p msgs w =
     (if msgs = [] then (Ok (Some (None, None)), p, w)
      else checked n second p w (\<lambda>q. send d (mq_client q) ''POST'' [] (Some (JObj [(''message'', JArr (map marshal_send msgs))])) (messages_resource q) (Some dec)))"

definition mq_DeleteMessage :: "'w client_deps \<Rightarrow> nat \<Rightarrow> nat \<Rightarrow> mnsQueue \<Rightarrow> string \<Rightarrow> 'w \<Rightarrow> ('w, unit) call" where
  "mq_DeleteMessage d n second p receiptHandle w =
     checked n second p w (\<lambda>q. send d (mq_client q) ''DELETE'' [] None (messages_resource q @ ''?ReceiptHandle='' @ receiptHandle) None)"

definition mq_BatchDeleteMessage :: "'w client_deps \<Rightarrow> nat \<Rightarrow> nat \<Rightarrow> mnsQueue \<Rightarrow> string list \<Rightarrow> 'w \<Rightarrow> ('w, unit) call" where
  "mq_BatchDeleteMessage d n second p receiptHandles w =
     (if receiptHandles = [] then (Ok (Some (None, None)), p, w)
      else checked n second p w (\<lambda>q. send d (mq_client q) ''DELETE'' []
        (Some (JObj [(''receipt_handles'', JArr (map j_str receiptHandles))])) (messages_resource q) None))"

definition mq_ChangeMessageVisibility :: "'w client_deps \<Rightarrow> (bytes \<Rightarrow> 'v option) \<Rightarrow> nat \<Rightarrow> nat \<Rightarrow> mnsQueue \<Rightarrow> string \<Rightarrow> 64 word \<Rightarrow> 'w \<Rightarrow> ('w, 'v) call" where
  "mq_ChangeMessageVisibility d dec n second p receiptHandle visibilityTimeout w =
     checked n second p w (\<lambda>q. send d (mq_client q) ''PUT'' [] None
       (messages_resource q @ ''?ReceiptHandle='' @ receiptHandle @ ''&VisibilityTimeout='' @ itoa (sint visibilityTimeout)) (Some dec))"

text \<open>
  The loops that poll: for each turn the second of its check and whether a stop was asked for. The results are the values and errors that were
  handed over, and how the loop was left: still running, waiting for the rate, stopped, or in a panic.
\<close>

datatype poll_end = Running | Waiting | Stopped | Broken

fun poll :: "'w client_deps \<Rightarrow> (bytes \<Rightarrow> 'v option) \<Rightarrow> nat \<Rightarrow> string \<Rightarrow> (nat \<times> bool) list \<Rightarrow> mnsQueue \<Rightarrow> 'w \<Rightarrow>
    (client_error + 'v option) list \<times> poll_end \<times> mnsQueue \<times> 'w" where
  "poll d dec n resource [] p w = ([], Running, p, w)"
| "poll d dec n resource ((second, stop) # turns) p w = (case send d (mq_client p) ''GET'' [] None resource (Some dec) w of
      ((_, err, v), t) \<Rightarrow>
        (let item = (case err of Some e \<Rightarrow> Inl e | None \<Rightarrow> Inr v) in
         case checkQPS n second p of
           None \<Rightarrow> ([item], Broken, p, t)
         | Some (q, ended) \<Rightarrow>
             (if \<not> ended then ([item], Waiting, q, t)
              else if stop then ([item], Stopped, q, t)
              else (case poll d dec n resource turns q t of (items, rest) \<Rightarrow> (item # items, rest)))))"

definition receive_resource :: "mnsQueue \<Rightarrow> 64 word list \<Rightarrow> string" where
  "receive_resource p waitseconds = (case waitseconds of
      [ws] \<Rightarrow> if sint ws \<ge> 0 then messages_resource p @ ''?waitseconds='' @ itoa (sint ws) else messages_resource p
    | _ \<Rightarrow> messages_resource p)"

definition mq_ReceiveMessage :: "'w client_deps \<Rightarrow> (bytes \<Rightarrow> 'v option) \<Rightarrow> nat \<Rightarrow> 64 word list \<Rightarrow> (nat \<times> bool) list \<Rightarrow> mnsQueue \<Rightarrow> 'w \<Rightarrow>
    (client_error + 'v option) list \<times> poll_end \<times> mnsQueue \<times> 'w" where
  "mq_ReceiveMessage d dec n waitseconds turns p w = poll d dec n (receive_resource p waitseconds) turns p w"

definition or_default :: "32 word \<Rightarrow> 32 word" where
  "or_default numOfMessages = (if sint numOfMessages \<le> 0 then 16 else numOfMessages)"

definition mq_BatchReceiveMessage :: "'w client_deps \<Rightarrow> (bytes \<Rightarrow> 'v option) \<Rightarrow> nat \<Rightarrow> 32 word \<Rightarrow> 64 word list \<Rightarrow> (nat \<times> bool) list \<Rightarrow> mnsQueue \<Rightarrow> 'w \<Rightarrow>
    (client_error + 'v option) list \<times> poll_end \<times> mnsQueue \<times> 'w" where
  "mq_BatchReceiveMessage d dec n numOfMessages waitseconds turns p w =
     (let resource = messages_resource p @ ''?numOfMessages='' @ itoa (sint (or_default numOfMessages));
          full = (case waitseconds of [ws] \<Rightarrow> if sint ws \<ge> 0 then resource @ ''&waitseconds='' @ itoa (sint ws) else resource | _ \<Rightarrow> resource) in
      poll d dec n full turns p w)"

text \<open>The loops that peek look at no stop.\<close>

definition mq_PeekMessage :: "'w client_deps \<Rightarrow> (bytes \<Rightarrow> 'v option) \<Rightarrow> nat \<Rightarrow> nat list \<Rightarrow> mnsQueue \<Rightarrow> 'w \<Rightarrow> (client_error + 'v option) list \<times> poll_end \<times> mnsQueue \<times> 'w" where
  "mq_PeekMessage d dec n seconds p w = poll d dec n (messages_resource p @ ''?peekonly=true'') (map (\<lambda>s. (s, False)) seconds) p w"

definition mq_BatchPeekMessage :: "'w client_deps \<Rightarrow> (bytes \<Rightarrow> 'v option) \<Rightarrow> nat \<Rightarrow> 32 word \<Rightarrow> nat list \<Rightarrow> mnsQueue \<Rightarrow> 'w \<Rightarrow>
    (client_error + 'v option) list \<times> poll_end \<times> mnsQueue \<times> 'w" where
  "mq_BatchPeekMessage d dec n numOfMessages seconds p w =
     poll d dec n (messages_resource p @ ''?numOfMessages='' @ itoa (sint (or_default numOfMessages)) @ ''&peekonly=true'') (map (\<lambda>s. (s, False)) seconds) p w"

subsection \<open>The monitor and its limit\<close>

definition monitor_ok :: "QPSMonitor \<Rightarrow> bool" where
  "monitor_ok m \<longleftrightarrow> 5 \<le> sint (qp_delaySecond m) \<and> length (qp_totalQueries m) = unat (qp_delaySecond m) \<and> qp_latestIndex m < qp_delaySecond m"

lemma signed_nonneg: "0 \<le> sint (w :: 32 word) \<Longrightarrow> sint w = uint w"
  using sint_lt [of w] by (simp add: uint_sint take_bit_int_eq_self)

lemma small_sint: "n < 2 ^ 31 \<Longrightarrow> sint (word_of_nat n :: 32 word) = int n"
  by (simp add: signed_of_nat signed_take_bit_int_eq_self)

lemma monitor_ok_new: "monitor_ok (NewQPSMonitor n)"
proof -
  have "sint n = uint n" if "5 \<le> sint n" using that by (intro signed_nonneg) simp
  then show ?thesis by (auto simp: monitor_ok_def NewQPSMonitor_def Let_def word_less_def)
qed

lemma Pulse_eq:
  assumes "5 \<le> sint (qp_delaySecond m)" "length (qp_totalQueries m) = unat (qp_delaySecond m)" "second < 2 ^ 31" "i = second mod unat (qp_delaySecond m)"
  shows "i < length (qp_totalQueries m)" "word_of_nat i < qp_delaySecond m"
    "Pulse second m = Some (m\<lparr>qp_latestIndex := word_of_nat i,
       qp_totalQueries := (qp_totalQueries m)[i := (if qp_latestIndex m = word_of_nat i then qp_totalQueries m ! i else 0) + 1]\<rparr>)"
proof -
  obtain n where n: "n = unat (qp_delaySecond m)" by blast
  have sn: "sint (qp_delaySecond m) = int n" using assms(1) n by (simp add: signed_nonneg)
  then have "0 < n" using assms(1) by simp
  then have i: "i < n" using assms(4) n by simp
  have small: "n < 2 ^ 32" using unsigned_less [of "qp_delaySecond m"] n by simp
  have un: "unat (word_of_nat i :: 32 word) = i" using i small by (simp add: unsigned_of_nat take_bit_nat_eq_self)
  have "int second smod int n = int i" using assms(4) n by (simp add: smod_int_alt_def sgn_if of_nat_mod)
  then have index: "word_of_int (sint (word_of_nat second :: 32 word) smod sint (qp_delaySecond m)) = (word_of_nat i :: 32 word)"
    unfolding sn small_sint [OF assms(3)] by simp
  show "i < length (qp_totalQueries m)" using i assms(2) n by simp
  show "word_of_nat i < qp_delaySecond m" using un i n by (simp add: word_less_nat_alt)
  show "Pulse second m = Some (m\<lparr>qp_latestIndex := word_of_nat i,
       qp_totalQueries := (qp_totalQueries m)[i := (if qp_latestIndex m = word_of_nat i then qp_totalQueries m ! i else 0) + 1]\<rparr>)"
    unfolding Pulse_def index using i assms(2) n un by (simp add: Let_def)
qed

lemma monitor_ok_Pulse:
  assumes "monitor_ok m" "second < 2 ^ 31"
  obtains m' where "Pulse second m = Some m'" "monitor_ok m'"
proof -
  have d: "5 \<le> sint (qp_delaySecond m)" "length (qp_totalQueries m) = unat (qp_delaySecond m)" using assms(1) by (simp_all add: monitor_ok_def)
  show thesis by (rule that, rule Pulse_eq(3) [OF d assms(2) refl]) (use d Pulse_eq(2) [OF d assms(2) refl] in \<open>simp add: monitor_ok_def\<close>)
qed

text \<open>A monitor of five seconds after \<open>k\<close> queries in one second, and the answer of a queue to a burst.\<close>

lemma NewQPSMonitor_five: "NewQPSMonitor 5 = \<lparr>qp_latestIndex = 0, qp_delaySecond = 5, qp_totalQueries = [0, 0, 0, 0, 0]\<rparr>"
proof -
  have "replicate 5 (0 :: 32 word) = [0, 0, 0, 0, 0]" by (simp add: numeral_eq_Suc)
  then show ?thesis by (simp add: NewQPSMonitor_def)
qed

definition burst :: "nat \<Rightarrow> nat \<Rightarrow> QPSMonitor" where
  "burst i k = \<lparr>qp_latestIndex = word_of_nat i, qp_delaySecond = 5, qp_totalQueries = [0, 0, 0, 0, 0 :: 32 word][i := word_of_nat k]\<rparr>"

lemma below_five: "(i :: nat) < 5 \<Longrightarrow> i = 0 \<or> i = 1 \<or> i = 2 \<or> i = 3 \<or> i = 4"
  by arith

lemma upt_five: "[0..<5] = [0, 1, 2, 3, 4 :: nat]"
  by code_simp

lemma Pulse_five:
  assumes "second < 2 ^ 31" "qp_delaySecond m = 5" "length (qp_totalQueries m) = 5"
  shows "Pulse second m = Some (m\<lparr>qp_latestIndex := word_of_nat (second mod 5), qp_totalQueries := (qp_totalQueries m)
    [second mod 5 := (if qp_latestIndex m = word_of_nat (second mod 5) then qp_totalQueries m ! (second mod 5) else 0) + 1]\<rparr>)"
  by (rule Pulse_eq(3)) (use assms in simp_all)

lemma burst_first: "second < 2 ^ 31 \<Longrightarrow> Pulse second (NewQPSMonitor 5) = Some (burst (second mod 5) 1)"
  using below_five [of "second mod 5"] by (auto simp: Pulse_five NewQPSMonitor_five burst_def Let_def)

lemma burst_next: "second < 2 ^ 31 \<Longrightarrow> Pulse second (burst (second mod 5) k) = Some (burst (second mod 5) (Suc k))"
  using below_five [of "second mod 5"] by (auto simp: Pulse_five burst_def Let_def add.commute)

lemma burst_QPS: "i < 5 \<Longrightarrow> QPS (burst i k) = 0"
  using below_five [of i] by (auto simp: QPS_def burst_def Let_def upt_five)

lemma burst_other:
  assumes "second < 2 ^ 31" "i < 5" "second mod 5 \<noteq> i" "k < 2 ^ 31"
  obtains m where "Pulse second (burst i k) = Some m" "sint (QPS m) = int (k div 4)"
proof -
  define j where "j = second mod 5"
  have j: "j < 5" "j \<noteq> i" using assms(3) by (simp_all add: j_def)
  define m where "m = \<lparr>qp_latestIndex = word_of_nat j, qp_delaySecond = 5, qp_totalQueries = [0, 0, 0, 0, 0 :: 32 word][i := word_of_nat k, j := 1]\<rparr>"
  have "Pulse second (burst i k) = Some m"
    using below_five [OF assms(2)] below_five [OF j(1)] j(2)
    by (auto simp: Pulse_five [OF assms(1)] burst_def m_def Let_def j_def [symmetric])
  moreover have "QPS m = word_of_int (sint (word_of_nat k :: 32 word) sdiv 4)"
    using below_five [OF assms(2)] below_five [OF j(1)] j(2) by (auto simp: QPS_def m_def Let_def upt_five)
  moreover have "int k sdiv 4 = int (k div 4)" by (simp add: signed_divide_int_def sgn_if zdiv_int)
  moreover have "sint (word_of_nat (k div 4) :: 32 word) = int (k div 4)" using assms(4) by (intro small_sint) simp
  ultimately show thesis using that by (simp add: small_sint [OF assms(4)])
qed

lemma ends_within_iff: "ends_within n p \<longleftrightarrow> \<not> too_fast p"
  by (induction n) auto

text \<open>Messages that are sent one after the other, each in a second of its own.\<close>

fun send_all :: "'w client_deps \<Rightarrow> (bytes \<Rightarrow> 'v option) \<Rightarrow> nat \<Rightarrow> (nat \<times> MessageSendRequest) list \<Rightarrow> mnsQueue \<Rightarrow> 'w \<Rightarrow>
    (unit, (client_error option \<times> 'v option) option) outcome list \<times> mnsQueue \<times> 'w" where
  "send_all d dec n [] p w = ([], p, w)"
| "send_all d dec n ((second, msg) # msgs) p w = (case mq_SendMessage d dec n second p msg w of
      (r, q, t) \<Rightarrow> (case send_all d dec n msgs q t of (rs, rest) \<Rightarrow> (r # rs, rest)))"

lemma send_all_append: "send_all d dec n (xs @ ys) p w = (case send_all d dec n xs p w of
    (rs, q, t) \<Rightarrow> (case send_all d dec n ys q t of (rs', rest) \<Rightarrow> (rs @ rs', rest)))"
  by (induction xs arbitrary: p w) (auto split: prod.splits)

definition went_through :: "(unit, (client_error option \<times> 'v option) option) outcome \<Rightarrow> bool" where
  "went_through r \<longleftrightarrow> (\<exists>x. r = Ok (Some x))"

lemma SendMessage_slow:
  assumes "Pulse second (mq_qpsMonitor p) = Some m" "QPS m = 0"
  obtains x t where "mq_SendMessage d dec n second p msg w = (Ok (Some x), p\<lparr>mq_qpsMonitor := m\<rparr>, t)"
proof -
  obtain code err v t where
    "send d (mq_client p) ''POST'' [] (Some (marshal_send msg)) (messages_resource (p\<lparr>mq_qpsMonitor := m\<rparr>)) (Some dec) w = ((code, err, v), t)"
    by (metis surj_pair)
  then have "mq_SendMessage d dec n second p msg w = (Ok (Some (err, v)), p\<lparr>mq_qpsMonitor := m\<rparr>, t)"
    using assms by (simp add: mq_SendMessage_def checked_def checkQPS_def ends_within_iff too_fast_def)
  then show thesis by (rule that)
qed

lemma send_burst:
  assumes "second < 2 ^ 31" "Pulse second (mq_qpsMonitor p) = Some (burst (second mod 5) (Suc k))"
  shows "\<exists>rs t. send_all d dec n (map (Pair second) (msg # msgs)) p w
      = (rs, p\<lparr>mq_qpsMonitor := burst (second mod 5) (Suc (k + length msgs))\<rparr>, t) \<and> length rs = Suc (length msgs) \<and> (\<forall>r \<in> set rs. went_through r)"
  using assms(2)
proof (induction msgs arbitrary: msg p k w)
  case Nil
  obtain x t where "mq_SendMessage d dec n second p msg w = (Ok (Some x), p\<lparr>mq_qpsMonitor := burst (second mod 5) (Suc k)\<rparr>, t)"
    using SendMessage_slow [OF Nil burst_QPS, of d dec n msg w] by auto
  then show ?case by (simp add: went_through_def)
next
  case (Cons msg' msgs)
  obtain x t where s: "mq_SendMessage d dec n second p msg w = (Ok (Some x), p\<lparr>mq_qpsMonitor := burst (second mod 5) (Suc k)\<rparr>, t)"
    using SendMessage_slow [OF Cons.prems burst_QPS, of d dec n msg w] by auto
  have next': "Pulse second (mq_qpsMonitor (p\<lparr>mq_qpsMonitor := burst (second mod 5) (Suc k)\<rparr>)) = Some (burst (second mod 5) (Suc (Suc k)))"
    using burst_next [OF assms(1)] by simp
  show ?case using Cons.IH [OF next', of msg' t] s by (auto simp: went_through_def)
qed


text \<open>A client with the limit of one query in a second, and a server that answers everything with the same.\<close>

definition sample_client :: mnsClient where
  "sample_client = \<lparr>mc_url = ''http://h'', mc_secret = ''k'', mc_accessKeyId = ''id'', mc_proxyURL = []\<rparr>"

definition client_sample :: "nat \<Rightarrow> http_request list client_deps" where
  "client_sample status = \<lparr>cd_Do = (\<lambda>rq w. (Response status [], w @ [rq])), cd_date = ''Mon'', cd_text = (\<lambda>_. []), cd_errorCode = (\<lambda>_. Some ''QueueNotExist'')\<rparr>"

definition sample_queue :: mnsQueue where
  "sample_queue = \<lparr>mq_name = ''q'', mq_client = sample_client, mq_qpsLimit = 1, mq_qpsMonitor = NewQPSMonitor 5\<rparr>"

definition sample_send :: MessageSendRequest where
  "sample_send = \<lparr>sr_MessageBody = [], sr_DelaySeconds = 0, sr_Priority = 0\<rparr>"

lemma sample_queue_new: "NewMnsQueue (\<lambda>_. []) ''q'' sample_client [1] = Ok sample_queue"
  by (simp add: NewMnsQueue_def sample_queue_def)


definition refuses_all :: "'w client_deps \<Rightarrow> bool" where
  "refuses_all d \<longleftrightarrow> (\<forall>rq w. \<exists>status body code t. cd_Do d rq w = (Response status body, t) \<and> status \<notin> {200, 201, 204} \<and> cd_errorCode d body = Some code)"

lemma send_refused:
  assumes "refuses_all d"
  obtains status t where "send d p meth h msg resource dec w = ((status, None, None), t)" "status \<noteq> 204"
proof -
  obtain status body code t where
    "cd_Do d (client_request d p meth h msg resource) w = (Response status body, t)" "status \<notin> {200, 201, 204}" "cd_errorCode d body = Some code"
    using assms unfolding refuses_all_def by metis
  then show thesis using that by (simp add: send_def cl_Send_def ParseError_def)
qed

text \<open>C33. A refusal looks like a success. Whenever the server answers with a status other than 200, 201 and 204 and with an error that can be read, the
  operation is told of no error: a queue that was not created, not changed or not deleted is reported as created, changed and deleted.\<close>

theorem refusal_is_success:
  assumes "refuses_all d" "length (TrimSpace name) \<le> 256" "sint (cq_DelaySeconds r) \<in> {0..60480}" "sint (cq_MaxMessageSize r) \<in> {1024..65536}"
    and "sint (cq_MessageRetentionPeriod r) \<in> {60..1296000}" "sint (cq_VisibilityTimeout r) \<in> {1..43200}" "sint (cq_PollingWaitSeconds r) \<in> {0..30}"
  shows "fst (qm_CreateQueue d p name r w) = None \<and> fst (qm_SetQueueAttributes d p name r w) = None \<and> fst (qm_DeleteQueue d p name w) = None"
proof -
  have name: "checkQueueName (TrimSpace name) = None" using assms(2) by (simp add: checkQueueName_def)
  have attr: "checkAttributes r = None"
    using assms(3-7) by (simp add: checkAttributes_def checkDelaySeconds_def checkMaxMessageSize_def checkMessageRetentionPeriod_def
      checkVisibilityTimeout_def checkPollingWaitSeconds_def)
  have "fst (qm_CreateQueue d p name r w) = None"
    by (rule send_refused [OF assms(1), of "manager_client p" "''POST''" "[]" "Some (marshal_create r)" "''queues/'' @ TrimSpace name"
      "None :: (bytes \<Rightarrow> unit option) option" w]) (simp add: qm_CreateQueue_def name attr)
  moreover have "fst (qm_SetQueueAttributes d p name r w) = None"
    by (rule send_refused [OF assms(1), of "manager_client p" "''PUT''" "[]" "Some (marshal_create r)" "''queues/'' @ TrimSpace name @ ''?metaoverride=true''"
      "None :: (bytes \<Rightarrow> unit option) option" w]) (simp add: qm_SetQueueAttributes_def name attr)
  moreover have "fst (qm_DeleteQueue d p name w) = None"
    by (rule send_refused [OF assms(1), of "manager_client p" "''DELETE''" "[]" None "''queues/'' @ TrimSpace name"
      "None :: (bytes \<Rightarrow> unit option) option" w]) (simp add: qm_DeleteQueue_def name)
  ultimately show ?thesis by blast
qed

definition sample_attributes :: CreateQueueRequest where
  "sample_attributes = \<lparr>cq_DelaySeconds = 0, cq_MaxMessageSize = 2048, cq_MessageRetentionPeriod = 60, cq_VisibilityTimeout = 1, cq_PollingWaitSeconds = 30\<rparr>"

definition sample_owner :: queueManager where
  "sample_owner = \<lparr>qg_ownerId = ''o'', qg_accessKeyId = ''id'', qg_accessKeySecret = ''k''\<rparr>"

lemma TrimSpace_sample: "TrimSpace '' q '' = ''q''"
  by code_simp

theorem refusal_is_success_witness:
  "fst (qm_CreateQueue (client_sample 500) sample_owner '' q '' sample_attributes []) = None \<and>
   fst (qm_SetQueueAttributes (client_sample 500) sample_owner '' q '' sample_attributes []) = None \<and>
   fst (qm_DeleteQueue (client_sample 500) sample_owner '' q '' []) = None"
  by (rule refusal_is_success) (simp_all add: refuses_all_def client_sample_def TrimSpace_sample sample_attributes_def)

subsection \<open>The two sides of a signature\<close>

lemma upper_not_x: "upper_char c \<noteq> CHR ''x''"
proof (cases "c = CHR ''x''")
  case True
  then show ?thesis by (simp, code_simp)
next
  case False
  then show ?thesis by (auto simp: upper_char_def split: if_splits char.splits)
qed

lemma canonical_mns: "take 6 (canonical True k) \<noteq> ''x-mns-''"
  by (cases k) (simp_all add: upper_not_x)

lemma join_with_first: "ws \<noteq> [] \<Longrightarrow> hd ws = c # w \<Longrightarrow> \<exists>u. join_with sep ws = c # u"
  by (cases "(sep, ws)" rule: join_with.cases) auto

lemma signed_headers_items [simp]:
  "map_of (signed_headers date h content) ''Date'' = Some date"
  "map_of (signed_headers date h content) ''Content-MD5'' = Some (b64_encode (bytes_of_string (hex (md5 content))))"
  "map_of (signed_headers date h content) ''Content-Type'' = Some ''application/json''"
  "map_of (signed_headers date h content) ''x-mns-version'' = Some ''2018-05-01''"
  by (simp_all add: signed_headers_def AList.update_conv')

lemma mns_headers_first:
  obtains u where "join_with sep (mns_headers (signed_headers date h content)) = CHR ''x'' # u"
proof -
  let ?h = "signed_headers date h content"
  have "(''x-mns-version'', ''2018-05-01'') \<in> set ?h" by (rule map_of_SomeD) simp
  then have ne: "mns_headers ?h \<noteq> []" by (force simp: mns_headers_def filter_empty_conv simp flip: set_empty)
  then have "hd (mns_headers ?h) \<in> set (mns_headers ?h)" by simp
  then obtain k v where "hd (mns_headers ?h) = k @ '':'' @ TrimSpace v" "take 6 k = ''x-mns-''" by (auto simp: mns_headers_def)
  then have "\<exists>w. hd (mns_headers ?h) = CHR ''x'' # w" by (cases k) auto
  then show thesis using join_with_first [OF ne] that by blast
qed

text \<open>The header of a request as it arrives: every name in canonical form, and the items of the request among the rest.\<close>

definition arrives :: "http_request \<Rightarrow> header \<Rightarrow> bool" where
  "arrives rq h \<longleftrightarrow> (\<forall>(k, v) \<in> set h. \<exists>k'. k = canonical True k') \<and> (\<forall>(k, v) \<in> set (hq_header rq). map_of h k = Some [v])"

lemma arrives_item:
  assumes "arrives (client_request d p meth h msg resource) ah" "k \<noteq> ''Authorization''"
    and "map_of (signed_headers (cd_date d) h (hq_body (client_request d p meth h msg resource))) k = Some v"
  shows "header_Get ah (canonical True k) = v"
proof -
  let ?h = "signed_headers (cd_date d) h (hq_body (client_request d p meth h msg resource))"
  have body: "hq_body (client_request d p meth h msg resource) = (case msg of None \<Rightarrow> [] | Some j \<Rightarrow> cd_text d j)" by (simp add: client_request_def Let_def)
  obtain a where header: "hq_header (client_request d p meth h msg resource) = map (\<lambda>(k, v). (canonical True k, v)) (AList.update ''Authorization'' a ?h)"
    unfolding body by (simp add: client_request_def Let_def)
  have "(k, v) \<in> set (AList.update ''Authorization'' a ?h)" using assms(2, 3) by (intro map_of_SomeD) (simp add: AList.update_conv')
  then have "(canonical True k, v) \<in> set (hq_header (client_request d p meth h msg resource))" unfolding header by force
  then have "map_of ah (canonical True k) = Some [v]" using assms(1) unfolding arrives_def by blast
  then show ?thesis by (simp add: header_Get_def)
qed

lemma canonical_names:
  "canonical True ''Date'' = ''Date''" "canonical True ''Content-MD5'' = ''Content-Md5''" "canonical True ''Content-Type'' = ''Content-Type''"
  by code_simp+

text \<open>C30. The service never signs what its client signed: of every request that the client makes, whatever the operation, the headers, the message and
  the path under which it arrives, the service recomputes the signature over a text that differs from the one of the client. Its loop over the headers
  looks for names with the prefix \<^verbatim>\<open>x-mns-\<close>, and the names arrive in canonical form; the client has signed at least the version. A request can only be
  accepted by a collision of the hash.\<close>

theorem signed_texts_differ:
  assumes "arrives (client_request d p meth h msg resource) ah"
  shows "let rq = client_request d p meth h msg resource; token = newApiToken meth path ah in
    at_headers token = [] \<and>
    access_string (at_method token) (at_contentMD5 token) (at_contentType token) (at_date token) (at_headers token) (at_resource token)
      \<noteq> client_string (cd_date d) meth (signed_headers (cd_date d) h (hq_body rq)) (''/'' @ resource)"
proof -
  let ?content = "hq_body (client_request d p meth h msg resource)"
  let ?token = "newApiToken meth path ah"
  have none: "at_headers ?token = []"
    using assms canonical_mns by (force simp: newApiToken_def arrives_def filter_empty_conv split: prod.splits)
  have token: "at_method ?token = meth" "at_date ?token = header_Get ah (canonical True ''Date'')"
    "at_contentMD5 ?token = header_Get ah (canonical True ''Content-MD5'')" "at_contentType ?token = header_Get ah (canonical True ''Content-Type'')"
    unfolding canonical_names by (simp_all add: newApiToken_def split: prod.splits)
  have items: "header_Get ah (canonical True ''Date'') = cd_date d" "header_Get ah (canonical True ''Content-Type'') = ''application/json''"
    "header_Get ah (canonical True ''Content-MD5'') = b64_encode (bytes_of_string (hex (md5 ?content)))"
    by (rule arrives_item [OF assms]; simp)+
  obtain u where "join_with (CHR 0x0A) (mns_headers (signed_headers (cd_date d) h ?content)) = CHR ''x'' # u" by (rule mns_headers_first)
  then show ?thesis unfolding Let_def none token items client_string_def access_string_def by simp
qed

definition sample_arrival :: header where
  "sample_arrival = map (\<lambda>(k, v). (k, [v])) (hq_header (client_request (client_sample 200) sample_client ''GET'' [] None ''queues'')) @ [(''Accept-Encoding'', [''gzip''])]"

definition sample_names :: "string list" where
  "sample_names = [''x-mns-version'', ''Content-Type'', ''Content-MD5'', ''Date'', ''Authorization'']"

lemma arrives_directly:
  assumes "map fst (hq_header rq) = map (canonical True) names" "distinct (map (canonical True) names)" "canonical True k = k"
  shows "arrives rq (map (\<lambda>(k, v). (k, [v])) (hq_header rq) @ [(k, v)])"
proof -
  let ?h = "map (\<lambda>(k, v). (k, [v])) (hq_header rq) @ [(k, v)]"
  have "map_of ?h a = Some [b]" if "(a, b) \<in> set (hq_header rq)" for a b
    using map_of_is_SomeI [OF _ that] assms(1, 2) by (simp add: map_of_map map_add_def)
  moreover have "\<exists>a'. a = canonical True a'" if "(a, b) \<in> set (hq_header rq)" for a b
  proof -
    have "a \<in> set (map fst (hq_header rq))" using that by force
    then show ?thesis unfolding assms(1) by auto
  qed
  ultimately show ?thesis using assms(3) [symmetric] unfolding arrives_def by auto
qed

lemma sample_arrives: "arrives (client_request (client_sample 200) sample_client ''GET'' [] None ''queues'') sample_arrival"
  unfolding sample_arrival_def
proof (rule arrives_directly)
  show "map fst (hq_header (client_request (client_sample 200) sample_client ''GET'' [] None ''queues'')) = map (canonical True) sample_names"
    by (simp add: client_request_def signed_headers_def Let_def sample_names_def del: canonical.simps)
  show "distinct (map (canonical True) sample_names)" by code_simp
  show "canonical True ''Accept-Encoding'' = ''Accept-Encoding''" by code_simp
qed

theorem signed_texts_differ_witness:
  "let rq = client_request (client_sample 200) sample_client ''GET'' [] None ''queues''; token = newApiToken ''GET'' ''/queues'' sample_arrival in
    at_headers token = [] \<and>
    access_string (at_method token) (at_contentMD5 token) (at_contentType token) (at_date token) (at_headers token) (at_resource token)
      \<noteq> client_string (cd_date (client_sample 200)) ''GET'' (signed_headers (cd_date (client_sample 200)) [] (hq_body rq)) (''/'' @ ''queues'')"
  by (rule signed_texts_differ [OF sample_arrives])

end
