(* ===== verification/Spec2Isabelle.thy ===== *)
theory Spec2Isabelle
  imports Mqtt_Handling Goshiro Go_Config Broker_Quto Platform Mns_Client
begin

text \<open>Plan.\<close>

subsection \<open>From a publisher's packet to a subscriber's connection\<close>

definition manager_after :: "'db mongo \<Rightarrow> iter_order \<Rightarrow> event \<Rightarrow> 'db sessionManager \<Rightarrow> 'db sessionManager" where
  "manager_after mg iter e s = snd (sm_handleEvent mg iter e s)"


lemma sample_session:
  "s_mountpoint (nd_s (sample_node m)) = []" "s_clientID (nd_s (sample_node m)) = ''c1''"
  "s_nextPacketID (nd_s (sample_node m)) = 0" "s_connOpen (nd_s (sample_node m))"
  "authorize (s_authctx (nd_s (sample_node m))) topic AclWrite (nd_auth (sample_node m)) = Ok ()"
  by (simp_all add: sample_node_def newMqttSession_def newMetric_def Let_def newAuthService_def authorize_def emptyContext_def)


end
